theory Spec2Isabelle
  imports Complex_Main
begin

section \<open>Values thrown and error classification\<close>

text \<open>
  A JavaScript \<^verbatim>\<open>throw\<close> can raise any value. The service throws \<^verbatim>\<open>Error\<close> objects
  (and the objects the persistence client reports, which carry a \<^verbatim>\<open>message\<close> too);
  \<^verbatim>\<open>withRetry\<close> can also throw its never-assigned \<^verbatim>\<open>lastError\<close>, which is
  \<^verbatim>\<open>undefined\<close>. Reading \<^verbatim>\<open>.message\<close> of \<^verbatim>\<open>undefined\<close> raises a TypeError.
\<close>

datatype thrown = Undefined | Error (message: "string option")

definition TypeError_message :: thrown where
  "TypeError_message = Error (Some ''Cannot read properties of undefined (reading 'message')'')"

text \<open>\<^verbatim>\<open>String.prototype.toLowerCase\<close> on the ASCII letters; strings are byte strings here.\<close>

definition lower_char :: "char \<Rightarrow> char" where
  "lower_char c =
     (case map_of (zip ''ABCDEFGHIJKLMNOPQRSTUVWXYZ'' ''abcdefghijklmnopqrstuvwxyz'') c of
        Some l \<Rightarrow> l
      | None \<Rightarrow> c)"

definition toLowerCase :: "string \<Rightarrow> string" where
  "toLowerCase s = map lower_char s"

text \<open>\<^verbatim>\<open>String.prototype.includes\<close>: the pattern occurs as a contiguous substring.\<close>

fun includes_str :: "string \<Rightarrow> string \<Rightarrow> bool" where
  "includes_str [] p = (p = [])"
| "includes_str (c # cs) p = (take (length p) (c # cs) = p \<or> includes_str cs p)"

text \<open>\<^verbatim>\<open>error.message?.toLowerCase() || ''\<close>; the property access fails on \<^verbatim>\<open>undefined\<close>.\<close>

definition lowered_message :: "thrown \<Rightarrow> thrown + string" where
  "lowered_message error =
     (case error of
        Undefined \<Rightarrow> Inl TypeError_message
      | Error None \<Rightarrow> Inr ''''
      | Error (Some m) \<Rightarrow> Inr (toLowerCase m))"

definition isPersistentError :: "thrown \<Rightarrow> thrown + bool" where
  "isPersistentError error =
     (case lowered_message error of
        Inl t \<Rightarrow> Inl t
      | Inr msg \<Rightarrow>
          Inr (includes_str msg ''410'' \<or>
               includes_str msg ''404'' \<or>
               includes_str msg ''401'' \<or>
               includes_str msg ''403'' \<or>
               includes_str msg ''invalid_grant'' \<or>
               includes_str msg ''token_revoked''))"

text \<open>
  A \<^verbatim>\<open>catch (error)\<close> block that logs \<^verbatim>\<open>error.message\<close> and then rethrows
  \<^verbatim>\<open>error\<close>: when the value caught is \<^verbatim>\<open>undefined\<close>, what leaves the block is the
  TypeError of the property access.
\<close>

definition rethrow_logged :: "thrown \<Rightarrow> thrown" where
  "rethrow_logged err = (case err of Undefined \<Rightarrow> TypeError_message | Error m \<Rightarrow> err)"

section \<open>Service configuration\<close>

text \<open>
  The constructor of \<^verbatim>\<open>GoogleCalendarSyncService\<close> reads four integers from the
  environment (defaults 3, 1000, 30 and 50).
\<close>

record config =
  retryAttempts :: int
  retryDelay :: int
  syncTimeout :: int
  maxCompaniesPerBatch :: int

section \<open>withRetry\<close>

text \<open>
  \<^verbatim>\<open>withRetry(fn, maxRetries)\<close>. The operation \<open>fn\<close> is given by the outcome of each of
  its invocations, numbered from 0: \<open>Inl\<close> what it throws, \<open>Inr\<close> what it returns. The
  result carries, besides the outcome, the delays slept (in order) and the number of
  invocations of \<open>fn\<close>.

  The loop variable \<open>i\<close> and the local \<open>lastError\<close> (initially \<^verbatim>\<open>undefined\<close>) are
  the arguments of the recursion.
\<close>

type_synonym 'a retried = "(thrown + 'a) \<times> int list \<times> nat"

function withRetry_loop ::
  "int \<Rightarrow> (nat \<Rightarrow> thrown + 'a) \<Rightarrow> int \<Rightarrow> int \<Rightarrow> thrown \<Rightarrow> 'a retried" where
  "withRetry_loop delay fn maxRetries i lastError =
     (if i < maxRetries then
        (case fn (nat i) of
           Inr v \<Rightarrow> (Inr v, [], 1)
         | Inl error \<Rightarrow>
             (case isPersistentError error of
                Inl t \<Rightarrow> (Inl t, [], 1)
              | Inr persistent \<Rightarrow>
                  if persistent \<or> i = maxRetries - 1 then (Inl error, [], 1)
                  else (case withRetry_loop delay fn maxRetries (i + 1) error of
                          (r, sleeps, calls) \<Rightarrow> (r, delay * (i + 1) # sleeps, Suc calls))))
      else (Inl lastError, [], 0))"
  by pat_completeness auto
termination
  by (relation "measure (\<lambda>(delay, fn, maxRetries, i, lastError). nat (maxRetries - i))") auto

declare withRetry_loop.simps [simp del]

definition withRetry :: "config \<Rightarrow> (nat \<Rightarrow> thrown + 'a) \<Rightarrow> int \<Rightarrow> 'a retried" where
  "withRetry cfg fn maxRetries = withRetry_loop (retryDelay cfg) fn maxRetries 0 Undefined"

section \<open>RateLimiter\<close>

text \<open>
  Timestamps are integers (milliseconds, as \<^verbatim>\<open>Date.now()\<close> returns them). \<^verbatim>\<open>Math.min\<close> of
  no arguments is \<^verbatim>\<open>Infinity\<close>, so the numbers the limiter computes with are integers or
  \<^verbatim>\<open>Infinity\<close>.
\<close>

datatype jsnum = Finite int | Infinity

definition math_min :: "int list \<Rightarrow> jsnum" where
  "math_min xs = (case xs of [] \<Rightarrow> Infinity | x # rest \<Rightarrow> Finite (fold min rest x))"

definition jsnum_plus :: "jsnum \<Rightarrow> int \<Rightarrow> jsnum" where
  "jsnum_plus a b = (case a of Infinity \<Rightarrow> Infinity | Finite x \<Rightarrow> Finite (x + b))"

definition math_max :: "int \<Rightarrow> jsnum \<Rightarrow> jsnum" where
  "math_max a b = (case b of Infinity \<Rightarrow> Infinity | Finite y \<Rightarrow> Finite (max a y))"

text \<open>
  \<^verbatim>\<open>setTimeout(resolve, delay)\<close>: the runtime replaces a delay below 1 or above
  \<open>2\<^sup>3\<^sup>1 - 1\<close> (so also \<^verbatim>\<open>Infinity\<close>) by 1. The timer is taken to fire exactly when the
  delay has passed, the earliest moment the runtime allows.
\<close>

definition setTimeout_delay :: "jsnum \<Rightarrow> int" where
  "setTimeout_delay d =
     (case d of Infinity \<Rightarrow> 1 | Finite n \<Rightarrow> if n < 1 \<or> 2147483647 < n then 1 else n)"

record RateLimiter =
  maxRequestsPerMinute :: int
  windowSizeMs :: int
  requests :: "int list"
  enabled :: bool

text \<open>
  \<^verbatim>\<open>canMakeRequest()\<close> at time \<open>now\<close>: the answer, the limiter with its pruned window, and
  the \<^verbatim>\<open>timeToWaitMs\<close> of the warning it logs when the limit is reached.
\<close>

definition canMakeRequest :: "RateLimiter \<Rightarrow> int \<Rightarrow> bool \<times> RateLimiter \<times> jsnum option" where
  "canMakeRequest rl now =
     (if \<not> enabled rl then (True, rl, None)
      else
        let windowStart = now - windowSizeMs rl;
            rl' = rl\<lparr>requests := filter (\<lambda>requestTime. requestTime > windowStart) (requests rl)\<rparr>
        in if int (length (requests rl')) \<ge> maxRequestsPerMinute rl' then
             (let oldestRequest = math_min (requests rl');
                  timeToWait = jsnum_plus oldestRequest (windowSizeMs rl' - now)
              in (False, rl', Some timeToWait))
           else (True, rl', None))"

definition recordRequest :: "RateLimiter \<Rightarrow> int \<Rightarrow> RateLimiter" where
  "recordRequest rl now =
     (if \<not> enabled rl then rl else rl\<lparr>requests := requests rl @ [now]\<rparr>)"

text \<open>
  \<^verbatim>\<open>waitForAvailability()\<close> started at time \<open>now\<close>. The \<^verbatim>\<open>while\<close> loop may spin forever
  (a capacity of 0 never frees), so the loop takes fuel, one unit for each evaluation of its
  condition, and \<open>None\<close> says that the fuel ran out. A result is the limiter, the time
  at which the loop was left, and the values of \<^verbatim>\<open>timeToWait\<close> slept, in order.
  Synchronous code takes no time: both readings of \<^verbatim>\<open>Date.now()\<close> in one iteration agree.
\<close>

fun waitForAvailability ::
  "nat \<Rightarrow> RateLimiter \<Rightarrow> int \<Rightarrow> (RateLimiter \<times> int \<times> jsnum list) option" where
  "waitForAvailability 0 rl now = None"
| "waitForAvailability (Suc fuel) rl now =
     (case canMakeRequest rl now of
        (ok, rl', warning) \<Rightarrow>
          if ok then Some (rl', now, [])
          else
            let windowStart = now - windowSizeMs rl';
                oldestRequest = math_min (filter (\<lambda>req. req > windowStart) (requests rl'));
                timeToWait = math_max 1000 (jsnum_plus oldestRequest (windowSizeMs rl' - now))
            in (case waitForAvailability fuel rl' (now + setTimeout_delay timeToWait) of
                  None \<Rightarrow> None
                | Some (rl'', now'', sleeps) \<Rightarrow> Some (rl'', now'', timeToWait # sleeps)))"

text \<open>
  The \<^verbatim>\<open>try\<close>/\<^verbatim>\<open>catch\<close> of \<^verbatim>\<open>makeRequest\<close> around \<open>requestFn\<close>, whose outcome is the
  argument: a result is returned, an error is logged with its \<^verbatim>\<open>message\<close> and rethrown.
\<close>

definition request_outcome :: "thrown + 'a \<Rightarrow> thrown + 'a" where
  "request_outcome requestFn =
     (case requestFn of
        Inr result \<Rightarrow> Inr result
      | Inl error \<Rightarrow> Inl (rethrow_logged error))"

text \<open>
  \<^verbatim>\<open>makeRequest(requestFn)\<close>: wait, record the request at the time the wait ended, then
  run \<open>requestFn\<close> inside the \<^verbatim>\<open>try\<close>.
\<close>

definition makeRequest ::
  "nat \<Rightarrow> RateLimiter \<Rightarrow> int \<Rightarrow> (thrown + 'a) \<Rightarrow>
     ((thrown + 'a) \<times> RateLimiter \<times> int \<times> jsnum list) option" where
  "makeRequest fuel rl now requestFn =
     (case waitForAvailability fuel rl now of
        None \<Rightarrow> None
      | Some (rl', now', sleeps) \<Rightarrow>
          Some (request_outcome requestFn, recordRequest rl' now', now', sleeps))"

section \<open>Data model\<close>

text \<open>
  Rows of the tables \<^verbatim>\<open>appointments\<close>, \<^verbatim>\<open>google_calendar_integrations\<close> and \<^verbatim>\<open>users\<close>,
  with the columns the service reads or writes. The column \<^verbatim>\<open>id\<close> is the field \<open>uid\<close>.
  A nullable column is an option; \<^verbatim>\<open>timestamptz\<close> columns are epoch milliseconds.
  Fields of the same name in several records are written qualified
  (\<open>appointment.status\<close>, \<open>integration.status\<close>).
\<close>

type_synonym uuid = string
type_synonym timestamp = int

record attendee =
  email :: "string option"
  displayName :: "string option"
  responseStatus :: "string option"

record appointment =
  uid :: uuid
  company_id :: uuid
  title :: string
  description :: "string option"
  start_time :: "string option"
  end_time :: "string option"
  location :: "string option"
  google_event_id :: "string option"
  google_calendar_id :: "string option"
  google_meet_link :: "string option"
  attendees :: "attendee list option"
  all_day :: bool
  status :: string
  created_by :: "uuid option"
  created_at :: timestamp
  updated_at :: timestamp

record integration =
  uid :: uuid
  company_id :: uuid
  client_id :: string
  client_secret :: string
  access_token :: "string option"
  refresh_token :: "string option"
  token_expires_at :: "timestamp option"
  calendar_id :: string
  timezone :: "string option"
  auto_create_meet :: bool
  sync_enabled :: bool
  sync_token :: "string option"
  last_sync_at :: "timestamp option"
  status :: string
  is_active :: bool
  updated_at :: timestamp

record user =
  uid :: uuid
  company_id :: uuid
  is_owner :: bool
  is_admin :: bool

text \<open>
  The object \<^verbatim>\<open>appointmentData\<close> that \<^verbatim>\<open>upsertAppointmentFromGoogleEvent\<close> builds. A
  property whose value is \<^verbatim>\<open>undefined\<close> (\<open>None\<close>) is left out of the request body by
  \<^verbatim>\<open>JSON.stringify\<close>.
\<close>

record appointmentData =
  company_id :: uuid
  title :: string
  description :: "string option"
  start_time :: "string option"
  end_time :: "string option"
  location :: "string option"
  google_event_id :: string
  google_calendar_id :: string
  google_meet_link :: "string option"
  attendees :: "attendee list"
  all_day :: bool
  status :: string
  uid :: "uuid option"
  created_by :: "uuid option"
  created_at :: "timestamp option"

text \<open>The remote calendar's event resource, with the properties the service reads.\<close>

record event_time =
  dateTime :: "string option"
  date :: "string option"

record google_event =
  uid :: string
  status :: "string option"
  summary :: "string option"
  description :: "string option"
  location :: "string option"
  start :: "event_time option"
  "end" :: "event_time option"
  organizer_email :: "string option"
  entryPoint_uri :: "string option"
  attendees :: "attendee list option"

record events_data =
  items :: "google_event list option"
  nextSyncToken :: "string option"

text \<open>The body of the token endpoint's answer, on success or failure.\<close>

record token_json =
  access_token :: "string option"
  refresh_token :: "string option"
  expires_in :: "int option"
  error :: "string option"
  error_description :: "string option"

text \<open>The argument of \<^verbatim>\<open>updateIntegrationTokens\<close>.\<close>

record tokens =
  access_token :: "string option"
  refresh_token :: "string option"
  expires_in :: "int option"

text \<open>
  A \<^verbatim>\<open>fetch\<close> response: \<^verbatim>\<open>response.ok\<close> holds for a status in 200..299;
  \<^verbatim>\<open>response.json()\<close> gives the parsed body or rejects with the message on the left.
\<close>

record 'a response =
  status :: nat
  body_text :: string
  body_json :: "string + 'a"

definition ok :: "'a response \<Rightarrow> bool" where
  "ok r = (200 \<le> response.status r \<and> response.status r \<le> 299)"

text \<open>
  The body of the event that \<^verbatim>\<open>createGoogleEvent\<close> posts; \<open>conference_requestId\<close> is
  \<^verbatim>\<open>conferenceData.createRequest.requestId\<close> when the integration asks for a meeting link.
\<close>

record event_payload =
  summary :: string
  description :: "string option"
  start_dateTime :: "string option"
  end_dateTime :: "string option"
  timeZone :: "string option"
  location :: "string option"
  attendee_emails :: "string option list"
  conference_requestId :: "string option"

text \<open>A query parameter is a string, or an instant that \<^verbatim>\<open>toISOString\<close> prints.\<close>

datatype param = Str string | Iso int

section \<open>JavaScript strings and truthiness\<close>

text \<open>A string is truthy when it is neither \<^verbatim>\<open>undefined\<close>/\<^verbatim>\<open>null\<close> nor empty.\<close>

definition truthy :: "string option \<Rightarrow> bool" where
  "truthy s = (case s of None \<Rightarrow> False | Some x \<Rightarrow> x \<noteq> [])"

text \<open>\<^verbatim>\<open>a || b\<close> on strings.\<close>

definition js_or :: "string option \<Rightarrow> string option \<Rightarrow> string option" where
  "js_or a b = (if truthy a then a else b)"

text \<open>A value inside a template literal.\<close>

definition template :: "string option \<Rightarrow> string" where
  "template s = (case s of None \<Rightarrow> ''undefined'' | Some x \<Rightarrow> x)"

fun show_nat :: "nat \<Rightarrow> string" where
  "show_nat n =
     (if n < 10 then [''0123456789'' ! n]
      else show_nat (n div 10) @ [''0123456789'' ! (n mod 10)])"

declare show_nat.simps [simp del]

definition show_int :: "int \<Rightarrow> string" where
  "show_int i = (if i < 0 then ''-'' @ show_nat (nat (- i)) else show_nat (nat i))"

section \<open>Collaborators: the store, the remote endpoints, the trace\<close>

text \<open>
  Every call of a function of the persistence module, every \<^verbatim>\<open>fetch\<close> (with the number of
  the attempt inside \<^verbatim>\<open>withRetry\<close>), every draw of \<^verbatim>\<open>Math.random\<close> and the three phase
  announcements of \<^verbatim>\<open>syncSingleIntegration\<close> are recorded, in order, in the trace.
\<close>

datatype call =
    GetActiveGoogleCalendarIntegrations
  | UpdateIntegrationSyncData uuid string
  | UpdateIntegrationTokens uuid tokens
  | MarkIntegrationAsError uuid "string option"
  | GetCompanyAdminUser uuid
  | UpsertAppointment appointmentData
  | GetAppointmentByGoogleEventId uuid string
  | CancelAppointment uuid
  | GetUnsyncedLocalAppointments uuid string
  | UpdateAppointmentWithGoogleEventId uuid string "string option"
  | GetSyncedAppointments uuid string
  | ListEvents "string option" string "(string \<times> param) list" nat
  | InsertEvent "string option" string event_payload nat
  | GetEvent "string option" string string nat
  | RefreshGrant "string option" string string nat
  | MathRandom uuid
  | Info string

text \<open>
  What the outside world answers. \<open>db_error\<close> is the message of the \<^verbatim>\<open>error\<close> the
  persistence client reports for a query (\<open>None\<close>: the query succeeds); the four
  \<open>fetch\<close> fields give, for a request and attempt, the response or the message of the
  error \<^verbatim>\<open>fetch\<close> rejects with; \<open>gen_random_uuid\<close> is the default of the \<^verbatim>\<open>id\<close> column
  of a new row, from the number of rows; \<open>math_random\<close> is the number \<^verbatim>\<open>Math.random()\<close>
  draws while the integration of that id is swept.
\<close>

record env =
  db_error :: "call \<Rightarrow> string option"
  gen_random_uuid :: "nat \<Rightarrow> uuid"
  fetch_list :: "call \<Rightarrow> string + events_data response"
  fetch_insert :: "call \<Rightarrow> string + google_event response"
  fetch_get :: "call \<Rightarrow> string + unit response"
  fetch_token :: "call \<Rightarrow> string + token_json response"
  math_random :: "uuid \<Rightarrow> real"

record world =
  appointments :: "appointment list"
  integrations :: "integration list"
  users :: "user list"
  trace :: "call list"
  clock :: int

definition record_call :: "call \<Rightarrow> world \<Rightarrow> world" where
  "record_call c w = w\<lparr>trace := trace w @ [c]\<rparr>"

text \<open>
  The effect of a \<^verbatim>\<open>withRetry\<close> run on the world: its attempts are recorded and the clock
  advances by the delays slept.
\<close>

definition after_retry :: "(nat \<Rightarrow> call) \<Rightarrow> 'a retried \<Rightarrow> world \<Rightarrow> world" where
  "after_retry request r w =
     (case r of (outcome, sleeps, calls) \<Rightarrow>
        w\<lparr>trace := trace w @ map request [0..<calls],
          clock := clock w + sum_list (map (\<lambda>d. setTimeout_delay (Finite d)) sleeps)\<rparr>)"

text \<open>
  A \<^verbatim>\<open>catch (error)\<close> block that logs \<^verbatim>\<open>error.message\<close> and goes on: the property
  access itself throws when the value caught is \<^verbatim>\<open>undefined\<close>.
\<close>

definition catch_log :: "thrown \<Rightarrow> thrown + unit" where
  "catch_log err = (case err of Undefined \<Rightarrow> Inl TypeError_message | Error m \<Rightarrow> Inr ())"

section \<open>The persistence module\<close>

text \<open>
  Each function records its call, asks the store, and handles the reported error as its
  \<^verbatim>\<open>try\<close>/\<^verbatim>\<open>catch\<close> does: some swallow it and return \<^verbatim>\<open>false\<close>, \<^verbatim>\<open>null\<close> or
  \<^verbatim>\<open>[]\<close>, the others rethrow it.
\<close>

definition getActiveGoogleCalendarIntegrations :: "env \<Rightarrow> world \<Rightarrow> integration list \<times> world" where
  "getActiveGoogleCalendarIntegrations ev w =
     (let c = GetActiveGoogleCalendarIntegrations; w1 = record_call c w in
      case db_error ev c of
        Some m \<Rightarrow> ([], w1)
      | None \<Rightarrow>
          (filter (\<lambda>i. is_active i \<and> integration.status i = ''connected'' \<and> sync_enabled i \<and>
                        integration.access_token i \<noteq> None) (integrations w1), w1))"

definition updateIntegrationSyncData :: "env \<Rightarrow> uuid \<Rightarrow> string \<Rightarrow> world \<Rightarrow> bool \<times> world" where
  "updateIntegrationSyncData ev integrationId new_sync_token w =
     (let c = UpdateIntegrationSyncData integrationId new_sync_token; w1 = record_call c w in
      case db_error ev c of
        Some m \<Rightarrow> (False, w1)
      | None \<Rightarrow>
          (True, w1\<lparr>integrations :=
             map (\<lambda>i. if integration.uid i = integrationId
                       then i\<lparr>sync_token := Some new_sync_token,
                              last_sync_at := Some (clock w1),
                              integration.updated_at := clock w1\<rparr>
                       else i) (integrations w1)\<rparr>))"

text \<open>
  A \<^verbatim>\<open>Date\<close> holds a time value of at most 8.64e15 milliseconds either side of the epoch;
  \<^verbatim>\<open>new Date(t)\<close> with \<open>t\<close> beyond that is an invalid date, and \<^verbatim>\<open>toISOString\<close> of an
  invalid date throws a RangeError. The clock of the world stands for \<^verbatim>\<open>Date.now()\<close>, and
  the times stored in rows were written by \<^verbatim>\<open>toISOString\<close>: both are within the range. A
  lifetime \<^verbatim>\<open>expires_in\<close> comes from the token endpoint and can be any number.
\<close>

definition valid_date :: "int \<Rightarrow> bool" where
  "valid_date t \<longleftrightarrow> - 8640000000000000 \<le> t \<and> t \<le> 8640000000000000"

text \<open>
  \<^verbatim>\<open>updateIntegrationTokens\<close>: without \<^verbatim>\<open>expires_in\<close>, or with a lifetime that takes
  the expiry out of the range of \<^verbatim>\<open>Date\<close>, the expiry is an invalid date and
  \<^verbatim>\<open>toISOString\<close> throws inside the \<^verbatim>\<open>try\<close>, before any query is sent: the function
  returns \<^verbatim>\<open>false\<close>. A property that is \<^verbatim>\<open>undefined\<close> leaves its column as it is.
\<close>

definition updateIntegrationTokens :: "env \<Rightarrow> uuid \<Rightarrow> tokens \<Rightarrow> world \<Rightarrow> bool \<times> world" where
  "updateIntegrationTokens ev integrationId toks w =
     (let c = UpdateIntegrationTokens integrationId toks; w1 = record_call c w in
      case tokens.expires_in toks of
        None \<Rightarrow> (False, w1)
      | Some seconds \<Rightarrow>
          (let expiresAt = clock w1 + seconds * 1000 in
           if \<not> valid_date expiresAt then (False, w1)
           else
           case db_error ev c of
             Some m \<Rightarrow> (False, w1)
           | None \<Rightarrow>
               (True, w1\<lparr>integrations :=
                  map (\<lambda>i. if integration.uid i = integrationId
                            then i\<lparr>integration.access_token :=
                                     (case tokens.access_token toks of
                                        None \<Rightarrow> integration.access_token i
                                      | Some t \<Rightarrow> Some t),
                                   integration.refresh_token :=
                                     (if truthy (tokens.refresh_token toks)
                                      then tokens.refresh_token toks
                                      else integration.refresh_token i),
                                   token_expires_at := Some expiresAt,
                                   integration.updated_at := clock w1\<rparr>
                            else i) (integrations w1)\<rparr>)))"

definition markIntegrationAsError :: "env \<Rightarrow> uuid \<Rightarrow> string option \<Rightarrow> world \<Rightarrow> bool \<times> world" where
  "markIntegrationAsError ev integrationId errorMessage w =
     (let c = MarkIntegrationAsError integrationId errorMessage; w1 = record_call c w in
      case db_error ev c of
        Some m \<Rightarrow> (False, w1)
      | None \<Rightarrow>
          (True, w1\<lparr>integrations :=
             map (\<lambda>i. if integration.uid i = integrationId
                       then i\<lparr>integration.status := ''error'',
                              integration.updated_at := clock w1\<rparr>
                       else i) (integrations w1)\<rparr>))"

text \<open>\<^verbatim>\<open>getCompanyAdminUser\<close>: the first owner or admin of the company, \<^verbatim>\<open>data?.id || null\<close>.\<close>

definition getCompanyAdminUser :: "env \<Rightarrow> uuid \<Rightarrow> world \<Rightarrow> uuid option \<times> world" where
  "getCompanyAdminUser ev companyId w =
     (let c = GetCompanyAdminUser companyId; w1 = record_call c w in
      case db_error ev c of
        Some m \<Rightarrow> (None, w1)
      | None \<Rightarrow>
          (case filter (\<lambda>u. user.company_id u = companyId \<and> (is_owner u \<or> is_admin u)) (users w1) of
             [] \<Rightarrow> (None, w1)
           | u # rest \<Rightarrow> (if truthy (Some (user.uid u)) then Some (user.uid u) else None, w1)))"

text \<open>
  The upsert on the unique pair \<^verbatim>\<open>company_id,google_event_id\<close>. A column takes the value
  of the request body where the body has the property and stays as it is otherwise; a
  row that conflicts with none is inserted, absent columns taking their defaults.
\<close>

definition overwrite :: "'a option \<Rightarrow> 'a option \<Rightarrow> 'a option" where
  "overwrite new old = (case new of None \<Rightarrow> old | Some v \<Rightarrow> Some v)"

definition update_row :: "appointmentData \<Rightarrow> appointment \<Rightarrow> appointment" where
  "update_row d a =
     a\<lparr>appointment.uid := (case appointmentData.uid d of None \<Rightarrow> appointment.uid a | Some v \<Rightarrow> v),
       appointment.company_id := appointmentData.company_id d,
       appointment.title := appointmentData.title d,
       appointment.description := overwrite (appointmentData.description d) (appointment.description a),
       appointment.start_time := overwrite (appointmentData.start_time d) (appointment.start_time a),
       appointment.end_time := overwrite (appointmentData.end_time d) (appointment.end_time a),
       appointment.location := overwrite (appointmentData.location d) (appointment.location a),
       appointment.google_event_id := Some (appointmentData.google_event_id d),
       appointment.google_calendar_id := Some (appointmentData.google_calendar_id d),
       appointment.google_meet_link :=
         overwrite (appointmentData.google_meet_link d) (appointment.google_meet_link a),
       appointment.attendees := Some (appointmentData.attendees d),
       appointment.all_day := appointmentData.all_day d,
       appointment.status := appointmentData.status d,
       appointment.created_by := overwrite (appointmentData.created_by d) (appointment.created_by a),
       appointment.created_at :=
         (case appointmentData.created_at d of None \<Rightarrow> appointment.created_at a | Some v \<Rightarrow> v)\<rparr>"

definition insert_row :: "env \<Rightarrow> world \<Rightarrow> appointmentData \<Rightarrow> appointment" where
  "insert_row ev w d =
     \<lparr>appointment.uid =
        (case appointmentData.uid d of
           None \<Rightarrow> gen_random_uuid ev (length (appointments w))
         | Some v \<Rightarrow> v),
      appointment.company_id = appointmentData.company_id d,
      appointment.title = appointmentData.title d,
      appointment.description = appointmentData.description d,
      appointment.start_time = appointmentData.start_time d,
      appointment.end_time = appointmentData.end_time d,
      appointment.location = appointmentData.location d,
      appointment.google_event_id = Some (appointmentData.google_event_id d),
      appointment.google_calendar_id = Some (appointmentData.google_calendar_id d),
      appointment.google_meet_link = appointmentData.google_meet_link d,
      appointment.attendees = Some (appointmentData.attendees d),
      appointment.all_day = appointmentData.all_day d,
      appointment.status = appointmentData.status d,
      appointment.created_by = appointmentData.created_by d,
      appointment.created_at = (case appointmentData.created_at d of None \<Rightarrow> clock w | Some v \<Rightarrow> v),
      appointment.updated_at = clock w\<rparr>"

definition conflicts :: "appointmentData \<Rightarrow> appointment \<Rightarrow> bool" where
  "conflicts d a =
     (appointment.company_id a = appointmentData.company_id d \<and>
      appointment.google_event_id a = Some (appointmentData.google_event_id d))"

definition upsertAppointment ::
  "env \<Rightarrow> appointmentData \<Rightarrow> world \<Rightarrow> (thrown + appointment) \<times> world" where
  "upsertAppointment ev d w =
     (let c = UpsertAppointment d; w1 = record_call c w in
      case (if \<not> truthy (appointmentData.created_by d) then
              (case getCompanyAdminUser ev (appointmentData.company_id d) w1 of
                 (Some adminUserId, w2) \<Rightarrow> (d\<lparr>appointmentData.created_by := Some adminUserId\<rparr>, w2)
               | (None, w2) \<Rightarrow>
                   (d\<lparr>appointmentData.created_by := Some ''00000000-0000-0000-0000-000000000000''\<rparr>, w2))
            else (d, w1)) of
        (d', w2) \<Rightarrow>
          (case db_error ev c of
             Some m \<Rightarrow> (Inl (Error (Some m)), w2)
           | None \<Rightarrow>
               (case filter (conflicts d') (appointments w2) of
                  [] \<Rightarrow>
                    (let row = insert_row ev w2 d'
                     in (Inr row, w2\<lparr>appointments := appointments w2 @ [row]\<rparr>))
                | a # rest \<Rightarrow>
                    (Inr (update_row d' a),
                     w2\<lparr>appointments :=
                          map (\<lambda>r. if conflicts d' r then update_row d' r else r) (appointments w2)\<rparr>))))"

text \<open>
  \<^verbatim>\<open>getAppointmentByGoogleEventId\<close>: \<^verbatim>\<open>maybeSingle()\<close> gives \<^verbatim>\<open>null\<close> for no row, the row
  for one, and reports an error for several, which the function swallows into \<^verbatim>\<open>null\<close>.
\<close>

definition getAppointmentByGoogleEventId ::
  "env \<Rightarrow> uuid \<Rightarrow> string \<Rightarrow> world \<Rightarrow> appointment option \<times> world" where
  "getAppointmentByGoogleEventId ev companyId googleEventId w =
     (let c = GetAppointmentByGoogleEventId companyId googleEventId; w1 = record_call c w in
      case db_error ev c of
        Some m \<Rightarrow> (None, w1)
      | None \<Rightarrow>
          (case filter (\<lambda>a. appointment.company_id a = companyId \<and>
                            appointment.google_event_id a = Some googleEventId) (appointments w1) of
             [] \<Rightarrow> (None, w1)
           | [a] \<Rightarrow> (Some a, w1)
           | a # b # rest \<Rightarrow> (None, w1)))"

definition cancelAppointment :: "env \<Rightarrow> uuid \<Rightarrow> world \<Rightarrow> bool \<times> world" where
  "cancelAppointment ev appointmentId w =
     (let c = CancelAppointment appointmentId; w1 = record_call c w in
      case db_error ev c of
        Some m \<Rightarrow> (False, w1)
      | None \<Rightarrow>
          (True, w1\<lparr>appointments :=
             map (\<lambda>a. if appointment.uid a = appointmentId
                       then a\<lparr>appointment.status := ''cancelled'',
                              appointment.updated_at := clock w1\<rparr>
                       else a) (appointments w1)\<rparr>))"

definition unsynced :: "uuid \<Rightarrow> string \<Rightarrow> appointment \<Rightarrow> bool" where
  "unsynced companyId googleCalendarId a =
     (appointment.company_id a = companyId \<and>
      appointment.google_calendar_id a = Some googleCalendarId \<and>
      appointment.google_event_id a = None \<and>
      appointment.status a \<noteq> ''cancelled'')"

definition getUnsyncedLocalAppointments ::
  "env \<Rightarrow> uuid \<Rightarrow> string \<Rightarrow> world \<Rightarrow> (thrown + appointment list) \<times> world" where
  "getUnsyncedLocalAppointments ev companyId googleCalendarId w =
     (let c = GetUnsyncedLocalAppointments companyId googleCalendarId; w1 = record_call c w in
      case db_error ev c of
        Some m \<Rightarrow> (Inl (Error (Some m)), w1)
      | None \<Rightarrow>
          (Inr (sort_key appointment.created_at
                  (filter (unsynced companyId googleCalendarId) (appointments w1))), w1))"

text \<open>
  \<^verbatim>\<open>updateAppointmentWithGoogleEventId\<close>: the meeting link is written only when truthy.
\<close>

definition updateAppointmentWithGoogleEventId ::
  "env \<Rightarrow> uuid \<Rightarrow> string \<Rightarrow> string option \<Rightarrow> world \<Rightarrow> (thrown + unit) \<times> world" where
  "updateAppointmentWithGoogleEventId ev appointmentId googleEventId googleMeetLink w =
     (let c = UpdateAppointmentWithGoogleEventId appointmentId googleEventId googleMeetLink;
          w1 = record_call c w in
      case db_error ev c of
        Some m \<Rightarrow> (Inl (Error (Some m)), w1)
      | None \<Rightarrow>
          (Inr (), w1\<lparr>appointments :=
             map (\<lambda>a. if appointment.uid a = appointmentId
                       then a\<lparr>appointment.google_event_id := Some googleEventId,
                              appointment.updated_at := clock w1,
                              appointment.google_meet_link :=
                                (if truthy googleMeetLink then googleMeetLink
                                 else appointment.google_meet_link a)\<rparr>
                       else a) (appointments w1)\<rparr>))"

text \<open>
  \<^verbatim>\<open>getSyncedAppointments\<close>: the query has no condition on the calendar; it orders by
  \<^verbatim>\<open>created_at\<close> descending and keeps 100 rows. (The rows are returned whole here; the
  query selects the columns \<^verbatim>\<open>id, title, google_event_id, google_calendar_id, created_at\<close>.)
\<close>

definition synced :: "uuid \<Rightarrow> appointment \<Rightarrow> bool" where
  "synced companyId a =
     (appointment.company_id a = companyId \<and>
      appointment.google_event_id a \<noteq> None \<and>
      appointment.status a \<noteq> ''cancelled'')"

definition getSyncedAppointments ::
  "env \<Rightarrow> uuid \<Rightarrow> string \<Rightarrow> world \<Rightarrow> (thrown + appointment list) \<times> world" where
  "getSyncedAppointments ev companyId googleCalendarId w =
     (let c = GetSyncedAppointments companyId googleCalendarId; w1 = record_call c w in
      case db_error ev c of
        Some m \<Rightarrow> (Inl (Error (Some m)), w1)
      | None \<Rightarrow>
          (Inr (take 100 (sort_key (\<lambda>a. - appointment.created_at a)
                            (filter (synced companyId) (appointments w1)))), w1))"

section \<open>The sync service: remote calls\<close>

text \<open>
  \<^verbatim>\<open>checkGoogleEventExists\<close>, \<^verbatim>\<open>fetchGoogleCalendarEvents\<close> and \<^verbatim>\<open>createGoogleEvent\<close>
  run \<^verbatim>\<open>withRetry\<close> inside \<^verbatim>\<open>rateLimiter.makeRequest\<close>, whose \<^verbatim>\<open>try\<close>/\<^verbatim>\<open>catch\<close>
  settles the outcome (\<open>request_outcome\<close>); \<^verbatim>\<open>refreshAccessToken\<close> runs \<^verbatim>\<open>withRetry\<close>
  alone. The waiting of the limiter, which only takes time, is modelled in its own section.
\<close>

definition api_error :: "'a response \<Rightarrow> thrown" where
  "api_error r =
     Error (Some (''Google Calendar API error: '' @ show_nat (response.status r) @ '' - '' @ body_text r))"

definition checkGoogleEventExists_attempt ::
  "env \<Rightarrow> string \<Rightarrow> string \<Rightarrow> string option \<Rightarrow> nat \<Rightarrow> thrown + bool" where
  "checkGoogleEventExists_attempt ev googleEventId calendarId accessToken attempt =
     (case fetch_get ev (GetEvent accessToken calendarId googleEventId attempt) of
        Inl m \<Rightarrow> Inl (Error (Some m))
      | Inr r \<Rightarrow>
          if response.status r = 404 then Inr False
          else if response.status r = 410 then Inr False
          else if \<not> ok r then Inl (api_error r)
          else Inr True)"

definition checkGoogleEventExists ::
  "env \<Rightarrow> config \<Rightarrow> string \<Rightarrow> string \<Rightarrow> string option \<Rightarrow> world \<Rightarrow> (thrown + bool) \<times> world" where
  "checkGoogleEventExists ev cfg googleEventId calendarId accessToken w =
     (let r = withRetry cfg (checkGoogleEventExists_attempt ev googleEventId calendarId accessToken)
                (retryAttempts cfg)
      in (request_outcome (fst r), after_retry (GetEvent accessToken calendarId googleEventId) r w))"

definition refreshAccessToken_attempt ::
  "env \<Rightarrow> string option \<Rightarrow> string \<Rightarrow> string \<Rightarrow> nat \<Rightarrow> thrown + token_json" where
  "refreshAccessToken_attempt ev refreshToken clientId clientSecret attempt =
     (case fetch_token ev (RefreshGrant refreshToken clientId clientSecret attempt) of
        Inl m \<Rightarrow> Inl (Error (Some m))
      | Inr r \<Rightarrow>
          if \<not> ok r then
            (case body_json r of
               Inl m \<Rightarrow> Inl (Error (Some m))
             | Inr errorData \<Rightarrow>
                 Inl (Error (Some (''Token refresh failed: '' @
                        template (js_or (error_description errorData) (token_json.error errorData))))))
          else (case body_json r of Inl m \<Rightarrow> Inl (Error (Some m)) | Inr j \<Rightarrow> Inr j))"

definition refreshAccessToken ::
  "env \<Rightarrow> config \<Rightarrow> string option \<Rightarrow> string \<Rightarrow> string \<Rightarrow> world \<Rightarrow> (thrown + token_json) \<times> world" where
  "refreshAccessToken ev cfg refreshToken clientId clientSecret w =
     (let r = withRetry cfg (refreshAccessToken_attempt ev refreshToken clientId clientSecret)
                (retryAttempts cfg)
      in (fst r, after_retry (RefreshGrant refreshToken clientId clientSecret) r w))"

definition ensureValidToken ::
  "env \<Rightarrow> config \<Rightarrow> integration \<Rightarrow> world \<Rightarrow> (thrown + string option) \<times> world" where
  "ensureValidToken ev cfg i w =
     (if \<not> truthy (integration.access_token i) then
        (Inl (Error (Some ''No access token available'')), w)
      else
        let expiresAt = (case token_expires_at i of None \<Rightarrow> 0 | Some t \<Rightarrow> t);
            fiveMinutesFromNow = clock w + 5 * 60 * 1000
        in if expiresAt \<le> fiveMinutesFromNow then
             (if \<not> truthy (integration.refresh_token i) then
                (Inl (Error (Some ''No refresh token available'')), w)
              else
                (case refreshAccessToken ev cfg (integration.refresh_token i)
                        (client_id i) (client_secret i) w of
                   (Inl err, w1) \<Rightarrow> (Inl err, w1)
                 | (Inr newTokens, w1) \<Rightarrow>
                     (case updateIntegrationTokens ev (integration.uid i)
                             \<lparr>tokens.access_token = token_json.access_token newTokens,
                              tokens.refresh_token =
                                js_or (token_json.refresh_token newTokens) (integration.refresh_token i),
                              tokens.expires_in = token_json.expires_in newTokens\<rparr> w1 of
                        (stored, w2) \<Rightarrow> (Inr (token_json.access_token newTokens), w2))))
           else (Inr (integration.access_token i), w))"

definition buildSyncParams :: "integration \<Rightarrow> world \<Rightarrow> (string \<times> param) list" where
  "buildSyncParams i w =
     (let params = [(''singleEvents'', Str ''true''), (''maxResults'', Str ''250'')] in
      if truthy (sync_token i) then
        params @ [(''syncToken'', Str (template (sync_token i)))]
      else
        let thirtyDaysAgo = clock w - 30 * 24 * 60 * 60 * 1000;
            oneYearFromNow = clock w + 365 * 24 * 60 * 60 * 1000
        in params @ [(''orderBy'', Str ''startTime''),
                     (''timeMin'', Iso thirtyDaysAgo),
                     (''timeMax'', Iso oneYearFromNow)])"

definition fetchGoogleCalendarEvents_attempt ::
  "env \<Rightarrow> string option \<Rightarrow> string \<Rightarrow> (string \<times> param) list \<Rightarrow> nat \<Rightarrow> thrown + events_data" where
  "fetchGoogleCalendarEvents_attempt ev accessToken calendarId syncParams attempt =
     (case fetch_list ev (ListEvents accessToken calendarId syncParams attempt) of
        Inl m \<Rightarrow> Inl (Error (Some m))
      | Inr r \<Rightarrow>
          if \<not> ok r then Inl (api_error r)
          else (case body_json r of Inl m \<Rightarrow> Inl (Error (Some m)) | Inr j \<Rightarrow> Inr j))"

definition fetchGoogleCalendarEvents ::
  "env \<Rightarrow> config \<Rightarrow> string option \<Rightarrow> string \<Rightarrow> (string \<times> param) list \<Rightarrow> world \<Rightarrow>
     (thrown + events_data) \<times> world" where
  "fetchGoogleCalendarEvents ev cfg accessToken calendarId syncParams w =
     (let r = withRetry cfg (fetchGoogleCalendarEvents_attempt ev accessToken calendarId syncParams)
                (retryAttempts cfg)
      in (request_outcome (fst r), after_retry (ListEvents accessToken calendarId syncParams) r w))"

definition createGoogleEvent_attempt ::
  "env \<Rightarrow> string option \<Rightarrow> string \<Rightarrow> event_payload \<Rightarrow> nat \<Rightarrow> thrown + google_event" where
  "createGoogleEvent_attempt ev accessToken calendarId googleEvent attempt =
     (case fetch_insert ev (InsertEvent accessToken calendarId googleEvent attempt) of
        Inl m \<Rightarrow> Inl (Error (Some m))
      | Inr r \<Rightarrow>
          if \<not> ok r then Inl (api_error r)
          else (case body_json r of Inl m \<Rightarrow> Inl (Error (Some m)) | Inr j \<Rightarrow> Inr j))"

text \<open>
  The event that \<^verbatim>\<open>createGoogleEvent\<close> builds from an appointment; \<open>now\<close> is the
  \<^verbatim>\<open>Date.now()\<close> printed into the request id of the meeting link.
\<close>

definition event_of_appointment :: "appointment \<Rightarrow> integration \<Rightarrow> int \<Rightarrow> event_payload" where
  "event_of_appointment a i now =
     \<lparr>event_payload.summary = appointment.title a,
      event_payload.description = appointment.description a,
      start_dateTime = appointment.start_time a,
      end_dateTime = appointment.end_time a,
      timeZone = timezone i,
      event_payload.location = appointment.location a,
      attendee_emails =
        (case appointment.attendees a of None \<Rightarrow> [] | Some atts \<Rightarrow> map email atts),
      conference_requestId =
        (if auto_create_meet i
         then Some (''meet-'' @ show_int now @ ''-'' @ appointment.uid a)
         else None)\<rparr>"

definition createGoogleEvent ::
  "env \<Rightarrow> config \<Rightarrow> appointment \<Rightarrow> integration \<Rightarrow> string option \<Rightarrow> world \<Rightarrow>
     (thrown + google_event) \<times> world" where
  "createGoogleEvent ev cfg a i accessToken w =
     (let googleEvent = event_of_appointment a i (clock w);
          r = withRetry cfg (createGoogleEvent_attempt ev accessToken (calendar_id i) googleEvent)
                (retryAttempts cfg)
      in (request_outcome (fst r),
          after_retry (InsertEvent accessToken (calendar_id i) googleEvent) r w))"

definition parseAttendees :: "attendee list option \<Rightarrow> attendee list" where
  "parseAttendees googleAttendees =
     (case googleAttendees of
        None \<Rightarrow> []
      | Some atts \<Rightarrow>
          map (\<lambda>att. \<lparr>email = email att, displayName = displayName att,
                      responseStatus = responseStatus att\<rparr>) atts)"

definition TypeError_dateTime :: thrown where
  "TypeError_dateTime = Error (Some ''Cannot read properties of undefined (reading 'dateTime')'')"

text \<open>
  \<^verbatim>\<open>upsertAppointmentFromGoogleEvent\<close>. Reading \<^verbatim>\<open>googleEvent.start.dateTime\<close> or
  \<^verbatim>\<open>googleEvent.end.dateTime\<close> of an event without \<^verbatim>\<open>start\<close> or \<^verbatim>\<open>end\<close> throws.
  (The default title is written without its accent.)
\<close>

definition upsertAppointmentFromGoogleEvent ::
  "env \<Rightarrow> uuid \<Rightarrow> google_event \<Rightarrow> world \<Rightarrow> (thrown + unit) \<times> world" where
  "upsertAppointmentFromGoogleEvent ev companyId googleEvent w =
     (case getAppointmentByGoogleEventId ev companyId (google_event.uid googleEvent) w of
        (existingAppointment, w1) \<Rightarrow>
          (let isUpdate = (existingAppointment \<noteq> None);
               eventTitle = template (js_or (google_event.summary googleEvent) (Some ''Evento sem titulo''))
           in case google_event.start googleEvent of
                None \<Rightarrow> (Inl TypeError_dateTime, w1)
              | Some st \<Rightarrow>
                  (case google_event.end googleEvent of
                     None \<Rightarrow> (Inl TypeError_dateTime, w1)
                   | Some en \<Rightarrow>
                       (let appointmentData =
                              \<lparr>appointmentData.company_id = companyId,
                               appointmentData.title = eventTitle,
                               appointmentData.description = google_event.description googleEvent,
                               appointmentData.start_time = js_or (dateTime st) (date st),
                               appointmentData.end_time = js_or (dateTime en) (date en),
                               appointmentData.location = google_event.location googleEvent,
                               appointmentData.google_event_id = google_event.uid googleEvent,
                               appointmentData.google_calendar_id =
                                 template (js_or (organizer_email googleEvent) (Some ''primary'')),
                               appointmentData.google_meet_link = entryPoint_uri googleEvent,
                               appointmentData.attendees =
                                 parseAttendees (google_event.attendees googleEvent),
                               appointmentData.all_day = (\<not> truthy (dateTime st)),
                               appointmentData.status = ''scheduled'',
                               appointmentData.uid = None,
                               appointmentData.created_by = None,
                               appointmentData.created_at = None\<rparr>;
                            appointmentData' =
                              (case existingAppointment of
                                 None \<Rightarrow> appointmentData
                               | Some existing \<Rightarrow>
                                   appointmentData
                                     \<lparr>appointmentData.uid := Some (appointment.uid existing),
                                      appointmentData.created_by := appointment.created_by existing,
                                      appointmentData.created_at :=
                                        Some (appointment.created_at existing)\<rparr>)
                        in case upsertAppointment ev appointmentData' w1 of
                             (Inl err, w2) \<Rightarrow> (Inl err, w2)
                           | (Inr row, w2) \<Rightarrow> (Inr (), w2)))))"

section \<open>The sync service: the three phases\<close>

text \<open>
  \<^verbatim>\<open>processGoogleEvent\<close>: the whole body is inside \<^verbatim>\<open>try\<close>; the \<^verbatim>\<open>catch\<close> logs the
  message and returns.
\<close>

definition processGoogleEvent ::
  "env \<Rightarrow> uuid \<Rightarrow> google_event \<Rightarrow> world \<Rightarrow> (thrown + unit) \<times> world" where
  "processGoogleEvent ev companyId googleEvent w =
     (case (if google_event.status googleEvent = Some ''cancelled'' then
              (case getAppointmentByGoogleEventId ev companyId (google_event.uid googleEvent) w of
                 (Some existingAppointment, w1) \<Rightarrow>
                   (case cancelAppointment ev (appointment.uid existingAppointment) w1 of
                      (done, w2) \<Rightarrow> (Inr (), w2))
               | (None, w1) \<Rightarrow> (Inr (), w1))
            else upsertAppointmentFromGoogleEvent ev companyId googleEvent w) of
        (Inl err, w') \<Rightarrow> (catch_log err, w')
      | (Inr u, w') \<Rightarrow> (Inr (), w'))"

text \<open>The \<^verbatim>\<open>for\<close> loop of \<^verbatim>\<open>syncGoogleEventsToLocal\<close>, counting in \<open>eventsProcessed\<close>.\<close>

fun process_events ::
  "env \<Rightarrow> uuid \<Rightarrow> google_event list \<Rightarrow> nat \<Rightarrow> world \<Rightarrow> (thrown + nat) \<times> world" where
  "process_events ev companyId [] eventsProcessed w = (Inr eventsProcessed, w)"
| "process_events ev companyId (e # es) eventsProcessed w =
     (case processGoogleEvent ev companyId e w of
        (Inl t, w') \<Rightarrow> (Inl t, w')
      | (Inr u, w') \<Rightarrow> process_events ev companyId es (eventsProcessed + 1) w')"

definition syncGoogleEventsToLocal ::
  "env \<Rightarrow> config \<Rightarrow> integration \<Rightarrow> string option \<Rightarrow> world \<Rightarrow> (thrown + nat) \<times> world" where
  "syncGoogleEventsToLocal ev cfg i accessToken w =
     (let syncParams = buildSyncParams i w in
      case fetchGoogleCalendarEvents ev cfg accessToken (calendar_id i) syncParams w of
        (Inl err, w1) \<Rightarrow> (Inl err, w1)
      | (Inr eventsData, w1) \<Rightarrow>
          (case process_events ev (integration.company_id i)
                  (case items eventsData of None \<Rightarrow> [] | Some es \<Rightarrow> es) 0 w1 of
             (Inl err, w2) \<Rightarrow> (Inl err, w2)
           | (Inr eventsProcessed, w2) \<Rightarrow>
               if truthy (nextSyncToken eventsData) then
                 (case updateIntegrationSyncData ev (integration.uid i)
                         (template (nextSyncToken eventsData)) w2 of
                    (done, w3) \<Rightarrow> (Inr eventsProcessed, w3))
               else (Inr eventsProcessed, w2)))"

text \<open>One iteration of the loop of \<^verbatim>\<open>syncLocalAppointmentsToGoogle\<close>, with its \<^verbatim>\<open>catch\<close>.\<close>

definition push_appointment ::
  "env \<Rightarrow> config \<Rightarrow> integration \<Rightarrow> string option \<Rightarrow> appointment \<Rightarrow> world \<Rightarrow>
     (thrown + unit) \<times> world" where
  "push_appointment ev cfg i accessToken a w =
     (case createGoogleEvent ev cfg a i accessToken w of
        (Inl err, w1) \<Rightarrow> (catch_log err, w1)
      | (Inr googleEvent, w1) \<Rightarrow>
          (case updateAppointmentWithGoogleEventId ev (appointment.uid a)
                  (google_event.uid googleEvent) (entryPoint_uri googleEvent) w1 of
             (Inl err, w2) \<Rightarrow> (catch_log err, w2)
           | (Inr u, w2) \<Rightarrow> (Inr (), w2)))"

fun push_appointments ::
  "env \<Rightarrow> config \<Rightarrow> integration \<Rightarrow> string option \<Rightarrow> appointment list \<Rightarrow> world \<Rightarrow>
     (thrown + unit) \<times> world" where
  "push_appointments ev cfg i accessToken [] w = (Inr (), w)"
| "push_appointments ev cfg i accessToken (a # as) w =
     (case push_appointment ev cfg i accessToken a w of
        (Inl t, w') \<Rightarrow> (Inl t, w')
      | (Inr u, w') \<Rightarrow> push_appointments ev cfg i accessToken as w')"

definition syncLocalAppointmentsToGoogle ::
  "env \<Rightarrow> config \<Rightarrow> integration \<Rightarrow> string option \<Rightarrow> world \<Rightarrow> (thrown + unit) \<times> world" where
  "syncLocalAppointmentsToGoogle ev cfg i accessToken w =
     (case (case getUnsyncedLocalAppointments ev (integration.company_id i) (calendar_id i) w of
              (Inl err, w1) \<Rightarrow> (Inl err, w1)
            | (Inr unsyncedAppointments, w1) \<Rightarrow>
                if length unsyncedAppointments = 0 then (Inr (), w1)
                else push_appointments ev cfg i accessToken unsyncedAppointments w1) of
        (Inl err, w') \<Rightarrow> (catch_log err, w')
      | (Inr u, w') \<Rightarrow> (Inr (), w'))"

text \<open>
  One iteration of the loop of \<^verbatim>\<open>cleanupOrphanedAppointments\<close>, with its \<^verbatim>\<open>catch\<close>. A
  \<^verbatim>\<open>null\<close> event id would be printed into the URL as \<^verbatim>\<open>null\<close>.
\<close>

definition sweep_appointment ::
  "env \<Rightarrow> config \<Rightarrow> integration \<Rightarrow> string option \<Rightarrow> appointment \<Rightarrow> world \<Rightarrow>
     (thrown + unit) \<times> world" where
  "sweep_appointment ev cfg i accessToken a w =
     (case checkGoogleEventExists ev cfg
             (case appointment.google_event_id a of None \<Rightarrow> ''null'' | Some g \<Rightarrow> g)
             (calendar_id i) accessToken w of
        (Inl err, w1) \<Rightarrow> (catch_log err, w1)
      | (Inr eventExists, w1) \<Rightarrow>
          if \<not> eventExists then
            (case cancelAppointment ev (appointment.uid a) w1 of (done, w2) \<Rightarrow> (Inr (), w2))
          else (Inr (), w1))"

fun sweep_appointments ::
  "env \<Rightarrow> config \<Rightarrow> integration \<Rightarrow> string option \<Rightarrow> appointment list \<Rightarrow> world \<Rightarrow>
     (thrown + unit) \<times> world" where
  "sweep_appointments ev cfg i accessToken [] w = (Inr (), w)"
| "sweep_appointments ev cfg i accessToken (a # as) w =
     (case sweep_appointment ev cfg i accessToken a w of
        (Inl t, w') \<Rightarrow> (Inl t, w')
      | (Inr u, w') \<Rightarrow> sweep_appointments ev cfg i accessToken as w')"

definition cleanupOrphanedAppointments ::
  "env \<Rightarrow> config \<Rightarrow> integration \<Rightarrow> string option \<Rightarrow> world \<Rightarrow> (thrown + unit) \<times> world" where
  "cleanupOrphanedAppointments ev cfg i accessToken w =
     (let w0 = record_call (MathRandom (integration.uid i)) w;
          shouldRunCleanup = (math_random ev (integration.uid i) < 0.1)
      in if \<not> shouldRunCleanup then (Inr (), w0)
         else
           (case (case getSyncedAppointments ev (integration.company_id i) (calendar_id i) w0 of
                    (Inl err, w1) \<Rightarrow> (Inl err, w1)
                  | (Inr appointmentsWithGoogleId, w1) \<Rightarrow>
                      if length appointmentsWithGoogleId = 0 then (Inr (), w1)
                      else sweep_appointments ev cfg i accessToken appointmentsWithGoogleId w1) of
              (Inl err, w') \<Rightarrow> (catch_log err, w')
            | (Inr u, w') \<Rightarrow> (Inr (), w')))"

section \<open>The sync service: one integration, and the batch\<close>

text \<open>
  \<^verbatim>\<open>syncSingleIntegration\<close>: the token, then the three phases, all inside one \<^verbatim>\<open>try\<close>
  whose \<^verbatim>\<open>catch\<close> logs \<^verbatim>\<open>error.message\<close> and rethrows.
\<close>

definition syncSingleIntegration ::
  "env \<Rightarrow> config \<Rightarrow> integration \<Rightarrow> world \<Rightarrow> (thrown + nat) \<times> world" where
  "syncSingleIntegration ev cfg i w =
     (case ensureValidToken ev cfg i w of
        (Inl err, w1) \<Rightarrow> (Inl (rethrow_logged err), w1)
      | (Inr accessToken, w1) \<Rightarrow>
          (case syncLocalAppointmentsToGoogle ev cfg i accessToken (record_call (Info ''[1/3]'') w1) of
             (Inl err, w2) \<Rightarrow> (Inl (rethrow_logged err), w2)
           | (Inr u, w2) \<Rightarrow>
               (case syncGoogleEventsToLocal ev cfg i accessToken (record_call (Info ''[2/3]'') w2) of
                  (Inl err, w3) \<Rightarrow> (Inl (rethrow_logged err), w3)
                | (Inr eventsProcessed, w3) \<Rightarrow>
                    (case cleanupOrphanedAppointments ev cfg i accessToken
                            (record_call (Info ''[3/3]'') w3) of
                       (Inl err, w4) \<Rightarrow> (Inl (rethrow_logged err), w4)
                     | (Inr u, w4) \<Rightarrow> (Inr eventsProcessed, w4)))))"

text \<open>
  The \<^verbatim>\<open>catch\<close> of the batch loop: \<^verbatim>\<open>logger.syncError\<close> and
  \<^verbatim>\<open>categorizeAndRecordError\<close> read the message, then the integration is marked when
  \<^verbatim>\<open>isPersistentError\<close> holds.
\<close>

definition handle_sync_error :: "env \<Rightarrow> integration \<Rightarrow> thrown \<Rightarrow> world \<Rightarrow> (thrown + unit) \<times> world" where
  "handle_sync_error ev i err w =
     (case err of
        Undefined \<Rightarrow> (Inl TypeError_message, w)
      | Error m \<Rightarrow>
          (case isPersistentError err of
             Inl t \<Rightarrow> (Inl t, w)
           | Inr persistent \<Rightarrow>
               if persistent then
                 (case markIntegrationAsError ev (integration.uid i) m w of
                    (done, w1) \<Rightarrow> (Inr (), w1))
               else (Inr (), w)))"

text \<open>
  The batch loop, with the counters \<open>processedCount\<close>, \<open>successCount\<close> and
  \<open>errorCount\<close>.
\<close>

fun sync_integrations ::
  "env \<Rightarrow> config \<Rightarrow> integration list \<Rightarrow> nat \<times> nat \<times> nat \<Rightarrow> world \<Rightarrow>
     (thrown + nat \<times> nat \<times> nat) \<times> world" where
  "sync_integrations ev cfg [] counts w = (Inr counts, w)"
| "sync_integrations ev cfg (i # rest) (processedCount, successCount, errorCount) w =
     (case syncSingleIntegration ev cfg i w of
        (Inr eventsProcessed, w1) \<Rightarrow>
          sync_integrations ev cfg rest (processedCount + 1, successCount + 1, errorCount) w1
      | (Inl err, w1) \<Rightarrow>
          (case handle_sync_error ev i err w1 of
             (Inl t, w2) \<Rightarrow> (Inl t, w2)
           | (Inr u, w2) \<Rightarrow>
               sync_integrations ev cfg rest (processedCount + 1, successCount, errorCount + 1) w2))"

text \<open>\<^verbatim>\<open>integrations.slice(0, n)\<close>: a negative \<open>n\<close> counts from the end.\<close>

definition slice0 :: "'a list \<Rightarrow> int \<Rightarrow> 'a list" where
  "slice0 xs n = (if 0 \<le> n then take (nat n) xs else take (length xs - nat (- n)) xs)"

text \<open>
  \<^verbatim>\<open>syncAllIntegrations\<close>: the counters of the cycle when the loop ran to its end, and the
  world; the outer \<^verbatim>\<open>catch\<close> logs the message of what escaped the loop.
\<close>

definition syncAllIntegrations ::
  "env \<Rightarrow> config \<Rightarrow> world \<Rightarrow> (thrown + (nat \<times> nat \<times> nat) option) \<times> world" where
  "syncAllIntegrations ev cfg w =
     (case getActiveGoogleCalendarIntegrations ev w of
        (active, w1) \<Rightarrow>
          if length active = 0 then (Inr None, w1)
          else
            (let batchIntegrations = slice0 active (maxCompaniesPerBatch cfg) in
             case sync_integrations ev cfg batchIntegrations (0, 0, 0) w1 of
               (Inl err, w2) \<Rightarrow>
                 (case catch_log err of Inl t \<Rightarrow> (Inl t, w2) | Inr u \<Rightarrow> (Inr None, w2))
             | (Inr counts, w2) \<Rightarrow> (Inr (Some counts), w2)))"

section \<open>Notions used in the statements\<close>



text \<open>The timestamps of the window that lie after \<open>now - W\<close>: those that pruning keeps.\<close>

definition kept :: "RateLimiter \<Rightarrow> int \<Rightarrow> int list" where
  "kept rl now = filter (\<lambda>t. \<not> t \<le> now - windowSizeMs rl) (requests rl)"

text \<open>
  The calls recorded between two worlds, and the statement that the trace only grew
  between them, by calls that all satisfy \<open>P\<close>.
\<close>

definition calls_between :: "world \<Rightarrow> world \<Rightarrow> call list" where
  "calls_between w w' = drop (length (trace w)) (trace w')"

definition calls_only :: "(call \<Rightarrow> bool) \<Rightarrow> world \<Rightarrow> world \<Rightarrow> bool" where
  "calls_only P w w' =
     (take (length (trace w)) (trace w') = trace w \<and> list_all P (calls_between w w'))"

text \<open>The calls that the orphan sweep of an integration may make.\<close>

definition sweep_call :: "integration \<Rightarrow> string option \<Rightarrow> call \<Rightarrow> bool" where
  "sweep_call i tok c =
     (case c of
        GetEvent t cal g n \<Rightarrow> t = tok \<and> cal = calendar_id i
      | CancelAppointment x \<Rightarrow> True
      | GetSyncedAppointments cid cal \<Rightarrow> cid = integration.company_id i \<and> cal = calendar_id i
      | MathRandom x \<Rightarrow> x = integration.uid i
      | _ \<Rightarrow> False)"

text \<open>The first attempt of an existence probe: one for each appointment probed.\<close>

definition first_probe :: "call \<Rightarrow> bool" where
  "first_probe c = (case c of GetEvent t cal g n \<Rightarrow> n = 0 | _ \<Rightarrow> False)"

section \<open>A small world to run the service on\<close>

text \<open>
  One company with one integration, on calendar \<^verbatim>\<open>primary\<close>, and one appointment that was
  synchronised with another calendar; remote endpoints that answer every probe with 200 and
  every listing with an empty page; a store that never fails.
\<close>

definition example_config :: config where
  "example_config = \<lparr>retryAttempts = 3, retryDelay = 1000, syncTimeout = 30000, maxCompaniesPerBatch = 50\<rparr>"

definition example_integration :: integration where
  "example_integration =
     \<lparr>integration.uid = ''i1'', integration.company_id = ''c1'', client_id = ''client'',
      client_secret = ''secret'', integration.access_token = Some ''token'',
      integration.refresh_token = Some ''refresh'', token_expires_at = Some 4000000,
      calendar_id = ''primary'', timezone = Some ''UTC'', auto_create_meet = False,
      sync_enabled = True, sync_token = None, last_sync_at = None,
      integration.status = ''connected'', is_active = True, integration.updated_at = 0\<rparr>"

definition example_appointment :: appointment where
  "example_appointment =
     \<lparr>appointment.uid = ''a1'', appointment.company_id = ''c1'', appointment.title = ''Review'',
      appointment.description = Some ''Quarterly'', appointment.start_time = Some ''2025-01-10T10:00:00Z'',
      appointment.end_time = Some ''2025-01-10T11:00:00Z'', appointment.location = Some ''Room 1'',
      appointment.google_event_id = Some ''g1'', appointment.google_calendar_id = Some ''other'',
      appointment.google_meet_link = None, appointment.attendees = None,
      appointment.all_day = False, appointment.status = ''scheduled'',
      appointment.created_by = Some ''u1'', appointment.created_at = 500,
      appointment.updated_at = 500\<rparr>"

definition quiet_env :: env where
  "quiet_env =
     \<lparr>db_error = (\<lambda>c. None),
      gen_random_uuid = (\<lambda>n. ''row-'' @ show_nat n),
      fetch_list = (\<lambda>c. Inr \<lparr>response.status = 200, body_text = '''',
                               body_json = Inr \<lparr>items = None, nextSyncToken = None\<rparr>\<rparr>),
      fetch_insert = (\<lambda>c. Inl ''fetch failed''),
      fetch_get = (\<lambda>c. Inr \<lparr>response.status = 200, body_text = '''', body_json = Inr ()\<rparr>),
      fetch_token = (\<lambda>c. Inl ''fetch failed''),
      math_random = (\<lambda>x. 1 / 20)\<rparr>"

definition example_world :: world where
  "example_world =
     \<lparr>appointments = [example_appointment], integrations = [example_integration], users = [],
      trace = [], clock = 1000000\<rparr>"

text \<open>The event id that the sweep probes for an appointment.\<close>

definition probed_id :: "appointment \<Rightarrow> string" where
  "probed_id a = (case appointment.google_event_id a of None \<Rightarrow> ''null'' | Some g \<Rightarrow> g)"

text \<open>
  The same world, with every probe answered by 410, or by 500, or not answered at all
  (\<^verbatim>\<open>fetch\<close> rejects); and a configuration that allows no attempt.
\<close>

definition gone_env :: env where
  "gone_env = quiet_env\<lparr>fetch_get :=
     (\<lambda>c. Inr \<lparr>response.status = 410, body_text = ''Gone'', body_json = Inr ()\<rparr>)\<rparr>"

definition failing_env :: env where
  "failing_env = quiet_env\<lparr>fetch_get :=
     (\<lambda>c. Inr \<lparr>response.status = 500, body_text = ''Internal'', body_json = Inr ()\<rparr>)\<rparr>"

definition unreachable_env :: env where
  "unreachable_env = quiet_env\<lparr>fetch_get := (\<lambda>c. Inl ''fetch failed'')\<rparr>"

definition no_attempt_config :: config where
  "no_attempt_config = example_config\<lparr>retryAttempts := 0\<rparr>"

text \<open>A call that, if it posts an event, posts one built from an appointment in \<open>A\<close>.\<close>

definition pushes :: "integration \<Rightarrow> appointment set \<Rightarrow> call \<Rightarrow> bool" where
  "pushes i A c =
     (\<forall>t cal p n. c = InsertEvent t cal p n \<longrightarrow> (\<exists>a\<in>A. \<exists>now. p = event_of_appointment a i now))"

text \<open>A locally authored appointment on the integration's calendar, not yet pushed.\<close>

definition local_appointment :: appointment where
  "local_appointment =
     example_appointment\<lparr>appointment.uid := ''a2'', appointment.google_event_id := None,
                         appointment.google_calendar_id := Some ''primary''\<rparr>"

definition push_world :: world where
  "push_world = example_world\<lparr>appointments := [example_appointment, local_appointment]\<rparr>"

text \<open>
  The \<^verbatim>\<open>appointmentData\<close> that \<^verbatim>\<open>upsertAppointmentFromGoogleEvent\<close> builds from an event
  with the given start and end, then completed from the existing appointment; and the row
  that results when the store applies it to a row.
\<close>

definition event_data :: "uuid \<Rightarrow> google_event \<Rightarrow> event_time \<Rightarrow> event_time \<Rightarrow> appointmentData" where
  "event_data companyId googleEvent st en =
     \<lparr>appointmentData.company_id = companyId,
      appointmentData.title =
        template (js_or (google_event.summary googleEvent) (Some ''Evento sem titulo'')),
      appointmentData.description = google_event.description googleEvent,
      appointmentData.start_time = js_or (dateTime st) (date st),
      appointmentData.end_time = js_or (dateTime en) (date en),
      appointmentData.location = google_event.location googleEvent,
      appointmentData.google_event_id = google_event.uid googleEvent,
      appointmentData.google_calendar_id =
        template (js_or (organizer_email googleEvent) (Some ''primary'')),
      appointmentData.google_meet_link = entryPoint_uri googleEvent,
      appointmentData.attendees = parseAttendees (google_event.attendees googleEvent),
      appointmentData.all_day = (\<not> truthy (dateTime st)),
      appointmentData.status = ''scheduled'',
      appointmentData.uid = None,
      appointmentData.created_by = None,
      appointmentData.created_at = None\<rparr>"

definition existing_data :: "uuid \<Rightarrow> google_event \<Rightarrow> event_time \<Rightarrow> event_time \<Rightarrow> appointment \<Rightarrow> appointmentData" where
  "existing_data companyId googleEvent st en existing =
     (event_data companyId googleEvent st en)
       \<lparr>appointmentData.uid := Some (appointment.uid existing),
        appointmentData.created_by := appointment.created_by existing,
        appointmentData.created_at := Some (appointment.created_at existing)\<rparr>"




definition active_event :: google_event where
  "active_event =
     \<lparr>google_event.uid = ''g1'', google_event.status = Some ''confirmed'',
      google_event.summary = Some ''Review'', google_event.description = None,
      google_event.location = None,
      google_event.start = Some \<lparr>dateTime = Some ''2025-01-11T10:00:00Z'', date = None\<rparr>,
      google_event.end = Some \<lparr>dateTime = Some ''2025-01-11T11:00:00Z'', date = None\<rparr>,
      organizer_email = None, entryPoint_uri = None, google_event.attendees = None\<rparr>"

text \<open>
  \<^verbatim>\<open>new Date(integration.token_expires_at)\<close> in milliseconds (a null column gives the
  epoch), and the tokens that \<^verbatim>\<open>ensureValidToken\<close> hands to \<^verbatim>\<open>updateIntegrationTokens\<close>.
\<close>

definition expiresAt :: "integration \<Rightarrow> int" where
  "expiresAt i = (case token_expires_at i of None \<Rightarrow> 0 | Some t \<Rightarrow> t)"

definition refreshed_tokens :: "integration \<Rightarrow> token_json \<Rightarrow> tokens" where
  "refreshed_tokens i newTokens =
     \<lparr>tokens.access_token = token_json.access_token newTokens,
      tokens.refresh_token = js_or (token_json.refresh_token newTokens) (integration.refresh_token i),
      tokens.expires_in = token_json.expires_in newTokens\<rparr>"

text \<open>
  The integration with a token that expires 4 minutes, or 6 minutes, after the clock of the
  example world; a token endpoint that grants a fresh token for an hour, and one that grants
  it for a lifetime that ends after the last \<^verbatim>\<open>Date\<close>.
\<close>

definition expiring_integration :: integration where
  "expiring_integration = example_integration\<lparr>token_expires_at := Some 1240000\<rparr>"

definition lasting_integration :: integration where
  "lasting_integration = example_integration\<lparr>token_expires_at := Some 1360000\<rparr>"

definition fresh_tokens :: token_json where
  "fresh_tokens =
     \<lparr>token_json.access_token = Some ''fresh'', token_json.refresh_token = None,
      token_json.expires_in = Some 3600, token_json.error = None, error_description = None\<rparr>"

definition refreshing_env :: env where
  "refreshing_env = quiet_env\<lparr>fetch_token :=
     (\<lambda>c. Inr \<lparr>response.status = 200, body_text = '''', body_json = Inr fresh_tokens\<rparr>)\<rparr>"

definition endless_tokens :: token_json where
  "endless_tokens = fresh_tokens\<lparr>token_json.expires_in := Some 9000000000000\<rparr>"

definition endless_env :: env where
  "endless_env = quiet_env\<lparr>fetch_token :=
     (\<lambda>c. Inr \<lparr>response.status = 200, body_text = '''', body_json = Inr endless_tokens\<rparr>)\<rparr>"

text \<open>
  The calls that processing a remote event may make; the calls that write the cursor; the
  items of a listing (\<^verbatim>\<open>eventsData.items || []\<close>); the world after the loop over them.
\<close>

definition pull_call :: "call \<Rightarrow> bool" where
  "pull_call c =
     (case c of
        GetAppointmentByGoogleEventId cid g \<Rightarrow> True
      | CancelAppointment x \<Rightarrow> True
      | UpsertAppointment d \<Rightarrow> True
      | GetCompanyAdminUser cid \<Rightarrow> True
      | _ \<Rightarrow> False)"

definition cursor_persist :: "call \<Rightarrow> bool" where
  "cursor_persist c = (case c of UpdateIntegrationSyncData x t \<Rightarrow> True | _ \<Rightarrow> False)"

definition events_of :: "events_data \<Rightarrow> google_event list" where
  "events_of eventsData = (case items eventsData of None \<Rightarrow> [] | Some es \<Rightarrow> es)"

definition after_events :: "env \<Rightarrow> integration \<Rightarrow> events_data \<Rightarrow> world \<Rightarrow> world" where
  "after_events ev i eventsData w1 =
     snd (process_events ev (integration.company_id i) (events_of eventsData) 0 w1)"

text \<open>
  A listing of two active events with a new cursor, and a store that rejects every upsert.
\<close>

definition pulled_page :: events_data where
  "pulled_page = \<lparr>items = Some [active_event, active_event], nextSyncToken = Some ''next''\<rparr>"

definition pulling_env :: env where
  "pulling_env = quiet_env
     \<lparr>db_error := (\<lambda>c. case c of UpsertAppointment d \<Rightarrow> Some ''database unavailable'' | _ \<Rightarrow> None),
      fetch_list := (\<lambda>c. Inr \<lparr>response.status = 200, body_text = '''', body_json = Inr pulled_page\<rparr>)\<rparr>"

text \<open>
  The same world with a listing endpoint that always answers 500; and the parameters of the
  first, cursorless listing at the clock of the example world.
\<close>

definition broken_env :: env where
  "broken_env = quiet_env\<lparr>fetch_list :=
     (\<lambda>c. Inr \<lparr>response.status = 500, body_text = ''Internal'', body_json = Inl ''Unexpected token''\<rparr>)\<rparr>"

definition first_sync_params :: "(string \<times> param) list" where
  "first_sync_params =
     [(''singleEvents'', Str ''true''), (''maxResults'', Str ''250''),
      (''orderBy'', Str ''startTime''), (''timeMin'', Iso (- 2591000000)),
      (''timeMax'', Iso 31537000000)]"

text \<open>The same world with a listing endpoint that always answers 401.\<close>

definition revoked_env :: env where
  "revoked_env = quiet_env\<lparr>fetch_list :=
     (\<lambda>c. Inr \<lparr>response.status = 401, body_text = ''Unauthorized'',
                body_json = Inl ''Unexpected token''\<rparr>)\<rparr>"

section \<open>Verification\<close>
subsection \<open>withRetry\<close>







subsection \<open>RateLimiter\<close>

lemma request_outcome_simps [simp]:
  "request_outcome (Inr v) = Inr v"
  "request_outcome (Inl (Error m)) = Inl (Error m)"
  "request_outcome (Inl Undefined) = Inl TypeError_message"
  by (simp_all add: request_outcome_def rethrow_logged_def)

lemma request_outcome_defined: "x \<noteq> Inl Undefined \<Longrightarrow> request_outcome x = x"
  by (cases x) (simp_all add: request_outcome_def rethrow_logged_def split: thrown.splits)

lemma request_outcome_not_Undefined: "request_outcome x \<noteq> Inl Undefined"
  by (cases x)
     (simp_all add: request_outcome_def rethrow_logged_def TypeError_message_def split: thrown.splits)

lemma math_min_Min: "xs \<noteq> [] \<Longrightarrow> math_min xs = Finite (Min (set xs))"
  by (cases xs) (simp_all add: math_min_def Min.set_eq_fold [symmetric])

lemma canMakeRequest_enabled:
  "enabled rl \<Longrightarrow> canMakeRequest rl now =
     (if maxRequestsPerMinute rl \<le> int (length (kept rl now))
      then (False, rl\<lparr>requests := kept rl now\<rparr>,
            Some (jsnum_plus (math_min (kept rl now)) (windowSizeMs rl - now)))
      else (True, rl\<lparr>requests := kept rl now\<rparr>, None))"
  by (simp add: canMakeRequest_def kept_def Let_def not_le)

lemma kept_idem: "kept (rl\<lparr>requests := kept rl now\<rparr>) now = kept rl now"
  by (simp add: kept_def)

lemma kept_shrinks:
  assumes "kept rl now \<noteq> []" "Min (set (kept rl now)) + windowSizeMs rl \<le> now'"
  shows "length (kept (rl\<lparr>requests := kept rl now\<rparr>) now') < length (kept rl now)"
proof -
  let ?m = "Min (set (kept rl now))"
  have mem: "?m \<in> set (kept rl now)" using assms(1) by (simp add: Min_in)
  have "\<not> (\<not> ?m \<le> now' - windowSizeMs rl)" using assms(2) by simp
  then have "length (filter (\<lambda>t. \<not> t \<le> now' - windowSizeMs rl) (kept rl now)) < length (kept rl now)"
    using mem length_filter_less by metis
  then show ?thesis by (simp add: kept_def)
qed

lemma wait_terminates:
  assumes "enabled rl" "1 \<le> maxRequestsPerMinute rl" "windowSizeMs rl \<le> 2147483647"
    and "\<forall>t\<in>set (requests rl). t \<le> now" and "length (kept rl now) < fuel"
  shows "\<exists>rl' now' sleeps. waitForAvailability fuel rl now = Some (rl', now', sleeps) \<and>
           fst (canMakeRequest rl' now') \<and>
           (if fst (canMakeRequest rl now) then now' = now \<and> sleeps = []
            else Min (set (kept rl now)) + windowSizeMs rl \<le> now' \<and>
                 (\<exists>rest. sleeps =
                    Finite (max 1000 (Min (set (kept rl now)) + windowSizeMs rl - now)) # rest))"
  using assms
proof (induction fuel arbitrary: rl now)
  case 0
  then show ?case by simp
next
  case (Suc fuel)
  let ?k = "kept rl now"
  let ?rl1 = "rl\<lparr>requests := ?k\<rparr>"
  show ?case
  proof (cases "maxRequestsPerMinute rl \<le> int (length ?k)")
    case False
    then have c: "canMakeRequest rl now = (True, ?rl1, None)"
      using Suc.prems(1) by (simp add: canMakeRequest_enabled)
    have "canMakeRequest ?rl1 now = (True, ?rl1, None)"
      using Suc.prems(1) False by (simp add: canMakeRequest_enabled kept_idem)
    then show ?thesis using c by simp
  next
    case True
    then have ne: "?k \<noteq> []" using Suc.prems(2) by auto
    let ?m = "Min (set ?k)"
    let ?d = "max 1000 (?m + windowSizeMs rl - now)"
    have c: "canMakeRequest rl now =
               (False, ?rl1, Some (jsnum_plus (math_min ?k) (windowSizeMs rl - now)))"
      using Suc.prems(1) True by (simp add: canMakeRequest_enabled)
    have mem: "?m \<in> set ?k" using ne by (simp add: Min_in)
    then have "?m \<in> set (requests rl)" by (simp add: kept_def)
    then have mle: "?m \<le> now" using Suc.prems(4) by blast
    have dl: "setTimeout_delay (Finite ?d) = ?d"
      using mle Suc.prems(3) by (simp add: setTimeout_delay_def)
    have tw: "math_max 1000 (jsnum_plus (math_min (filter (\<lambda>req. req > now - windowSizeMs ?rl1) (requests ?rl1)))
                 (windowSizeMs ?rl1 - now)) = Finite ?d"
    proof -
      have "filter (\<lambda>req. req > now - windowSizeMs ?rl1) (requests ?rl1) = ?k"
        using kept_idem[of rl now] by (simp add: kept_def not_le)
      then show ?thesis using ne
        by (simp add: math_min_Min jsnum_plus_def math_max_def add_diff_eq)
    qed
    let ?now' = "now + ?d"
    have reach: "?m + windowSizeMs rl \<le> ?now'" by simp
    have less: "length (kept ?rl1 ?now') < fuel"
      using kept_shrinks[OF ne reach] Suc.prems(5) by simp
    have past: "\<forall>t\<in>set (requests ?rl1). t \<le> ?now'"
      using Suc.prems(4) by (auto simp: kept_def)
    from Suc.IH[of ?rl1 ?now'] Suc.prems(1,2,3) less past
    obtain rl' now' sleeps where r:
      "waitForAvailability fuel ?rl1 ?now' = Some (rl', now', sleeps)"
      "fst (canMakeRequest rl' now')"
      "if fst (canMakeRequest ?rl1 ?now') then now' = ?now' \<and> sleeps = []
       else Min (set (kept ?rl1 ?now')) + windowSizeMs ?rl1 \<le> now' \<and>
            (\<exists>rest. sleeps = Finite (max 1000 (Min (set (kept ?rl1 ?now')) + windowSizeMs ?rl1 - ?now')) # rest)"
      by auto
    have later: "?now' \<le> now'"
    proof (cases "fst (canMakeRequest ?rl1 ?now')")
      case True then show ?thesis using r(3) by simp
    next
      case False
      then have k2: "kept ?rl1 ?now' \<noteq> []"
        using Suc.prems(1,2) by (auto simp: canMakeRequest_enabled split: if_splits)
      then have "Min (set (kept ?rl1 ?now')) \<in> set (kept ?rl1 ?now')" by (simp add: Min_in)
      then have "\<not> Min (set (kept ?rl1 ?now')) \<le> ?now' - windowSizeMs rl"
        by (simp add: kept_def)
      then show ?thesis using r(3) False by auto
    qed
    have "waitForAvailability (Suc fuel) rl now = Some (rl', now', Finite ?d # sleeps)"
      using c tw dl r(1) by (simp add: Let_def)
    then show ?thesis using c r(2) later reach
      by (auto simp: add_diff_eq)
  qed
qed


lemma wait_fuel_mono_ok:
  "fst (canMakeRequest rl now) \<Longrightarrow>
   waitForAvailability (Suc fuel) rl now = Some (fst (snd (canMakeRequest rl now)), now, [])"
  by (cases "canMakeRequest rl now") simp

lemma wait_step:
  assumes "enabled rl" "1 \<le> maxRequestsPerMinute rl" "windowSizeMs rl \<le> 2147483647"
    and "\<forall>t\<in>set (requests rl). t \<le> now" and "\<not> fst (canMakeRequest rl now)"
  shows "waitForAvailability (Suc fuel) rl now =
           map_option (\<lambda>(rl', now', sleeps).
               (rl', now', Finite (max 1000 (Min (set (kept rl now)) + windowSizeMs rl - now)) # sleeps))
             (waitForAvailability fuel (rl\<lparr>requests := kept rl now\<rparr>)
                (now + max 1000 (Min (set (kept rl now)) + windowSizeMs rl - now)))"
proof -
  let ?k = "kept rl now"
  let ?rl1 = "rl\<lparr>requests := ?k\<rparr>"
  let ?m = "Min (set ?k)"
  let ?d = "max 1000 (?m + windowSizeMs rl - now)"
  have full: "maxRequestsPerMinute rl \<le> int (length ?k)"
    using assms(1,5) by (simp add: canMakeRequest_enabled split: if_splits)
  then have ne: "?k \<noteq> []" using assms(2) by auto
  have c: "canMakeRequest rl now =
             (False, ?rl1, Some (jsnum_plus (math_min ?k) (windowSizeMs rl - now)))"
    using assms(1) full by (simp add: canMakeRequest_enabled)
  have "?m \<in> set ?k" using ne by (simp add: Min_in)
  then have "?m \<in> set (requests rl)" by (simp add: kept_def)
  then have mle: "?m \<le> now" using assms(4) by blast
  have dl: "setTimeout_delay (Finite ?d) = ?d"
    using mle assms(3) by (simp add: setTimeout_delay_def)
  have "filter (\<lambda>req. req > now - windowSizeMs ?rl1) (requests ?rl1) = ?k"
    using kept_idem[of rl now] by (simp add: kept_def not_le)
  then have tw: "math_max 1000 (jsnum_plus (math_min (filter (\<lambda>req. req > now - windowSizeMs ?rl1) (requests ?rl1)))
                 (windowSizeMs ?rl1 - now)) = Finite ?d"
    using ne by (simp add: math_min_Min jsnum_plus_def math_max_def add_diff_eq)
  show ?thesis
    using c tw dl by (simp add: Let_def split: option.splits)
qed

text \<open>
  Claim C8. For an enabled limiter with window \<open>W\<close> and capacity \<open>C\<close>:
  \<^verbatim>\<open>canMakeRequest\<close> at time \<open>now\<close> discards exactly the timestamps \<open>\<le> now - W\<close>, and
  succeeds if and only if fewer than \<open>C\<close> timestamps remain. When it fails (and \<open>C \<ge> 1\<close>)
  the delay it reports is \<open>oldestTimestamp + W - now\<close>. When the recorded timestamps are
  not in the future (and \<open>W\<close> fits a timer), every failed attempt of
  \<^verbatim>\<open>waitForAvailability\<close> is followed by a sleep of \<open>max(1000, oldestTimestamp + W - now)\<close>
  and then the next attempt; the wait ends, and has then lasted at least
  \<open>oldestTimestamp + W - now\<close>. With \<open>C = 2\<close> and \<open>W = 60000\<close>, on an empty window, of three
  requests made at the same time the first two pass at once and the third is blocked for at
  least \<open>oldestTimestamp + 60000 - now\<close> milliseconds.
\<close>

theorem rate_limiter_sliding_window:
  assumes "enabled rl"
  shows "requests (fst (snd (canMakeRequest rl now))) =
           filter (\<lambda>t. \<not> t \<le> now - windowSizeMs rl) (requests rl) \<and>
         (fst (canMakeRequest rl now) \<longleftrightarrow>
            int (length (kept rl now)) < maxRequestsPerMinute rl) \<and>
         (1 \<le> maxRequestsPerMinute rl \<and> \<not> fst (canMakeRequest rl now) \<longrightarrow>
            snd (snd (canMakeRequest rl now)) =
              Some (Finite (Min (set (kept rl now)) + windowSizeMs rl - now))) \<and>
         (1 \<le> maxRequestsPerMinute rl \<and> windowSizeMs rl \<le> 2147483647 \<and>
          (\<forall>t\<in>set (requests rl). t \<le> now) \<and> \<not> fst (canMakeRequest rl now) \<longrightarrow>
            (\<forall>fuel. waitForAvailability (Suc fuel) rl now =
               map_option (\<lambda>(rl', now', sleeps).
                   (rl', now', Finite (max 1000 (Min (set (kept rl now)) + windowSizeMs rl - now)) # sleeps))
                 (waitForAvailability fuel (rl\<lparr>requests := kept rl now\<rparr>)
                    (now + max 1000 (Min (set (kept rl now)) + windowSizeMs rl - now)))) \<and>
            (\<exists>rl' now' sleeps.
               waitForAvailability (Suc (length (requests rl))) rl now = Some (rl', now', sleeps) \<and>
               fst (canMakeRequest rl' now') \<and>
               Min (set (kept rl now)) + windowSizeMs rl - now \<le> now' - now)) \<and>
         (maxRequestsPerMinute rl = 2 \<and> windowSizeMs rl = 60000 \<and> requests rl = [] \<longrightarrow>
            (\<exists>rl1 rl2 rl3 now3 sleeps.
               makeRequest 3 rl now first = Some (request_outcome first, rl1, now, []) \<and>
               makeRequest 3 rl1 now second = Some (request_outcome second, rl2, now, []) \<and>
               makeRequest 3 rl2 now third = Some (request_outcome third, rl3, now3, sleeps) \<and>
               Min (set (requests rl2)) + 60000 - now \<le> now3 - now))"
proof -
  have p1: "requests (fst (snd (canMakeRequest rl now))) =
           filter (\<lambda>t. \<not> t \<le> now - windowSizeMs rl) (requests rl)"
    using assms by (simp add: canMakeRequest_enabled) (simp add: kept_def)
  have p2: "fst (canMakeRequest rl now) \<longleftrightarrow> int (length (kept rl now)) < maxRequestsPerMinute rl"
    using assms by (auto simp: canMakeRequest_enabled)
  have p3: "snd (snd (canMakeRequest rl now)) =
              Some (Finite (Min (set (kept rl now)) + windowSizeMs rl - now))"
    if "1 \<le> maxRequestsPerMinute rl" "\<not> fst (canMakeRequest rl now)"
  proof -
    have "kept rl now \<noteq> []" using that p2 by auto
    then show ?thesis using that p2 assms
      by (simp add: canMakeRequest_enabled math_min_Min jsnum_plus_def add_diff_eq)
  qed
  have p4: "(\<forall>fuel. waitForAvailability (Suc fuel) rl now =
               map_option (\<lambda>(rl', now', sleeps).
                   (rl', now', Finite (max 1000 (Min (set (kept rl now)) + windowSizeMs rl - now)) # sleeps))
                 (waitForAvailability fuel (rl\<lparr>requests := kept rl now\<rparr>)
                    (now + max 1000 (Min (set (kept rl now)) + windowSizeMs rl - now)))) \<and>
            (\<exists>rl' now' sleeps.
               waitForAvailability (Suc (length (requests rl))) rl now = Some (rl', now', sleeps) \<and>
               fst (canMakeRequest rl' now') \<and>
               Min (set (kept rl now)) + windowSizeMs rl - now \<le> now' - now)"
    if h: "1 \<le> maxRequestsPerMinute rl" "windowSizeMs rl \<le> 2147483647"
       "\<forall>t\<in>set (requests rl). t \<le> now" "\<not> fst (canMakeRequest rl now)"
  proof -
    have "length (kept rl now) < Suc (length (requests rl))"
      by (simp add: kept_def less_Suc_eq_le)
    from wait_terminates[OF assms h(1,2,3) this] h(4)
    have "\<exists>rl' now' sleeps.
               waitForAvailability (Suc (length (requests rl))) rl now = Some (rl', now', sleeps) \<and>
               fst (canMakeRequest rl' now') \<and>
               Min (set (kept rl now)) + windowSizeMs rl - now \<le> now' - now"
      by auto
    then show ?thesis using wait_step[OF assms h] by blast
  qed
  have p5: "\<exists>rl1 rl2 rl3 now3 sleeps.
               makeRequest 3 rl now first = Some (request_outcome first, rl1, now, []) \<and>
               makeRequest 3 rl1 now second = Some (request_outcome second, rl2, now, []) \<and>
               makeRequest 3 rl2 now third = Some (request_outcome third, rl3, now3, sleeps) \<and>
               Min (set (requests rl2)) + 60000 - now \<le> now3 - now"
    if h: "maxRequestsPerMinute rl = 2" "windowSizeMs rl = 60000" "requests rl = []"
  proof -
    let ?rl1 = "rl\<lparr>requests := [now]\<rparr>"
    let ?rl2 = "rl\<lparr>requests := [now, now]\<rparr>"
    have m1: "makeRequest 3 rl now first = Some (request_outcome first, ?rl1, now, [])"
      using assms h
      by (simp add: makeRequest_def numeral_3_eq_3 canMakeRequest_enabled kept_def recordRequest_def)
    have m2: "makeRequest 3 ?rl1 now second = Some (request_outcome second, ?rl2, now, [])"
      using assms h
      by (simp add: makeRequest_def numeral_3_eq_3 canMakeRequest_enabled kept_def recordRequest_def)
    have e2: "enabled ?rl2" "1 \<le> maxRequestsPerMinute ?rl2" "windowSizeMs ?rl2 \<le> 2147483647"
      "\<forall>t\<in>set (requests ?rl2). t \<le> now" "length (kept ?rl2 now) < 3"
      using assms h by (simp_all add: kept_def)
    have nc: "\<not> fst (canMakeRequest ?rl2 now)"
      using assms h by (simp add: canMakeRequest_enabled kept_def)
    from wait_terminates[OF e2] nc obtain rl' now' sleeps where
      w: "waitForAvailability 3 ?rl2 now = Some (rl', now', sleeps)"
         "Min (set (kept ?rl2 now)) + windowSizeMs ?rl2 \<le> now'"
      by auto
    have k2: "kept ?rl2 now = [now, now]" using h by (simp add: kept_def)
    have m3: "makeRequest 3 ?rl2 now third =
                Some (request_outcome third, recordRequest rl' now', now', sleeps)"
      using w(1) by (simp add: makeRequest_def)
    have "Min (set (requests ?rl2)) + 60000 - now \<le> now' - now"
      using w(2) k2 h by simp
    then show ?thesis using m1 m2 m3 by blast
  qed
  show ?thesis using p1 p2 p3 p4 p5 by blast
qed


theorem rate_limiter_sliding_window_witness:
  "enabled \<lparr>maxRequestsPerMinute = 2, windowSizeMs = 60000, requests = [1000, 2000, -70000], enabled = True\<rparr> \<and>
   requests (fst (snd (canMakeRequest
      \<lparr>maxRequestsPerMinute = 2, windowSizeMs = 60000, requests = [1000, 2000, -70000], enabled = True\<rparr> 3000)))
     = [1000, 2000] \<and>
   \<not> fst (canMakeRequest
      \<lparr>maxRequestsPerMinute = 2, windowSizeMs = 60000, requests = [1000, 2000, -70000], enabled = True\<rparr> 3000) \<and>
   snd (snd (canMakeRequest
      \<lparr>maxRequestsPerMinute = 2, windowSizeMs = 60000, requests = [1000, 2000, -70000], enabled = True\<rparr> 3000))
     = Some (Finite 58000) \<and>
   waitForAvailability 4
      \<lparr>maxRequestsPerMinute = 2, windowSizeMs = 60000, requests = [1000, 2000, -70000], enabled = True\<rparr> 3000
     = Some (\<lparr>maxRequestsPerMinute = 2, windowSizeMs = 60000, requests = [2000], enabled = True\<rparr>,
             61000, [Finite 58000]) \<and>
   (\<exists>rl1 rl2 rl3 now3 sleeps.
      makeRequest 3 \<lparr>maxRequestsPerMinute = 2, windowSizeMs = 60000, requests = [], enabled = True\<rparr>
        5000 (Inr (1::nat)) = Some (Inr 1, rl1, 5000, []) \<and>
      makeRequest 3 rl1 5000 (Inr (2::nat)) = Some (Inr 2, rl2, 5000, []) \<and>
      makeRequest 3 rl2 5000 (Inr (3::nat)) = Some (Inr 3, rl3, now3, sleeps) \<and>
      Min (set (requests rl2)) + 60000 - 5000 \<le> now3 - 5000)"
proof -
  let ?R = "\<lparr>maxRequestsPerMinute = 2, windowSizeMs = 60000, requests = [1000, 2000, -70000], enabled = True\<rparr>"
  let ?E = "\<lparr>maxRequestsPerMinute = 2, windowSizeMs = 60000, requests = [], enabled = True\<rparr>"
  have en: "enabled ?R" "enabled ?E" by simp_all
  have k: "kept ?R 3000 = [1000, 2000]" by (simp add: kept_def)
  have w: "waitForAvailability 3 (?R\<lparr>requests := [1000, 2000]\<rparr>) 61000 =
             Some (?R\<lparr>requests := [2000]\<rparr>, 61000, [])"
    by (simp add: numeral_3_eq_3 canMakeRequest_enabled kept_def)
  have n4: "(4::nat) = Suc 3" by simp
  note T = rate_limiter_sliding_window [OF en(1), of 3000]
  have c1: "requests (fst (snd (canMakeRequest ?R 3000))) = [1000, 2000]"
    using T by simp
  have c2: "\<not> fst (canMakeRequest ?R 3000)"
    using T by (simp add: k)
  have c3: "snd (snd (canMakeRequest ?R 3000)) = Some (Finite 58000)"
    using T c2 by (simp add: k)
  have pre: "1 \<le> maxRequestsPerMinute ?R \<and> windowSizeMs ?R \<le> 2147483647 \<and>
             (\<forall>t\<in>set (requests ?R). t \<le> 3000) \<and> \<not> fst (canMakeRequest ?R 3000)"
    using c2 by simp
  from T pre have "\<forall>fuel. waitForAvailability (Suc fuel) ?R 3000 =
      map_option (\<lambda>(rl', now', sleeps).
          (rl', now', Finite (max 1000 (Min (set (kept ?R 3000)) + windowSizeMs ?R - 3000)) # sleeps))
        (waitForAvailability fuel (?R\<lparr>requests := kept ?R 3000\<rparr>)
           (3000 + max 1000 (Min (set (kept ?R 3000)) + windowSizeMs ?R - 3000)))"
    by blast
  then have "waitForAvailability (Suc 3) ?R 3000 =
      map_option (\<lambda>(rl', now', sleeps).
          (rl', now', Finite (max 1000 (Min (set (kept ?R 3000)) + windowSizeMs ?R - 3000)) # sleeps))
        (waitForAvailability 3 (?R\<lparr>requests := kept ?R 3000\<rparr>)
           (3000 + max 1000 (Min (set (kept ?R 3000)) + windowSizeMs ?R - 3000)))"
    by blast
  then have c4: "waitForAvailability 4 ?R 3000 =
      Some (\<lparr>maxRequestsPerMinute = 2, windowSizeMs = 60000, requests = [2000], enabled = True\<rparr>,
            61000, [Finite 58000])"
    using w unfolding n4 k by (simp del: waitForAvailability.simps)
  have c5: "\<exists>rl1 rl2 rl3 now3 sleeps.
      makeRequest 3 ?E 5000 (Inr (1::nat)) = Some (Inr 1, rl1, 5000, []) \<and>
      makeRequest 3 rl1 5000 (Inr (2::nat)) = Some (Inr 2, rl2, 5000, []) \<and>
      makeRequest 3 rl2 5000 (Inr (3::nat)) = Some (Inr 3, rl3, now3, sleeps) \<and>
      Min (set (requests rl2)) + 60000 - 5000 \<le> now3 - 5000"
  proof -
    have "maxRequestsPerMinute ?E = 2 \<and> windowSizeMs ?E = 60000 \<and> requests ?E = []"
      by simp
    with rate_limiter_sliding_window [OF en(2), of 5000 "Inr (1::nat)" "Inr (2::nat)" "Inr (3::nat)",
        unfolded request_outcome_simps]
    show ?thesis by blast
  qed
  show ?thesis
    using en(1) c1 c2 c3 c4 c5 by blast
qed

subsection \<open>Traces\<close>

lemma calls_onlyI: "trace w' = trace w @ new \<Longrightarrow> list_all P new \<Longrightarrow> calls_only P w w'"
  by (simp add: calls_only_def calls_between_def)

lemma calls_only_trace: "calls_only P w w' \<Longrightarrow> trace w' = trace w @ calls_between w w'"
  unfolding calls_only_def calls_between_def by (metis append_take_drop_id)

lemma calls_only_all: "calls_only P w w' \<Longrightarrow> list_all P (calls_between w w')"
  by (simp add: calls_only_def)

lemma calls_only_refl: "trace w' = trace w \<Longrightarrow> calls_only P w w'"
  by (simp add: calls_only_def calls_between_def)

lemma calls_between_trans:
  "calls_only P w w1 \<Longrightarrow> calls_only Q w1 w2 \<Longrightarrow>
   calls_between w w2 = calls_between w w1 @ calls_between w1 w2"
proof -
  assume a: "calls_only P w w1" "calls_only Q w1 w2"
  have e: "trace w2 = trace w @ (calls_between w w1 @ calls_between w1 w2)"
    using calls_only_trace[OF a(1)] calls_only_trace[OF a(2)] by simp
  show ?thesis
    unfolding calls_between_def[of w w2] e by simp
qed

lemma calls_only_trans:
  assumes "calls_only P w w1" "calls_only P w1 w2"
  shows "calls_only P w w2"
proof -
  have "trace w2 = trace w @ (calls_between w w1 @ calls_between w1 w2)"
    using calls_only_trace[OF assms(1)] calls_only_trace[OF assms(2)] by simp
  moreover have "list_all P (calls_between w w1 @ calls_between w1 w2)"
    using calls_only_all[OF assms(1)] calls_only_all[OF assms(2)] by simp
  ultimately show ?thesis by (rule calls_onlyI)
qed

lemma calls_only_mono: "calls_only P w w' \<Longrightarrow> (\<And>c. P c \<Longrightarrow> Q c) \<Longrightarrow> calls_only Q w w'"
  unfolding calls_only_def by (auto simp: list_all_iff)

lemma calls_only_record: "P c \<Longrightarrow> calls_only P w (record_call c w)"
  by (rule calls_onlyI[where new = "[c]"]) (simp_all add: record_call_def)

lemma calls_only_after_retry:
  "(\<And>n. P (request n)) \<Longrightarrow> calls_only P w (after_retry request r w)"
  by (cases r, rule calls_onlyI[where new = "map request [0..<snd (snd r)]"])
     (auto simp: after_retry_def list_all_iff)

lemma calls_cancelAppointment:
  "calls_only (\<lambda>c. c = CancelAppointment x) w (snd (cancelAppointment ev x w))"
  by (rule calls_onlyI[where new = "[CancelAppointment x]"])
     (simp_all add: cancelAppointment_def record_call_def Let_def split: option.splits)

lemma calls_getSyncedAppointments:
  "calls_only (\<lambda>c. c = GetSyncedAppointments cid cal) w (snd (getSyncedAppointments ev cid cal w))"
  by (rule calls_onlyI[where new = "[GetSyncedAppointments cid cal]"])
     (simp_all add: getSyncedAppointments_def record_call_def Let_def split: option.splits)

lemma calls_checkGoogleEventExists:
  "calls_only (\<lambda>c. \<exists>n. c = GetEvent tok cal g n) w (snd (checkGoogleEventExists ev cfg g cal tok w))"
  unfolding checkGoogleEventExists_def Let_def snd_conv
  by (rule calls_only_after_retry) blast

lemma calls_sweep_appointment:
  "calls_only (sweep_call i tok) w (snd (sweep_appointment ev cfg i tok a w))"
proof -
  let ?g = "case appointment.google_event_id a of None \<Rightarrow> ''null'' | Some g \<Rightarrow> g"
  let ?w1 = "snd (checkGoogleEventExists ev cfg ?g (calendar_id i) tok w)"
  have 1: "calls_only (sweep_call i tok) w ?w1"
    by (rule calls_only_mono[OF calls_checkGoogleEventExists]) (auto simp: sweep_call_def)
  have 2: "calls_only (sweep_call i tok) ?w1 (snd (cancelAppointment ev (appointment.uid a) ?w1))"
    by (rule calls_only_mono[OF calls_cancelAppointment]) (auto simp: sweep_call_def)
  show ?thesis
    using 1 calls_only_trans[OF 1 2]
    by (auto simp: sweep_appointment_def split: prod.splits sum.splits)
qed

lemma calls_sweep_appointments:
  "calls_only (sweep_call i tok) w (snd (sweep_appointments ev cfg i tok as w))"
proof (induction as arbitrary: w)
  case Nil
  show ?case by (simp add: calls_only_refl)
next
  case (Cons a as)
  show ?case
    using calls_sweep_appointment[of i tok w ev cfg a]
          calls_only_trans[OF calls_sweep_appointment[of i tok w ev cfg a] Cons.IH]
    by (auto split: prod.splits sum.splits)
qed

lemma calls_cleanupOrphanedAppointments:
  "calls_only (sweep_call i tok) w (snd (cleanupOrphanedAppointments ev cfg i tok w))"
proof -
  let ?w0 = "record_call (MathRandom (integration.uid i)) w"
  let ?w1 = "snd (getSyncedAppointments ev (integration.company_id i) (calendar_id i) ?w0)"
  have 0: "calls_only (sweep_call i tok) w ?w0"
    by (rule calls_only_record) (simp add: sweep_call_def)
  have "calls_only (sweep_call i tok) ?w0 ?w1"
    by (rule calls_only_mono[OF calls_getSyncedAppointments]) (auto simp: sweep_call_def)
  then have 1: "calls_only (sweep_call i tok) w ?w1"
    by (rule calls_only_trans[OF 0])
  have 2: "calls_only (sweep_call i tok) w (snd (sweep_appointments ev cfg i tok as ?w1))" for as
    by (rule calls_only_trans[OF 1 calls_sweep_appointments])
  show ?thesis
    using 0 1 2
    by (auto simp: cleanupOrphanedAppointments_def Let_def split: prod.splits sum.splits)
       (metis snd_conv)+
qed

lemma calls_between_record [simp]: "calls_between w (record_call c w) = [c]"
  by (simp add: calls_between_def record_call_def)

lemma calls_between_after_retry [simp]:
  "calls_between w (after_retry request r w) = map request [0..<snd (snd r)]"
  by (cases r) (simp add: calls_between_def after_retry_def)

lemma calls_between_same: "trace w' = trace w \<Longrightarrow> calls_between w w' = []"
  by (simp add: calls_between_def)

lemma first_attempt_once: "length (filter (\<lambda>k. k = 0) [0..<n]) \<le> 1"
  by (induction n) auto

lemma probes_checkGoogleEventExists:
  "length (filter first_probe (calls_between w (snd (checkGoogleEventExists ev cfg g cal tok w)))) \<le> 1"
proof -
  have "filter first_probe (map (GetEvent tok cal g) [0..<n]) =
          map (GetEvent tok cal g) (filter (\<lambda>k. k = 0) [0..<n])" for n
    by (simp add: filter_map comp_def first_probe_def)
  then show ?thesis
    using first_attempt_once by (simp add: checkGoogleEventExists_def Let_def)
qed

lemma calls_between_cancelAppointment [simp]:
  "calls_between w (snd (cancelAppointment ev x w)) = [CancelAppointment x]"
  by (simp add: calls_between_def cancelAppointment_def record_call_def Let_def split: option.splits)

lemma calls_between_getSyncedAppointments [simp]:
  "calls_between w (snd (getSyncedAppointments ev cid cal w)) = [GetSyncedAppointments cid cal]"
  by (simp add: calls_between_def getSyncedAppointments_def record_call_def Let_def split: option.splits)

lemma probes_sweep_appointment:
  "length (filter first_probe (calls_between w (snd (sweep_appointment ev cfg i tok a w)))) \<le> 1"
proof -
  let ?g = "case appointment.google_event_id a of None \<Rightarrow> ''null'' | Some g \<Rightarrow> g"
  let ?w1 = "snd (checkGoogleEventExists ev cfg ?g (calendar_id i) tok w)"
  let ?w2 = "snd (cancelAppointment ev (appointment.uid a) ?w1)"
  have "calls_between w ?w2 = calls_between w ?w1 @ calls_between ?w1 ?w2"
    by (rule calls_between_trans[OF calls_checkGoogleEventExists calls_cancelAppointment])
  then have "length (filter first_probe (calls_between w ?w2)) \<le> 1"
    using probes_checkGoogleEventExists[of w ev cfg ?g "calendar_id i" tok]
    by (simp add: first_probe_def)
  then show ?thesis
    using probes_checkGoogleEventExists[of w ev cfg ?g "calendar_id i" tok]
    by (auto simp: sweep_appointment_def split: prod.splits sum.splits)
qed

lemma probes_sweep_appointments:
  "length (filter first_probe (calls_between w (snd (sweep_appointments ev cfg i tok as w))))
     \<le> length as"
proof (induction as arbitrary: w)
  case Nil
  show ?case by (simp add: calls_between_same)
next
  case (Cons a as)
  let ?w1 = "snd (sweep_appointment ev cfg i tok a w)"
  let ?w2 = "snd (sweep_appointments ev cfg i tok as ?w1)"
  have "calls_between w ?w2 = calls_between w ?w1 @ calls_between ?w1 ?w2"
    by (rule calls_between_trans[OF calls_sweep_appointment calls_sweep_appointments])
  then have 2: "length (filter first_probe (calls_between w ?w2)) \<le> Suc (length as)"
    using probes_sweep_appointment[of w ev cfg i tok a] Cons.IH[of ?w1] by simp
  have 1: "length (filter first_probe (calls_between w ?w1)) \<le> Suc (length as)"
    using probes_sweep_appointment[of w ev cfg i tok a] by simp
  show ?case
    using 1 2 by (auto split: prod.splits sum.splits)
qed

lemma length_getSyncedAppointments:
  "fst (getSyncedAppointments ev cid cal w) = Inr rows \<Longrightarrow> length rows \<le> 100"
  by (auto simp: getSyncedAppointments_def Let_def split: option.splits)

lemma probes_cleanupOrphanedAppointments:
  "length (filter first_probe (calls_between w (snd (cleanupOrphanedAppointments ev cfg i tok w))))
     \<le> 100"
proof -
  let ?w0 = "record_call (MathRandom (integration.uid i)) w"
  let ?r = "getSyncedAppointments ev (integration.company_id i) (calendar_id i) ?w0"
  let ?w1 = "snd ?r"
  have 0: "calls_only (sweep_call i tok) w ?w0"
    by (rule calls_only_record) (simp add: sweep_call_def)
  have b1: "calls_between w ?w1 = calls_between w ?w0 @ calls_between ?w0 ?w1"
    by (rule calls_between_trans[OF 0 calls_getSyncedAppointments])
  then have c1: "calls_only (\<lambda>c. True) w ?w1"
    using calls_only_trans[OF calls_only_mono[OF 0] calls_only_mono[OF calls_getSyncedAppointments]]
    by simp
  have p1: "filter first_probe (calls_between w ?w1) = []"
    using b1 by (simp add: first_probe_def)
  have p2: "length (filter first_probe (calls_between w (snd (sweep_appointments ev cfg i tok rows ?w1))))
              \<le> 100" if "fst ?r = Inr rows" for rows
  proof -
    have "calls_between w (snd (sweep_appointments ev cfg i tok rows ?w1)) =
            calls_between w ?w1 @ calls_between ?w1 (snd (sweep_appointments ev cfg i tok rows ?w1))"
      by (rule calls_between_trans[OF c1 calls_sweep_appointments])
    then show ?thesis
      using p1 probes_sweep_appointments[of ?w1 ev cfg i tok rows]
            length_getSyncedAppointments[OF that] by simp
  qed
  show ?thesis
    using p1 p2
    by (auto simp: cleanupOrphanedAppointments_def Let_def first_probe_def
             split: prod.splits sum.splits)
qed

subsection \<open>The orphan sweep and its candidates\<close>

lemma take_drop_sorted:
  assumes "sorted (map f xs)" "a \<in> set (take n xs)" "b \<in> set (drop n xs)"
  shows "f a \<le> (f b :: int)"
proof -
  have "sorted (map f (take n xs) @ map f (drop n xs))"
    using assms(1) by (metis append_take_drop_id map_append)
  then show ?thesis using assms(2,3) by (auto simp: sorted_append)
qed

lemma getSyncedAppointments_rows:
  assumes "fst (getSyncedAppointments ev cid cal w) = Inr rows"
  shows "rows = take 100 (sort_key (\<lambda>a. - appointment.created_at a)
                        (filter (synced cid) (appointments w)))"
  using assms
  by (auto simp: getSyncedAppointments_def Let_def record_call_def split: option.splits)

lemma sweep_ignores_calendar:
  "sweep_appointment ev cfg i tok (a\<lparr>appointment.google_calendar_id := other\<rparr>) w =
   sweep_appointment ev cfg i tok a w"
  by (simp add: sweep_appointment_def split: prod.splits sum.splits)

lemma cleanup_sweeps_rows:
  assumes "math_random ev (integration.uid i) < 0.1"
    and "getSyncedAppointments ev (integration.company_id i) (calendar_id i)
           (record_call (MathRandom (integration.uid i)) w) = (Inr rows, w1)"
  shows "snd (cleanupOrphanedAppointments ev cfg i tok w) =
         snd (sweep_appointments ev cfg i tok rows w1)"
  using assms
  by (cases rows)
     (auto simp: cleanupOrphanedAppointments_def Let_def split: prod.splits sum.splits)

text \<open>
  Claim C10. \<^verbatim>\<open>getSyncedAppointments\<close> does not use its calendar argument: whenever the
  query succeeds it returns the first 100 rows, in descending order of creation, of the
  company's non-cancelled appointments that carry an external id, whatever their calendar;
  so it returns at most 100 rows, each of them such an appointment, and none that it leaves
  out is newer than one it returns. The sweep of an appointment does not look at the
  appointment's calendar either: a sweep that runs probes exactly the rows returned, it starts
  at most 100 probes, and every probe it sends addresses the calendar of the integration
  being synchronised.
\<close>

theorem getSyncedAppointments_ignores_calendar:
  "(db_error ev (GetSyncedAppointments cid cal) = None \<longrightarrow>
      fst (getSyncedAppointments ev cid cal w) =
        Inr (take 100 (sort_key (\<lambda>a. - appointment.created_at a)
                         (filter (synced cid) (appointments w))))) \<and>
   (\<forall>rows. fst (getSyncedAppointments ev cid cal w) = Inr rows \<longrightarrow>
      length rows \<le> 100 \<and>
      (\<forall>a\<in>set rows. a \<in> set (appointments w) \<and> appointment.company_id a = cid \<and>
         appointment.google_event_id a \<noteq> None \<and> appointment.status a \<noteq> ''cancelled'') \<and>
      (\<forall>a\<in>set rows. \<forall>b\<in>set (appointments w).
         synced cid b \<and> b \<notin> set rows \<longrightarrow> appointment.created_at b \<le> appointment.created_at a)) \<and>
   synced cid (a\<lparr>appointment.google_calendar_id := other\<rparr>) = synced cid a \<and>
   sweep_appointment ev cfg i tok (a\<lparr>appointment.google_calendar_id := other\<rparr>) w =
     sweep_appointment ev cfg i tok a w \<and>
   (\<forall>rows w1. math_random ev (integration.uid i) < 0.1 \<and>
      getSyncedAppointments ev (integration.company_id i) (calendar_id i)
        (record_call (MathRandom (integration.uid i)) w) = (Inr rows, w1) \<longrightarrow>
      snd (cleanupOrphanedAppointments ev cfg i tok w) =
        snd (sweep_appointments ev cfg i tok rows w1)) \<and>
   length (filter first_probe
             (calls_between w (snd (cleanupOrphanedAppointments ev cfg i tok w)))) \<le> 100 \<and>
   (\<forall>c\<in>set (calls_between w (snd (cleanupOrphanedAppointments ev cfg i tok w))).
      \<forall>t cal' g n. c = GetEvent t cal' g n \<longrightarrow> cal' = calendar_id i)"
proof -
  let ?sorted = "sort_key (\<lambda>a. - appointment.created_at a) (filter (synced cid) (appointments w))"
  have p1: "fst (getSyncedAppointments ev cid cal w) = Inr (take 100 ?sorted)"
    if "db_error ev (GetSyncedAppointments cid cal) = None"
    using that by (simp add: getSyncedAppointments_def Let_def record_call_def)
  have p2: "length rows \<le> 100 \<and>
      (\<forall>a\<in>set rows. a \<in> set (appointments w) \<and> appointment.company_id a = cid \<and>
         appointment.google_event_id a \<noteq> None \<and> appointment.status a \<noteq> ''cancelled'') \<and>
      (\<forall>a\<in>set rows. \<forall>b\<in>set (appointments w).
         synced cid b \<and> b \<notin> set rows \<longrightarrow> appointment.created_at b \<le> appointment.created_at a)"
    if h: "fst (getSyncedAppointments ev cid cal w) = Inr rows" for rows
  proof -
    have r: "rows = take 100 ?sorted" by (rule getSyncedAppointments_rows[OF h])
    have sub: "set rows \<subseteq> set ?sorted" unfolding r by (rule set_take_subset)
    have mem: "a \<in> set (appointments w) \<and> synced cid a" if "a \<in> set rows" for a
      using that sub by auto
    have newer: "appointment.created_at b \<le> appointment.created_at a"
      if "a \<in> set rows" "b \<in> set (appointments w)" "synced cid b" "b \<notin> set rows" for a b
    proof -
      have "b \<in> set ?sorted" using that(2,3) by simp
      then have "b \<in> set (take 100 ?sorted) \<union> set (drop 100 ?sorted)"
        by (metis append_take_drop_id set_append)
      then have "b \<in> set (drop 100 ?sorted)" using that(4) r by simp
      moreover have "sorted (map (\<lambda>a. - appointment.created_at a) ?sorted)"
        by (rule sorted_sort_key)
      ultimately have "- appointment.created_at a \<le> - appointment.created_at b"
        using take_drop_sorted[where f = "\<lambda>a. - appointment.created_at a" and xs = ?sorted
                and n = 100 and a = a and b = b] that(1) r by simp
      then show ?thesis by simp
    qed
    show ?thesis
      using length_getSyncedAppointments[OF h] mem newer by (auto simp: synced_def)
  qed
  have p3: "synced cid (a\<lparr>appointment.google_calendar_id := other\<rparr>) = synced cid a"
    by (simp add: synced_def)
  have p6: "\<forall>c\<in>set (calls_between w (snd (cleanupOrphanedAppointments ev cfg i tok w))).
      \<forall>t cal' g n. c = GetEvent t cal' g n \<longrightarrow> cal' = calendar_id i"
    using calls_only_all[OF calls_cleanupOrphanedAppointments[of i tok w ev cfg]]
    by (auto simp: list_all_iff sweep_call_def)
  have c1: "db_error ev (GetSyncedAppointments cid cal) = None \<longrightarrow>
      fst (getSyncedAppointments ev cid cal w) = Inr (take 100 ?sorted)"
    using p1 by blast
  have c2: "\<forall>rows. fst (getSyncedAppointments ev cid cal w) = Inr rows \<longrightarrow>
      length rows \<le> 100 \<and>
      (\<forall>a\<in>set rows. a \<in> set (appointments w) \<and> appointment.company_id a = cid \<and>
         appointment.google_event_id a \<noteq> None \<and> appointment.status a \<noteq> ''cancelled'') \<and>
      (\<forall>a\<in>set rows. \<forall>b\<in>set (appointments w).
         synced cid b \<and> b \<notin> set rows \<longrightarrow> appointment.created_at b \<le> appointment.created_at a)"
    using p2 by blast
  have c5: "\<forall>rows w1. math_random ev (integration.uid i) < 0.1 \<and>
      getSyncedAppointments ev (integration.company_id i) (calendar_id i)
        (record_call (MathRandom (integration.uid i)) w) = (Inr rows, w1) \<longrightarrow>
      snd (cleanupOrphanedAppointments ev cfg i tok w) =
        snd (sweep_appointments ev cfg i tok rows w1)"
    using cleanup_sweeps_rows by blast
  show ?thesis
    by (intro conjI c1 c2 p3 sweep_ignores_calendar c5 probes_cleanupOrphanedAppointments p6)
qed

lemmas example_defs = example_config_def example_integration_def example_appointment_def
  quiet_env_def example_world_def

lemmas store_defs = record_call_def getSyncedAppointments_def cancelAppointment_def
  synced_def Let_def

lemmas retry_defs = withRetry_def withRetry_loop.simps after_retry_def isPersistentError_def
  lowered_message_def toLowerCase_def lower_char_def setTimeout_delay_def

lemma record_call_simps [simp]:
  "trace (record_call c w) = trace w @ [c]"
  "clock (record_call c w) = clock w"
  "appointments (record_call c w) = appointments w"
  "integrations (record_call c w) = integrations w"
  "users (record_call c w) = users w"
  by (simp_all add: record_call_def)

lemma ex_rows:
  "getSyncedAppointments quiet_env ''c1'' ''primary''
     (record_call (MathRandom ''i1'') example_world) =
   (Inr [example_appointment], record_call (GetSyncedAppointments ''c1'' ''primary'')
       (record_call (MathRandom ''i1'') example_world))"
  by (simp add: getSyncedAppointments_def synced_def Let_def example_defs)

lemma ex_probe:
  "checkGoogleEventExists quiet_env example_config ''g1'' ''primary'' (Some ''token'') w =
     (Inr True, w\<lparr>trace := trace w @ [GetEvent (Some ''token'') ''primary'' ''g1'' 0]\<rparr>)"
  by (simp add: example_defs checkGoogleEventExists_def checkGoogleEventExists_attempt_def
        ok_def retry_defs)

lemma ex_cleanup:
  "calls_between example_world
     (snd (cleanupOrphanedAppointments quiet_env example_config example_integration
             (Some ''token'') example_world)) =
   [MathRandom ''i1'', GetSyncedAppointments ''c1'' ''primary'',
    GetEvent (Some ''token'') ''primary'' ''g1'' 0]"
proof -
  have i: "integration.uid example_integration = ''i1''"
    "integration.company_id example_integration = ''c1''"
    "calendar_id example_integration = ''primary''"
    "math_random quiet_env ''i1'' = 1 / 20"
    "appointment.google_event_id example_appointment = Some ''g1''"
    by (simp_all add: example_defs)
  show ?thesis
    by (simp add: cleanupOrphanedAppointments_def i ex_rows sweep_appointment_def ex_probe
          Let_def calls_between_def)
qed

theorem getSyncedAppointments_ignores_calendar_witness:
  "fst (getSyncedAppointments quiet_env ''c1'' ''primary'' example_world) = Inr [example_appointment] \<and>
   fst (getSyncedAppointments quiet_env ''c1'' ''another'' example_world) = Inr [example_appointment] \<and>
   appointment.google_calendar_id example_appointment = Some ''other'' \<and>
   calendar_id example_integration = ''primary'' \<and>
   calls_between example_world
     (snd (cleanupOrphanedAppointments quiet_env example_config example_integration
             (Some ''token'') example_world)) =
     [MathRandom ''i1'', GetSyncedAppointments ''c1'' ''primary'',
      GetEvent (Some ''token'') ''primary'' ''g1'' 0] \<and>
   length [example_appointment] \<le> 100"
proof -
  have db: "db_error quiet_env c = None" for c by (simp add: quiet_env_def)
  have sorted: "take 100 (sort_key (\<lambda>a. - appointment.created_at a)
                  (filter (synced ''c1'') (appointments example_world))) = [example_appointment]"
    by (simp add: example_defs synced_def)
  have r1: "fst (getSyncedAppointments quiet_env ''c1'' ''primary'' example_world) =
              Inr [example_appointment]"
    using getSyncedAppointments_ignores_calendar
            [where ev = quiet_env and cid = "''c1''" and cal = "''primary''" and w = example_world] db sorted
    by simp
  have r2: "fst (getSyncedAppointments quiet_env ''c1'' ''another'' example_world) =
              Inr [example_appointment]"
    using getSyncedAppointments_ignores_calendar
            [where ev = quiet_env and cid = "''c1''" and cal = "''another''" and w = example_world] db sorted
    by simp
  have r3: "appointment.google_calendar_id example_appointment = Some ''other''"
    "calendar_id example_integration = ''primary''"
    by (simp_all add: example_defs)
  show ?thesis
    using r1 r2 r3 ex_cleanup by simp
qed

subsection \<open>The existence probe and the sweep of one appointment\<close>

lemma isPersistentError_Error: "\<exists>b. isPersistentError (Error m) = Inr b"
  by (cases m) (auto simp: isPersistentError_def lowered_message_def)

lemma withRetry_loop_last:
  shows "\<forall>n. fn n \<noteq> Inl Undefined \<Longrightarrow> 0 \<le> i \<Longrightarrow> i < maxRetries \<Longrightarrow>
         \<exists>k. nat i \<le> k \<and> int k < maxRetries \<and>
             withRetry_loop d fn maxRetries i le =
               (fn k, map (\<lambda>j. d * (int j + 1)) [nat i..<k], Suc (k - nat i))"
proof (induction d fn maxRetries i le rule: withRetry_loop.induct)
  case (1 delay fn maxRetries i lastError)
  note fn = "1.prems"(1)
  show ?case
  proof (cases "fn (nat i)")
    case (Inr v)
    then have "withRetry_loop delay fn maxRetries i lastError = (fn (nat i), [], Suc 0)"
      using "1.prems" by (subst withRetry_loop.simps) simp
    then show ?thesis using "1.prems" by (intro exI[of _ "nat i"]) simp
  next
    case (Inl e)
    have "e \<noteq> Undefined" using fn Inl by metis
    then obtain m where e: "e = Error m" by (cases e) auto
    obtain b where b: "isPersistentError e = Inr b"
      using isPersistentError_Error e by blast
    show ?thesis
    proof (cases "b \<or> i = maxRetries - 1")
      case True
      then have "withRetry_loop delay fn maxRetries i lastError = (fn (nat i), [], Suc 0)"
        using "1.prems" Inl b by (subst withRetry_loop.simps) auto
      then show ?thesis using "1.prems" by (intro exI[of _ "nat i"]) simp
    next
      case False
      then have lt: "i + 1 < maxRetries" using "1.prems" by simp
      from "1.IH"[OF _ Inl b _ fn] False lt "1.prems"
      obtain k where k: "nat (i + 1) \<le> k" "int k < maxRetries"
        "withRetry_loop delay fn maxRetries (i + 1) e =
           (fn k, map (\<lambda>j. delay * (int j + 1)) [nat (i + 1)..<k], Suc (k - nat (i + 1)))"
        by auto
      have ni: "nat (i + 1) = Suc (nat i)" using "1.prems" by simp
      have up: "[nat i..<k] = nat i # [Suc (nat i)..<k]"
        using k(1) ni by (simp add: upt_conv_Cons)
      have "withRetry_loop delay fn maxRetries i lastError =
              (fn k, map (\<lambda>j. delay * (int j + 1)) [nat i..<k], Suc (k - nat i))"
        apply (subst withRetry_loop.simps)
        using "1.prems" Inl b False k(1,3) ni up by (simp add: Suc_diff_le)
      then show ?thesis using k(1,2) ni by (intro exI[of _ k]) simp
    qed
  qed
qed

lemma withRetry_last:
  assumes "\<forall>n. fn n \<noteq> Inl Undefined" "0 < maxRetries"
  shows "\<exists>k. int k < maxRetries \<and>
           withRetry cfg fn maxRetries =
             (fn k, map (\<lambda>j. retryDelay cfg * (int j + 1)) [0..<k], Suc k)"
  using withRetry_loop_last[OF assms(1), of 0 maxRetries "retryDelay cfg" Undefined] assms(2)
  by (auto simp: withRetry_def)

lemma checkGoogleEventExists_attempt_defined:
  "checkGoogleEventExists_attempt ev g cal tok n \<noteq> Inl Undefined"
  by (auto simp: checkGoogleEventExists_attempt_def api_error_def split: sum.splits)

lemma checkGoogleEventExists_last:
  assumes "0 < retryAttempts cfg"
  shows "\<exists>k. int k < retryAttempts cfg \<and>
           checkGoogleEventExists ev cfg g cal tok w =
             (checkGoogleEventExists_attempt ev g cal tok k,
              w\<lparr>trace := trace w @ map (GetEvent tok cal g) [0..<Suc k],
                clock := clock w + sum_list (map (\<lambda>d. setTimeout_delay (Finite d))
                           (map (\<lambda>j. retryDelay cfg * (int j + 1)) [0..<k]))\<rparr>)"
proof -
  from withRetry_last[where cfg = cfg, OF _ assms, of "checkGoogleEventExists_attempt ev g cal tok"]
    checkGoogleEventExists_attempt_defined
  obtain k where k: "int k < retryAttempts cfg"
    "withRetry cfg (checkGoogleEventExists_attempt ev g cal tok) (retryAttempts cfg) =
       (checkGoogleEventExists_attempt ev g cal tok k,
        map (\<lambda>j. retryDelay cfg * (int j + 1)) [0..<k], Suc k)"
    by blast
  show ?thesis
    by (rule exI[of _ k])
       (simp add: k checkGoogleEventExists_def after_retry_def
          request_outcome_defined[OF checkGoogleEventExists_attempt_defined] del: upt_Suc)
qed

lemma withRetry_no_attempts:
  "maxRetries \<le> 0 \<Longrightarrow> withRetry cfg fn maxRetries = (Inl Undefined, [], 0)"
  by (simp add: withRetry_def withRetry_loop.simps)

lemma checkGoogleEventExists_no_attempts:
  assumes "retryAttempts cfg \<le> 0"
  shows "checkGoogleEventExists ev cfg g cal tok w = (Inl TypeError_message, w)"
  using assms
  by (simp add: checkGoogleEventExists_def withRetry_no_attempts after_retry_def)

lemma checkGoogleEventExists_throws_Error:
  "fst (checkGoogleEventExists ev cfg g cal tok w) \<noteq> Inl Undefined"
  by (simp add: checkGoogleEventExists_def Let_def request_outcome_not_Undefined)

lemma after_retry_simps [simp]:
  "appointments (after_retry request r w) = appointments w"
  "integrations (after_retry request r w) = integrations w"
  "users (after_retry request r w) = users w"
  by (cases r; simp add: after_retry_def)+

lemma attempt_classification:
  assumes "fetch_get ev (GetEvent tok cal g n) = Inr r"
  shows "(checkGoogleEventExists_attempt ev g cal tok n = Inr False \<longleftrightarrow>
            response.status r = 404 \<or> response.status r = 410) \<and>
         (response.status r \<noteq> 404 \<and> response.status r \<noteq> 410 \<and> \<not> ok r \<longrightarrow>
            checkGoogleEventExists_attempt ev g cal tok n = Inl (api_error r))"
  using assms by (simp add: checkGoogleEventExists_attempt_def)

lemma attempt_false_iff:
  "checkGoogleEventExists_attempt ev g cal tok n = Inr False \<longleftrightarrow>
     (\<exists>r. fetch_get ev (GetEvent tok cal g n) = Inr r \<and>
          (response.status r = 404 \<or> response.status r = 410))"
  by (cases "fetch_get ev (GetEvent tok cal g n)")
     (simp_all add: checkGoogleEventExists_attempt_def)

lemma attempt_rejected:
  assumes "fetch_get ev (GetEvent tok cal g n) = Inl m"
  shows "checkGoogleEventExists_attempt ev g cal tok n = Inl (Error (Some m))"
  using assms by (simp add: checkGoogleEventExists_attempt_def)

lemma probe_false_iff:
  "fst (checkGoogleEventExists ev cfg g cal tok w) = Inr False \<longleftrightarrow>
     (\<exists>k r. calls_between w (snd (checkGoogleEventExists ev cfg g cal tok w)) =
               map (GetEvent tok cal g) [0..<Suc k] \<and>
            fetch_get ev (GetEvent tok cal g k) = Inr r \<and>
            (response.status r = 404 \<or> response.status r = 410))"
proof (cases "0 < retryAttempts cfg")
  case False
  then have "checkGoogleEventExists ev cfg g cal tok w = (Inl TypeError_message, w)"
    by (simp add: checkGoogleEventExists_no_attempts)
  then show ?thesis by (simp add: calls_between_def del: upt_Suc)
next
  case True
  from checkGoogleEventExists_last[OF True, of ev g cal tok w]
  obtain k where k: "checkGoogleEventExists ev cfg g cal tok w =
             (checkGoogleEventExists_attempt ev g cal tok k,
              w\<lparr>trace := trace w @ map (GetEvent tok cal g) [0..<Suc k],
                clock := clock w + sum_list (map (\<lambda>d. setTimeout_delay (Finite d))
                           (map (\<lambda>j. retryDelay cfg * (int j + 1)) [0..<k]))\<rparr>)"
    by blast
  have calls: "calls_between w (snd (checkGoogleEventExists ev cfg g cal tok w)) =
                 map (GetEvent tok cal g) [0..<Suc k]"
    by (simp add: k calls_between_def del: upt_Suc)
  have same: "j = k" if "map (GetEvent tok cal g) [0..<Suc k] = map (GetEvent tok cal g) [0..<Suc j]"
    for j
  proof -
    have "length (map (GetEvent tok cal g) [0..<Suc k]) =
          length (map (GetEvent tok cal g) [0..<Suc j])"
      using that by simp
    then show ?thesis by (simp del: upt_Suc)
  qed
  show ?thesis
  proof
    assume "fst (checkGoogleEventExists ev cfg g cal tok w) = Inr False"
    then have "checkGoogleEventExists_attempt ev g cal tok k = Inr False" by (simp add: k)
    then obtain r where "fetch_get ev (GetEvent tok cal g k) = Inr r"
      "response.status r = 404 \<or> response.status r = 410"
      using attempt_false_iff by blast
    then show "\<exists>k r. calls_between w (snd (checkGoogleEventExists ev cfg g cal tok w)) =
               map (GetEvent tok cal g) [0..<Suc k] \<and>
            fetch_get ev (GetEvent tok cal g k) = Inr r \<and>
            (response.status r = 404 \<or> response.status r = 410)"
      using calls by blast
  next
    assume "\<exists>k r. calls_between w (snd (checkGoogleEventExists ev cfg g cal tok w)) =
               map (GetEvent tok cal g) [0..<Suc k] \<and>
            fetch_get ev (GetEvent tok cal g k) = Inr r \<and>
            (response.status r = 404 \<or> response.status r = 410)"
    then obtain j r where j:
      "calls_between w (snd (checkGoogleEventExists ev cfg g cal tok w)) =
         map (GetEvent tok cal g) [0..<Suc j]"
      "fetch_get ev (GetEvent tok cal g j) = Inr r"
      "response.status r = 404 \<or> response.status r = 410"
      by blast
    have "j = k" using same j(1) calls by simp
    then have "checkGoogleEventExists_attempt ev g cal tok k = Inr False"
      using j(2,3) attempt_false_iff by blast
    then show "fst (checkGoogleEventExists ev cfg g cal tok w) = Inr False" by (simp add: k)
  qed
qed

lemma sweep_appointment_cases:
  "sweep_appointment ev cfg i tok a w =
     (case checkGoogleEventExists ev cfg (probed_id a) (calendar_id i) tok w of
        (Inl err, w1) \<Rightarrow> (catch_log err, w1)
      | (Inr eventExists, w1) \<Rightarrow>
          if \<not> eventExists then (Inr (), snd (cancelAppointment ev (appointment.uid a) w1))
          else (Inr (), w1))"
  by (simp add: sweep_appointment_def probed_id_def split: prod.splits sum.splits)

lemma no_cancel_in_probe:
  "CancelAppointment x \<notin> set (calls_between w (snd (checkGoogleEventExists ev cfg g cal tok w)))"
  by (auto simp: checkGoogleEventExists_def Let_def)

lemma sweep_cancel_iff:
  "CancelAppointment (appointment.uid a) \<in>
     set (calls_between w (snd (sweep_appointment ev cfg i tok a w))) \<longleftrightarrow>
   fst (checkGoogleEventExists ev cfg (probed_id a) (calendar_id i) tok w) = Inr False"
proof -
  let ?c = "checkGoogleEventExists ev cfg (probed_id a) (calendar_id i) tok w"
  let ?w2 = "snd (cancelAppointment ev (appointment.uid a) (snd ?c))"
  have "calls_between w ?w2 = calls_between w (snd ?c) @ calls_between (snd ?c) ?w2"
    by (rule calls_between_trans[OF calls_checkGoogleEventExists calls_cancelAppointment])
  then have in2: "CancelAppointment (appointment.uid a) \<in> set (calls_between w ?w2)" by simp
  show ?thesis
    using in2 no_cancel_in_probe[of "appointment.uid a" w ev cfg "probed_id a" "calendar_id i" tok]
    by (cases ?c) (auto simp: sweep_appointment_cases split: sum.splits)
qed

lemma sweep_keeps_rows:
  assumes "fst (checkGoogleEventExists ev cfg (probed_id a) (calendar_id i) tok w) \<noteq> Inr False"
  shows "appointments (snd (sweep_appointment ev cfg i tok a w)) = appointments w"
proof -
  have "appointments (snd (checkGoogleEventExists ev cfg (probed_id a) (calendar_id i) tok w)) =
          appointments w"
    by (simp add: checkGoogleEventExists_def Let_def)
  then show ?thesis using assms
    by (cases "checkGoogleEventExists ev cfg (probed_id a) (calendar_id i) tok w")
       (auto simp: sweep_appointment_cases split: sum.splits)
qed

lemma sweep_cancels_row:
  assumes "fst (checkGoogleEventExists ev cfg (probed_id a) (calendar_id i) tok w) = Inr False"
    and "db_error ev (CancelAppointment (appointment.uid a)) = None"
  shows "\<forall>b\<in>set (appointments (snd (sweep_appointment ev cfg i tok a w))).
           appointment.uid b = appointment.uid a \<longrightarrow> appointment.status b = ''cancelled''"
  using assms
  by (cases "checkGoogleEventExists ev cfg (probed_id a) (calendar_id i) tok w")
     (auto simp: sweep_appointment_cases cancelAppointment_def Let_def)

lemma sweep_appointment_continues:
  "fst (sweep_appointment ev cfg i tok a w) = Inr ()"
proof -
  have "fst (checkGoogleEventExists ev cfg (probed_id a) (calendar_id i) tok w) \<noteq> Inl Undefined"
    by (rule checkGoogleEventExists_throws_Error)
  then show ?thesis
    by (cases "checkGoogleEventExists ev cfg (probed_id a) (calendar_id i) tok w")
       (auto simp: sweep_appointment_cases catch_log_def split: sum.splits thrown.splits)
qed

text \<open>
  Claim C4. An attempt of \<^verbatim>\<open>checkGoogleEventExists\<close> returns \<^verbatim>\<open>false\<close> exactly when
  \<^verbatim>\<open>fetch\<close> answers with status 404 or 410; it throws on every other status that is not
  ok, and when \<^verbatim>\<open>fetch\<close> rejects it throws the error of \<^verbatim>\<open>fetch\<close>. With at least one
  attempt configured, the answer of the whole probe is the answer of the last attempt it
  made; with none, the probe throws without any request. So the probe returns \<^verbatim>\<open>false\<close>
  exactly when the last request it made was answered with 404 or 410. The sweep of an
  appointment calls \<^verbatim>\<open>cancelAppointment\<close> for it if and only if the probe returned
  \<^verbatim>\<open>false\<close>: then the row is cancelled (when the store accepts the update), and otherwise
  no row changes. An error thrown by the probe, a 5xx that outlived its retries included, is
  caught for that item, and the loop goes on with the next appointment.
\<close>

theorem orphan_sweep_safety:
  "(checkGoogleEventExists_attempt ev g cal tok n = Inr False \<longleftrightarrow>
      (\<exists>r. fetch_get ev (GetEvent tok cal g n) = Inr r \<and>
           (response.status r = 404 \<or> response.status r = 410))) \<and>
   (\<forall>r. fetch_get ev (GetEvent tok cal g n) = Inr r \<longrightarrow>
      (checkGoogleEventExists_attempt ev g cal tok n = Inr False \<longleftrightarrow>
         response.status r = 404 \<or> response.status r = 410) \<and>
      (response.status r \<noteq> 404 \<and> response.status r \<noteq> 410 \<and> \<not> ok r \<longrightarrow>
         checkGoogleEventExists_attempt ev g cal tok n = Inl (api_error r))) \<and>
   (\<forall>m. fetch_get ev (GetEvent tok cal g n) = Inl m \<longrightarrow>
      checkGoogleEventExists_attempt ev g cal tok n = Inl (Error (Some m))) \<and>
   (0 < retryAttempts cfg \<longrightarrow>
      (\<exists>k. int k < retryAttempts cfg \<and>
         fst (checkGoogleEventExists ev cfg g cal tok w) =
           checkGoogleEventExists_attempt ev g cal tok k \<and>
         calls_between w (snd (checkGoogleEventExists ev cfg g cal tok w)) =
           map (GetEvent tok cal g) [0..<Suc k])) \<and>
   (retryAttempts cfg \<le> 0 \<longrightarrow>
      checkGoogleEventExists ev cfg g cal tok w = (Inl TypeError_message, w)) \<and>
   (fst (checkGoogleEventExists ev cfg g cal tok w) = Inr False \<longleftrightarrow>
      (\<exists>k r. calls_between w (snd (checkGoogleEventExists ev cfg g cal tok w)) =
                map (GetEvent tok cal g) [0..<Suc k] \<and>
              fetch_get ev (GetEvent tok cal g k) = Inr r \<and>
              (response.status r = 404 \<or> response.status r = 410))) \<and>
   (CancelAppointment (appointment.uid a) \<in>
      set (calls_between w (snd (sweep_appointment ev cfg i tok a w))) \<longleftrightarrow>
    fst (checkGoogleEventExists ev cfg (probed_id a) (calendar_id i) tok w) = Inr False) \<and>
   (fst (checkGoogleEventExists ev cfg (probed_id a) (calendar_id i) tok w) \<noteq> Inr False \<longrightarrow>
      appointments (snd (sweep_appointment ev cfg i tok a w)) = appointments w) \<and>
   (fst (checkGoogleEventExists ev cfg (probed_id a) (calendar_id i) tok w) = Inr False \<and>
    db_error ev (CancelAppointment (appointment.uid a)) = None \<longrightarrow>
      (\<forall>b\<in>set (appointments (snd (sweep_appointment ev cfg i tok a w))).
         appointment.uid b = appointment.uid a \<longrightarrow> appointment.status b = ''cancelled'')) \<and>
   fst (sweep_appointment ev cfg i tok a w) = Inr () \<and>
   sweep_appointments ev cfg i tok (a # rest) w =
     sweep_appointments ev cfg i tok rest (snd (sweep_appointment ev cfg i tok a w))"
proof -
  have c2: "\<forall>r. fetch_get ev (GetEvent tok cal g n) = Inr r \<longrightarrow>
      (checkGoogleEventExists_attempt ev g cal tok n = Inr False \<longleftrightarrow>
         response.status r = 404 \<or> response.status r = 410) \<and>
      (response.status r \<noteq> 404 \<and> response.status r \<noteq> 410 \<and> \<not> ok r \<longrightarrow>
         checkGoogleEventExists_attempt ev g cal tok n = Inl (api_error r))"
    using attempt_classification by blast
  have c3: "\<forall>m. fetch_get ev (GetEvent tok cal g n) = Inl m \<longrightarrow>
      checkGoogleEventExists_attempt ev g cal tok n = Inl (Error (Some m))"
    using attempt_rejected by blast
  have c4: "0 < retryAttempts cfg \<longrightarrow>
      (\<exists>k. int k < retryAttempts cfg \<and>
         fst (checkGoogleEventExists ev cfg g cal tok w) =
           checkGoogleEventExists_attempt ev g cal tok k \<and>
         calls_between w (snd (checkGoogleEventExists ev cfg g cal tok w)) =
           map (GetEvent tok cal g) [0..<Suc k])"
  proof
    assume "0 < retryAttempts cfg"
    from checkGoogleEventExists_last[OF this, of ev g cal tok w]
    obtain k where k: "int k < retryAttempts cfg"
      "checkGoogleEventExists ev cfg g cal tok w =
             (checkGoogleEventExists_attempt ev g cal tok k,
              w\<lparr>trace := trace w @ map (GetEvent tok cal g) [0..<Suc k],
                clock := clock w + sum_list (map (\<lambda>d. setTimeout_delay (Finite d))
                           (map (\<lambda>j. retryDelay cfg * (int j + 1)) [0..<k]))\<rparr>)"
      by blast
    show "\<exists>k. int k < retryAttempts cfg \<and>
         fst (checkGoogleEventExists ev cfg g cal tok w) =
           checkGoogleEventExists_attempt ev g cal tok k \<and>
         calls_between w (snd (checkGoogleEventExists ev cfg g cal tok w)) =
           map (GetEvent tok cal g) [0..<Suc k]"
      by (rule exI[of _ k]) (simp add: k calls_between_def del: upt_Suc)
  qed
  have c5: "retryAttempts cfg \<le> 0 \<longrightarrow>
      checkGoogleEventExists ev cfg g cal tok w = (Inl TypeError_message, w)"
    using checkGoogleEventExists_no_attempts by blast
  have c8: "fst (checkGoogleEventExists ev cfg (probed_id a) (calendar_id i) tok w) \<noteq> Inr False \<longrightarrow>
      appointments (snd (sweep_appointment ev cfg i tok a w)) = appointments w"
    using sweep_keeps_rows by blast
  have c9: "fst (checkGoogleEventExists ev cfg (probed_id a) (calendar_id i) tok w) = Inr False \<and>
    db_error ev (CancelAppointment (appointment.uid a)) = None \<longrightarrow>
      (\<forall>b\<in>set (appointments (snd (sweep_appointment ev cfg i tok a w))).
         appointment.uid b = appointment.uid a \<longrightarrow> appointment.status b = ''cancelled'')"
    using sweep_cancels_row by blast
  have c10: "fst (sweep_appointment ev cfg i tok a w) = Inr ()"
    by (rule sweep_appointment_continues)
  have c11: "sweep_appointments ev cfg i tok (a # rest) w =
        sweep_appointments ev cfg i tok rest (snd (sweep_appointment ev cfg i tok a w))"
    using c10 by (cases "sweep_appointment ev cfg i tok a w") simp
  show ?thesis
    by (intro conjI attempt_false_iff c2 c3 c4 c5 probe_false_iff sweep_cancel_iff c8 c9 c10 c11)
qed

lemma api_error_500:
  "api_error \<lparr>response.status = 500, body_text = ''Internal'', body_json = j\<rparr> =
     Error (Some ''Google Calendar API error: 500 - Internal'')"
  by (simp add: api_error_def show_nat.simps)

lemma isPersistentError_500:
  "isPersistentError (Error (Some ''Google Calendar API error: 500 - Internal'')) = Inr False"
  by (simp add: isPersistentError_def lowered_message_def toLowerCase_def lower_char_def)

lemma gone_probe:
  "checkGoogleEventExists gone_env example_config ''g1'' ''primary'' (Some ''token'') w =
     (Inr False, w\<lparr>trace := trace w @ [GetEvent (Some ''token'') ''primary'' ''g1'' 0]\<rparr>)"
  by (simp add: gone_env_def example_defs checkGoogleEventExists_def
        checkGoogleEventExists_attempt_def ok_def retry_defs)

lemma failing_probe:
  "checkGoogleEventExists failing_env example_config ''g1'' ''primary'' (Some ''token'') w =
     (Inl (Error (Some ''Google Calendar API error: 500 - Internal'')),
      w\<lparr>trace := trace w @ [GetEvent (Some ''token'') ''primary'' ''g1'' 0,
                             GetEvent (Some ''token'') ''primary'' ''g1'' 1,
                             GetEvent (Some ''token'') ''primary'' ''g1'' 2],
        clock := clock w + 3000\<rparr>)"
proof -
  have a: "checkGoogleEventExists_attempt failing_env ''g1'' ''primary'' (Some ''token'') n =
             Inl (Error (Some ''Google Calendar API error: 500 - Internal''))" for n
    by (simp add: failing_env_def quiet_env_def checkGoogleEventExists_attempt_def ok_def
          api_error_500)
  have u: "[0..<3] = [0, 1, 2]" by (simp add: upt_conv_Cons)
  show ?thesis
    by (simp add: checkGoogleEventExists_def example_config_def withRetry_def
          withRetry_loop.simps a isPersistentError_500 after_retry_def setTimeout_delay_def
          eval_nat_numeral u)
qed

lemma appointments_cancelAppointment:
  "db_error ev (CancelAppointment x) = None \<Longrightarrow>
   appointments (snd (cancelAppointment ev x w)) =
     map (\<lambda>a. if appointment.uid a = x
               then a\<lparr>appointment.status := ''cancelled'', appointment.updated_at := clock w\<rparr>
               else a) (appointments w)"
  by (simp add: cancelAppointment_def Let_def)

lemma isPersistentError_fetch_failed:
  "isPersistentError (Error (Some ''fetch failed'')) = Inr False"
  by (simp add: isPersistentError_def lowered_message_def toLowerCase_def lower_char_def)

lemma unreachable_probe:
  "checkGoogleEventExists unreachable_env example_config ''g1'' ''primary'' (Some ''token'') w =
     (Inl (Error (Some ''fetch failed'')),
      w\<lparr>trace := trace w @ [GetEvent (Some ''token'') ''primary'' ''g1'' 0,
                             GetEvent (Some ''token'') ''primary'' ''g1'' 1,
                             GetEvent (Some ''token'') ''primary'' ''g1'' 2],
        clock := clock w + 3000\<rparr>)"
proof -
  have a: "checkGoogleEventExists_attempt unreachable_env ''g1'' ''primary'' (Some ''token'') n =
             Inl (Error (Some ''fetch failed''))" for n
    by (simp add: unreachable_env_def quiet_env_def checkGoogleEventExists_attempt_def)
  have u: "[0..<3] = [0, 1, 2]" by (simp add: upt_conv_Cons)
  show ?thesis
    by (simp add: checkGoogleEventExists_def example_config_def withRetry_def
          withRetry_loop.simps a isPersistentError_fetch_failed after_retry_def
          setTimeout_delay_def eval_nat_numeral u)
qed

theorem orphan_sweep_safety_witness:
  "fst (checkGoogleEventExists gone_env example_config (probed_id example_appointment)
          (calendar_id example_integration) (Some ''token'') example_world) = Inr False \<and>
   CancelAppointment ''a1'' \<in> set (calls_between example_world
      (snd (sweep_appointment gone_env example_config example_integration (Some ''token'')
              example_appointment example_world))) \<and>
   map appointment.status (appointments
      (snd (sweep_appointment gone_env example_config example_integration (Some ''token'')
              example_appointment example_world))) = [''cancelled''] \<and>
   fst (checkGoogleEventExists failing_env example_config (probed_id example_appointment)
          (calendar_id example_integration) (Some ''token'') example_world) =
     Inl (Error (Some ''Google Calendar API error: 500 - Internal'')) \<and>
   CancelAppointment ''a1'' \<notin> set (calls_between example_world
      (snd (sweep_appointment failing_env example_config example_integration (Some ''token'')
              example_appointment example_world))) \<and>
   appointments
      (snd (sweep_appointment failing_env example_config example_integration (Some ''token'')
              example_appointment example_world)) = [example_appointment] \<and>
   fst (sweep_appointment failing_env example_config example_integration (Some ''token'')
          example_appointment example_world) = Inr () \<and>
   fetch_get unreachable_env (GetEvent (Some ''token'') ''primary'' ''g1'' 0) = Inl ''fetch failed'' \<and>
   checkGoogleEventExists_attempt unreachable_env ''g1'' ''primary'' (Some ''token'') 0 =
     Inl (Error (Some ''fetch failed'')) \<and>
   fst (checkGoogleEventExists unreachable_env example_config (probed_id example_appointment)
          (calendar_id example_integration) (Some ''token'') example_world) =
     Inl (Error (Some ''fetch failed'')) \<and>
   CancelAppointment ''a1'' \<notin> set (calls_between example_world
      (snd (sweep_appointment unreachable_env example_config example_integration (Some ''token'')
              example_appointment example_world))) \<and>
   appointments
      (snd (sweep_appointment unreachable_env example_config example_integration (Some ''token'')
              example_appointment example_world)) = [example_appointment] \<and>
   fst (sweep_appointment unreachable_env example_config example_integration (Some ''token'')
          example_appointment example_world) = Inr () \<and>
   retryAttempts no_attempt_config = 0 \<and>
   checkGoogleEventExists gone_env no_attempt_config (probed_id example_appointment)
     (calendar_id example_integration) (Some ''token'') example_world =
     (Inl TypeError_message, example_world) \<and>
   sweep_appointment gone_env no_attempt_config example_integration (Some ''token'')
     example_appointment example_world = (Inr (), example_world)"
proof -
  have ids: "probed_id example_appointment = ''g1''" "calendar_id example_integration = ''primary''"
    "appointment.uid example_appointment = ''a1''" "0 < retryAttempts example_config"
    "appointments example_world = [example_appointment]"
    by (simp_all add: probed_id_def example_defs)
  have db: "db_error gone_env (CancelAppointment (appointment.uid example_appointment)) = None"
    by (simp add: gone_env_def quiet_env_def)
  have g: "fst (checkGoogleEventExists gone_env example_config (probed_id example_appointment)
          (calendar_id example_integration) (Some ''token'') example_world) = Inr False"
    by (simp add: ids gone_probe)
  have f: "fst (checkGoogleEventExists failing_env example_config (probed_id example_appointment)
          (calendar_id example_integration) (Some ''token'') example_world) =
     Inl (Error (Some ''Google Calendar API error: 500 - Internal''))"
    by (simp add: ids failing_probe)
  have u: "fst (checkGoogleEventExists unreachable_env example_config (probed_id example_appointment)
          (calendar_id example_integration) (Some ''token'') example_world) =
     Inl (Error (Some ''fetch failed''))"
    by (simp add: ids unreachable_probe)
  note G = orphan_sweep_safety [where ev = gone_env and cfg = example_config
      and i = example_integration and tok = "Some ''token''" and a = example_appointment
      and w = example_world]
  note F = orphan_sweep_safety [where ev = failing_env and cfg = example_config
      and i = example_integration and tok = "Some ''token''" and a = example_appointment
      and w = example_world]
  note U = orphan_sweep_safety [where ev = unreachable_env and cfg = example_config
      and i = example_integration and tok = "Some ''token''" and a = example_appointment
      and w = example_world and g = "''g1''" and cal = "''primary''" and n = 0]
  note Z = orphan_sweep_safety [where ev = gone_env and cfg = no_attempt_config
      and i = example_integration and tok = "Some ''token''" and a = example_appointment
      and w = example_world and g = "probed_id example_appointment"
      and cal = "calendar_id example_integration"]
  note six = conjunct2 [THEN conjunct2, THEN conjunct2, THEN conjunct2, THEN conjunct2,
      THEN conjunct2]
  note G7 = G [THEN six, THEN conjunct1]
  note G9 = G [THEN six, THEN conjunct2, THEN conjunct2, THEN conjunct1]
  note F7 = F [THEN six, THEN conjunct1]
  note F8 = F [THEN six, THEN conjunct2, THEN conjunct1]
  note F10 = F [THEN six, THEN conjunct2, THEN conjunct2, THEN conjunct2, THEN conjunct1]
  note U3 = U [THEN conjunct2, THEN conjunct2, THEN conjunct1]
  note U7 = U [THEN six, THEN conjunct1]
  note U8 = U [THEN six, THEN conjunct2, THEN conjunct1]
  note U10 = U [THEN six, THEN conjunct2, THEN conjunct2, THEN conjunct2, THEN conjunct1]
  note Z5 = Z [THEN conjunct2, THEN conjunct2, THEN conjunct2, THEN conjunct2, THEN conjunct1]
  note Z8 = Z [THEN six, THEN conjunct2, THEN conjunct1]
  note Z10 = Z [THEN six, THEN conjunct2, THEN conjunct2, THEN conjunct2, THEN conjunct1]
  have g1: "CancelAppointment ''a1'' \<in> set (calls_between example_world
      (snd (sweep_appointment gone_env example_config example_integration (Some ''token'')
              example_appointment example_world)))"
    using G7 g ids(3) by simp
  have g2: "\<forall>b\<in>set (appointments
      (snd (sweep_appointment gone_env example_config example_integration (Some ''token'')
              example_appointment example_world))).
        appointment.uid b = appointment.uid example_appointment \<longrightarrow>
        appointment.status b = ''cancelled''"
    using G9 g db by blast
  have rows: "appointments
      (snd (sweep_appointment gone_env example_config example_integration (Some ''token'')
              example_appointment example_world)) =
      [example_appointment\<lparr>appointment.status := ''cancelled'',
                           appointment.updated_at := 1000000\<rparr>]"
  proof -
    have c: "clock example_world = 1000000" by (simp add: example_world_def)
    have "sweep_appointment gone_env example_config example_integration (Some ''token'')
              example_appointment example_world =
          (Inr (), snd (cancelAppointment gone_env ''a1''
             (example_world\<lparr>trace := trace example_world @
                 [GetEvent (Some ''token'') ''primary'' ''g1'' 0]\<rparr>)))"
      by (simp add: sweep_appointment_cases ids(1,2,3) gone_probe)
    then show ?thesis
      using db by (simp add: appointments_cancelAppointment ids(3,5) c)
  qed
  have g3: "map appointment.status (appointments
      (snd (sweep_appointment gone_env example_config example_integration (Some ''token'')
              example_appointment example_world))) = [''cancelled'']"
    using g2 unfolding rows by simp
  have f1: "CancelAppointment ''a1'' \<notin> set (calls_between example_world
      (snd (sweep_appointment failing_env example_config example_integration (Some ''token'')
              example_appointment example_world)))"
    using F7 f ids(3) by simp
  have f2: "appointments
      (snd (sweep_appointment failing_env example_config example_integration (Some ''token'')
              example_appointment example_world)) = [example_appointment]"
    using F8 f ids(5) by simp
  have u0: "fetch_get unreachable_env (GetEvent (Some ''token'') ''primary'' ''g1'' 0) =
              Inl ''fetch failed''"
    by (simp add: unreachable_env_def quiet_env_def)
  have u1: "checkGoogleEventExists_attempt unreachable_env ''g1'' ''primary'' (Some ''token'') 0 =
              Inl (Error (Some ''fetch failed''))"
    using U3 u0 by blast
  have u2: "CancelAppointment ''a1'' \<notin> set (calls_between example_world
      (snd (sweep_appointment unreachable_env example_config example_integration (Some ''token'')
              example_appointment example_world)))"
    using U7 u ids(3) by simp
  have u3: "appointments
      (snd (sweep_appointment unreachable_env example_config example_integration (Some ''token'')
              example_appointment example_world)) = [example_appointment]"
    using U8 u ids(5) by simp
  have z0: "retryAttempts no_attempt_config = 0"
    by (simp add: no_attempt_config_def)
  have z1: "checkGoogleEventExists gone_env no_attempt_config (probed_id example_appointment)
     (calendar_id example_integration) (Some ''token'') example_world =
     (Inl TypeError_message, example_world)"
    using Z5 z0 by simp
  have z2: "sweep_appointment gone_env no_attempt_config example_integration (Some ''token'')
     example_appointment example_world = (Inr (), example_world)"
    using Z10 z1 by (simp add: sweep_appointment_cases)
  show ?thesis
    by (intro conjI g g1 g3 f f1 f2 F10 u0 u1 u u2 u3 U10 z0 z1 z2)
qed

subsection \<open>Phase A: the selection and the push\<close>

lemma getUnsynced_rows:
  assumes "fst (getUnsyncedLocalAppointments ev cid cal w) = Inr rows"
  shows "rows = sort_key appointment.created_at (filter (unsynced cid cal) (appointments w))"
  using assms
  by (auto simp: getUnsyncedLocalAppointments_def Let_def split: option.splits)

lemma getUnsynced_selected:
  assumes "fst (getUnsyncedLocalAppointments ev cid cal w) = Inr rows" "a \<in> set rows"
  shows "a \<in> set (appointments w) \<and> appointment.company_id a = cid \<and>
         appointment.google_calendar_id a = Some cal \<and>
         appointment.google_event_id a = None \<and> appointment.status a \<noteq> ''cancelled''"
  using assms(2) unfolding getUnsynced_rows[OF assms(1)] by (simp add: unsynced_def)

lemma updateAppointmentWithGoogleEventId_ok:
  "fst (updateAppointmentWithGoogleEventId ev x gid link w) = Inr () \<longleftrightarrow>
   db_error ev (UpdateAppointmentWithGoogleEventId x gid link) = None"
  by (simp add: updateAppointmentWithGoogleEventId_def Let_def split: option.splits)

lemma appointments_updateAppointmentWithGoogleEventId:
  "db_error ev (UpdateAppointmentWithGoogleEventId x gid link) = None \<Longrightarrow>
   appointments (snd (updateAppointmentWithGoogleEventId ev x gid link w)) =
     map (\<lambda>a. if appointment.uid a = x
               then a\<lparr>appointment.google_event_id := Some gid,
                      appointment.updated_at := clock w,
                      appointment.google_meet_link :=
                        (if truthy link then link else appointment.google_meet_link a)\<rparr>
               else a) (appointments w)"
  by (simp add: updateAppointmentWithGoogleEventId_def Let_def)

lemma update_sets_event_id:
  assumes "fst (updateAppointmentWithGoogleEventId ev x gid link w) = Inr ()"
    and "b \<in> set (appointments (snd (updateAppointmentWithGoogleEventId ev x gid link w)))"
    and "appointment.uid b = x"
  shows "appointment.google_event_id b = Some gid"
proof -
  have db: "db_error ev (UpdateAppointmentWithGoogleEventId x gid link) = None"
    using assms(1) by (simp only: updateAppointmentWithGoogleEventId_ok)
  from assms(2) obtain a where a: "a \<in> set (appointments w)"
    "b = (if appointment.uid a = x
          then a\<lparr>appointment.google_event_id := Some gid,
                 appointment.updated_at := clock w,
                 appointment.google_meet_link :=
                   (if truthy link then link else appointment.google_meet_link a)\<rparr>
          else a)"
    unfolding appointments_updateAppointmentWithGoogleEventId[OF db] by auto
  show ?thesis
  proof (cases "appointment.uid a = x")
    case True
    then show ?thesis using a(2) by simp
  next
    case False
    then show ?thesis using a(2) assms(3) by simp
  qed
qed

lemma calls_updateAppointmentWithGoogleEventId:
  "calls_only (\<lambda>c. c = UpdateAppointmentWithGoogleEventId x gid link) w
     (snd (updateAppointmentWithGoogleEventId ev x gid link w))"
  by (rule calls_onlyI[where new = "[UpdateAppointmentWithGoogleEventId x gid link]"])
     (simp_all add: updateAppointmentWithGoogleEventId_def Let_def split: option.splits)

lemma calls_getUnsyncedLocalAppointments:
  "calls_only (\<lambda>c. c = GetUnsyncedLocalAppointments cid cal) w
     (snd (getUnsyncedLocalAppointments ev cid cal w))"
  by (rule calls_onlyI[where new = "[GetUnsyncedLocalAppointments cid cal]"])
     (simp_all add: getUnsyncedLocalAppointments_def Let_def split: option.splits)

lemma calls_createGoogleEvent:
  "calls_only (\<lambda>c. \<exists>n. c = InsertEvent tok (calendar_id i) (event_of_appointment a i (clock w)) n) w
     (snd (createGoogleEvent ev cfg a i tok w))"
  unfolding createGoogleEvent_def Let_def snd_conv
  by (rule calls_only_after_retry) blast

lemma calls_push_appointment:
  assumes "a \<in> A"
  shows "calls_only (pushes i A) w (snd (push_appointment ev cfg i tok a w))"
proof -
  let ?w1 = "snd (createGoogleEvent ev cfg a i tok w)"
  have 1: "calls_only (pushes i A) w ?w1"
    by (rule calls_only_mono[OF calls_createGoogleEvent]) (use assms in \<open>auto simp: pushes_def\<close>)
  have 2: "calls_only (pushes i A) ?w1
             (snd (updateAppointmentWithGoogleEventId ev x gid link ?w1))" for x gid link
    by (rule calls_only_mono[OF calls_updateAppointmentWithGoogleEventId]) (auto simp: pushes_def)
  show ?thesis
  proof (cases "createGoogleEvent ev cfg a i tok w")
    case (Pair r w1)
    then have w1: "w1 = ?w1" by simp
    show ?thesis
    proof (cases r)
      case (Inl err)
      then show ?thesis using 1 Pair by (simp add: push_appointment_def)
    next
      case (Inr googleEvent)
      let ?u = "updateAppointmentWithGoogleEventId ev (appointment.uid a)
                  (google_event.uid googleEvent) (entryPoint_uri googleEvent) w1"
      have "calls_only (pushes i A) w (snd ?u)"
        using calls_only_trans[OF 1 2] w1 by simp
      then show ?thesis using Pair Inr
        by (cases ?u) (auto simp: push_appointment_def split: sum.splits)
    qed
  qed
qed

lemma calls_push_appointments:
  assumes "set as \<subseteq> A"
  shows "calls_only (pushes i A) w (snd (push_appointments ev cfg i tok as w))"
  using assms
proof (induction as arbitrary: w)
  case Nil
  show ?case by (simp add: calls_only_refl)
next
  case (Cons a as)
  have 1: "calls_only (pushes i A) w (snd (push_appointment ev cfg i tok a w))"
    by (rule calls_push_appointment) (use Cons.prems in simp)
  have 2: "calls_only (pushes i A) w
             (snd (push_appointments ev cfg i tok as (snd (push_appointment ev cfg i tok a w))))"
    by (rule calls_only_trans[OF 1 Cons.IH]) (use Cons.prems in simp)
  show ?case
  proof (cases "push_appointment ev cfg i tok a w")
    case (Pair r w1)
    then show ?thesis using 1 2 by (cases r) simp_all
  qed
qed

lemma calls_syncLocalAppointmentsToGoogle:
  "calls_only (pushes i {a \<in> set (appointments w).
                  unsynced (integration.company_id i) (calendar_id i) a}) w
     (snd (syncLocalAppointmentsToGoogle ev cfg i tok w))"
proof -
  let ?A = "{a \<in> set (appointments w). unsynced (integration.company_id i) (calendar_id i) a}"
  let ?q = "getUnsyncedLocalAppointments ev (integration.company_id i) (calendar_id i) w"
  have 1: "calls_only (pushes i ?A) w (snd ?q)"
    by (rule calls_only_mono[OF calls_getUnsyncedLocalAppointments]) (auto simp: pushes_def)
  have 2: "calls_only (pushes i ?A) w (snd (push_appointments ev cfg i tok rows (snd ?q)))"
    if "fst ?q = Inr rows" for rows
  proof -
    have "set rows \<subseteq> ?A" unfolding getUnsynced_rows[OF that] by auto
    then show ?thesis
      by (intro calls_only_trans[OF 1] calls_push_appointments)
  qed
  show ?thesis
  proof (cases ?q)
    case (Pair r w1)
    show ?thesis
    proof (cases r)
      case (Inl err)
      then show ?thesis using 1 Pair by (simp add: syncLocalAppointmentsToGoogle_def)
    next
      case (Inr rows)
      then have "calls_only (pushes i ?A) w (snd (push_appointments ev cfg i tok rows w1))"
        using 2[of rows] Pair by simp
      then show ?thesis using 1 Pair Inr
        by (cases "push_appointments ev cfg i tok rows w1")
           (auto simp: syncLocalAppointmentsToGoogle_def split: sum.splits)
    qed
  qed
qed

text \<open>
  Claim C3. Every appointment that \<^verbatim>\<open>getUnsyncedLocalAppointments\<close> returns is a row of
  the given company and calendar whose \<^verbatim>\<open>google_event_id\<close> is null and whose status is not
  \<^verbatim>\<open>cancelled\<close>; so a row with an external id is never selected. Once
  \<^verbatim>\<open>updateAppointmentWithGoogleEventId\<close> has succeeded for an appointment, the row carries
  the external id and no selection made on that state returns it. Every event that a run of
  Phase A posts to the remote calendar is built from a row that had no external id (and was
  not cancelled, and belongs to the integration's company and calendar) when the run began.
\<close>

theorem no_double_push:
  "(\<forall>rows. fst (getUnsyncedLocalAppointments ev cid cal w) = Inr rows \<longrightarrow>
      (\<forall>a\<in>set rows. a \<in> set (appointments w) \<and> appointment.company_id a = cid \<and>
         appointment.google_calendar_id a = Some cal \<and>
         appointment.google_event_id a = None \<and> appointment.status a \<noteq> ''cancelled'')) \<and>
   (fst (updateAppointmentWithGoogleEventId ev x gid link w) = Inr () \<longrightarrow>
      (\<forall>b\<in>set (appointments (snd (updateAppointmentWithGoogleEventId ev x gid link w))).
         appointment.uid b = x \<longrightarrow> appointment.google_event_id b = Some gid) \<and>
      (\<forall>rows. fst (getUnsyncedLocalAppointments ev cid cal
                     (snd (updateAppointmentWithGoogleEventId ev x gid link w))) = Inr rows \<longrightarrow>
         (\<forall>a\<in>set rows. appointment.uid a \<noteq> x))) \<and>
   (\<forall>c\<in>set (calls_between w (snd (syncLocalAppointmentsToGoogle ev cfg i tok w))).
      \<forall>t cal' p n. c = InsertEvent t cal' p n \<longrightarrow>
        (\<exists>a\<in>set (appointments w).
           appointment.google_event_id a = None \<and> appointment.status a \<noteq> ''cancelled'' \<and>
           appointment.company_id a = integration.company_id i \<and>
           appointment.google_calendar_id a = Some (calendar_id i) \<and>
           (\<exists>now. p = event_of_appointment a i now)))"
proof -
  have c1: "\<forall>rows. fst (getUnsyncedLocalAppointments ev cid cal w) = Inr rows \<longrightarrow>
      (\<forall>a\<in>set rows. a \<in> set (appointments w) \<and> appointment.company_id a = cid \<and>
         appointment.google_calendar_id a = Some cal \<and>
         appointment.google_event_id a = None \<and> appointment.status a \<noteq> ''cancelled'')"
    using getUnsynced_selected by blast
  let ?w' = "snd (updateAppointmentWithGoogleEventId ev x gid link w)"
  have c2: "fst (updateAppointmentWithGoogleEventId ev x gid link w) = Inr () \<longrightarrow>
      (\<forall>b\<in>set (appointments ?w'). appointment.uid b = x \<longrightarrow>
         appointment.google_event_id b = Some gid) \<and>
      (\<forall>rows. fst (getUnsyncedLocalAppointments ev cid cal ?w') = Inr rows \<longrightarrow>
         (\<forall>a\<in>set rows. appointment.uid a \<noteq> x))"
  proof
    assume ok: "fst (updateAppointmentWithGoogleEventId ev x gid link w) = Inr ()"
    have set_id: "\<forall>b\<in>set (appointments ?w'). appointment.uid b = x \<longrightarrow>
         appointment.google_event_id b = Some gid"
      using update_sets_event_id[OF ok] by blast
    have "appointment.uid a \<noteq> x"
      if "fst (getUnsyncedLocalAppointments ev cid cal ?w') = Inr rows" "a \<in> set rows" for rows a
    proof
      assume "appointment.uid a = x"
      moreover have "a \<in> set (appointments ?w')" "appointment.google_event_id a = None"
        using getUnsynced_selected[OF that] by simp_all
      ultimately show False using set_id by auto
    qed
    then show "(\<forall>b\<in>set (appointments ?w'). appointment.uid b = x \<longrightarrow>
         appointment.google_event_id b = Some gid) \<and>
      (\<forall>rows. fst (getUnsyncedLocalAppointments ev cid cal ?w') = Inr rows \<longrightarrow>
         (\<forall>a\<in>set rows. appointment.uid a \<noteq> x))"
      using set_id by blast
  qed
  have c3: "\<forall>c\<in>set (calls_between w (snd (syncLocalAppointmentsToGoogle ev cfg i tok w))).
      \<forall>t cal' p n. c = InsertEvent t cal' p n \<longrightarrow>
        (\<exists>a\<in>set (appointments w).
           appointment.google_event_id a = None \<and> appointment.status a \<noteq> ''cancelled'' \<and>
           appointment.company_id a = integration.company_id i \<and>
           appointment.google_calendar_id a = Some (calendar_id i) \<and>
           (\<exists>now. p = event_of_appointment a i now))"
  proof (intro ballI allI impI)
    fix c t cal' p n
    assume c: "c \<in> set (calls_between w (snd (syncLocalAppointmentsToGoogle ev cfg i tok w)))"
      and e: "c = InsertEvent t cal' p n"
    have "pushes i {a \<in> set (appointments w).
             unsynced (integration.company_id i) (calendar_id i) a} c"
      using calls_only_all[OF calls_syncLocalAppointmentsToGoogle[of i w ev cfg tok]] c
      by (simp add: list_all_iff)
    then obtain a now where "a \<in> set (appointments w)"
      "unsynced (integration.company_id i) (calendar_id i) a" "p = event_of_appointment a i now"
      using e unfolding pushes_def by blast
    then show "\<exists>a\<in>set (appointments w).
           appointment.google_event_id a = None \<and> appointment.status a \<noteq> ''cancelled'' \<and>
           appointment.company_id a = integration.company_id i \<and>
           appointment.google_calendar_id a = Some (calendar_id i) \<and>
           (\<exists>now. p = event_of_appointment a i now)"
      unfolding unsynced_def by blast
  qed
  show ?thesis by (intro conjI c1 c2 c3)
qed

lemma local_fields:
  "appointment.uid local_appointment = ''a2''"
  "appointment.google_event_id local_appointment = None"
  "unsynced ''c1'' ''primary'' local_appointment"
  "\<not> unsynced ''c1'' ''primary'' example_appointment"
  "appointment.uid example_appointment \<noteq> ''a2''"
  by (simp_all add: local_appointment_def example_appointment_def unsynced_def)

lemma push_world_fields:
  "appointments push_world = [example_appointment, local_appointment]"
  "db_error quiet_env c = None"
  by (simp_all add: push_world_def example_world_def quiet_env_def)

theorem no_double_push_witness:
  "fst (getUnsyncedLocalAppointments quiet_env ''c1'' ''primary'' push_world) =
     Inr [local_appointment] \<and>
   appointment.uid local_appointment = ''a2'' \<and>
   appointment.google_event_id local_appointment = None \<and>
   fst (updateAppointmentWithGoogleEventId quiet_env ''a2'' ''g2'' None push_world) = Inr () \<and>
   list_all (\<lambda>b. appointment.uid b = ''a2'' \<longrightarrow> appointment.google_event_id b = Some ''g2'')
     (appointments (snd (updateAppointmentWithGoogleEventId quiet_env
          ''a2'' ''g2'' None push_world))) \<and>
   fst (getUnsyncedLocalAppointments quiet_env ''c1'' ''primary''
          (snd (updateAppointmentWithGoogleEventId quiet_env ''a2''
                  ''g2'' None push_world))) = Inr []"
proof -
  let ?u = "updateAppointmentWithGoogleEventId quiet_env ''a2''
              ''g2'' None push_world"
  note T = no_double_push [where ev = quiet_env and cid = "''c1''" and cal = "''primary''"
      and w = push_world and x = "''a2''" and gid = "''g2''"
      and link = None]
  have r1: "fst (getUnsyncedLocalAppointments quiet_env ''c1'' ''primary'' push_world) =
              Inr [local_appointment]"
    by (simp add: getUnsyncedLocalAppointments_def Let_def push_world_fields local_fields)
  have r2: "fst ?u = Inr ()"
    by (simp add: updateAppointmentWithGoogleEventId_ok push_world_fields)
  have r3: "\<forall>b\<in>set (appointments (snd ?u)).
      appointment.uid b = ''a2'' \<longrightarrow>
      appointment.google_event_id b = Some ''g2''"
    using T [THEN conjunct2, THEN conjunct1] r2 by blast
  have rows: "appointments (snd ?u) =
      [example_appointment,
       local_appointment\<lparr>appointment.google_event_id := Some ''g2'',
                         appointment.updated_at := clock push_world,
                         appointment.google_meet_link := appointment.google_meet_link local_appointment\<rparr>]"
    by (simp add: appointments_updateAppointmentWithGoogleEventId push_world_fields local_fields
          truthy_def)
  have r4: "fst (getUnsyncedLocalAppointments quiet_env ''c1'' ''primary'' (snd ?u)) = Inr []"
    by (simp add: getUnsyncedLocalAppointments_def Let_def push_world_fields rows local_fields)
       (simp add: unsynced_def)?
  note r3' = r3 [folded list_all_iff]
  show ?thesis
    by (intro conjI r1 local_fields(1) local_fields(2) r2 r3' r4)
qed

subsection \<open>Phase B: the upsert of an existing appointment\<close>















subsection \<open>The token\<close>

lemma refreshAccessToken_attempt_defined:
  "refreshAccessToken_attempt ev rt ci cs n \<noteq> Inl Undefined"
  by (auto simp: refreshAccessToken_attempt_def split: sum.splits)

lemma refreshAccessToken_calls:
  assumes "0 < retryAttempts cfg"
  shows "\<exists>k. int k < retryAttempts cfg \<and>
           calls_between w (snd (refreshAccessToken ev cfg rt ci cs w)) =
             map (RefreshGrant rt ci cs) [0..<Suc k]"
proof -
  from withRetry_last[where cfg = cfg, OF _ assms, of "refreshAccessToken_attempt ev rt ci cs"]
    refreshAccessToken_attempt_defined
  obtain k where k: "int k < retryAttempts cfg"
    "withRetry cfg (refreshAccessToken_attempt ev rt ci cs) (retryAttempts cfg) =
       (refreshAccessToken_attempt ev rt ci cs k,
        map (\<lambda>j. retryDelay cfg * (int j + 1)) [0..<k], Suc k)"
    by blast
  show ?thesis
    by (rule exI[of _ k]) (simp add: k refreshAccessToken_def Let_def del: upt_Suc)
qed

lemma ensureValidToken_fresh:
  assumes "truthy (integration.access_token i)" "\<not> expiresAt i - clock w \<le> 300000"
  shows "ensureValidToken ev cfg i w = (Inr (integration.access_token i), w)"
  using assms by (simp add: ensureValidToken_def expiresAt_def Let_def)

lemma ensureValidToken_no_refresh_token:
  assumes "truthy (integration.access_token i)" "expiresAt i - clock w \<le> 300000"
    "\<not> truthy (integration.refresh_token i)"
  shows "ensureValidToken ev cfg i w = (Inl (Error (Some ''No refresh token available'')), w)"
  using assms by (simp add: ensureValidToken_def expiresAt_def Let_def)

lemma ensureValidToken_refresh:
  assumes "truthy (integration.access_token i)" "expiresAt i - clock w \<le> 300000"
    "truthy (integration.refresh_token i)"
  shows "ensureValidToken ev cfg i w =
           (case refreshAccessToken ev cfg (integration.refresh_token i) (client_id i)
                   (client_secret i) w of
              (Inl err, w1) \<Rightarrow> (Inl err, w1)
            | (Inr newTokens, w1) \<Rightarrow>
                (Inr (token_json.access_token newTokens),
                 snd (updateIntegrationTokens ev (integration.uid i)
                        (refreshed_tokens i newTokens) w1)))"
  using assms
  by (simp add: ensureValidToken_def expiresAt_def Let_def refreshed_tokens_def
           split: prod.splits sum.splits)

lemma updateIntegrationTokens_invalid_date:
  assumes "\<forall>seconds. tokens.expires_in toks = Some seconds \<longrightarrow>
             \<not> valid_date (clock w + seconds * 1000)"
  shows "updateIntegrationTokens ev x toks w =
           (False, record_call (UpdateIntegrationTokens x toks) w)"
  using assms
  by (cases "tokens.expires_in toks") (simp_all add: updateIntegrationTokens_def Let_def)

lemma integrations_updateIntegrationTokens:
  assumes "tokens.expires_in toks = Some seconds"
    and "valid_date (clock w + seconds * 1000)"
    and "db_error ev (UpdateIntegrationTokens x toks) = None"
  shows "integrations (snd (updateIntegrationTokens ev x toks w)) =
           map (\<lambda>r. if integration.uid r = x
                     then r\<lparr>integration.access_token :=
                              overwrite (tokens.access_token toks) (integration.access_token r),
                            integration.refresh_token :=
                              js_or (tokens.refresh_token toks) (integration.refresh_token r),
                            token_expires_at := Some (clock w + seconds * 1000),
                            integration.updated_at := clock w\<rparr>
                     else r) (integrations w)"
  using assms
  by (simp add: updateIntegrationTokens_def Let_def overwrite_def js_or_def)

lemma calls_refreshAccessToken:
  "calls_only (\<lambda>c. \<exists>n. c = RefreshGrant rt ci cs n) w (snd (refreshAccessToken ev cfg rt ci cs w))"
  unfolding refreshAccessToken_def Let_def snd_conv
  by (rule calls_only_after_retry) blast

lemma calls_updateIntegrationTokens:
  "calls_only (\<lambda>c. c = UpdateIntegrationTokens x toks) w (snd (updateIntegrationTokens ev x toks w))"
  by (rule calls_onlyI[where new = "[UpdateIntegrationTokens x toks]"])
     (simp_all add: updateIntegrationTokens_def Let_def split: option.splits)

lemma refresh_is_called:
  assumes "truthy (integration.access_token i)" "expiresAt i - clock w \<le> 300000"
    "truthy (integration.refresh_token i)" "0 < retryAttempts cfg"
  shows "RefreshGrant (integration.refresh_token i) (client_id i) (client_secret i) 0 \<in>
           set (calls_between w (snd (ensureValidToken ev cfg i w)))"
proof -
  let ?r = "refreshAccessToken ev cfg (integration.refresh_token i) (client_id i) (client_secret i) w"
  let ?G = "RefreshGrant (integration.refresh_token i) (client_id i) (client_secret i)"
  obtain k where "calls_between w (snd ?r) = map ?G [0..<Suc k]"
    using refreshAccessToken_calls[OF assms(4)] by blast
  then have in1: "?G 0 \<in> set (calls_between w (snd ?r))"
    by (simp del: upt_Suc)
  have in2: "?G 0 \<in> set (calls_between w (snd (updateIntegrationTokens ev x toks (snd ?r))))"
    for x toks
    using calls_between_trans[OF
        calls_refreshAccessToken[of "integration.refresh_token i" "client_id i" "client_secret i" w ev cfg]
        calls_updateIntegrationTokens[of x toks "snd ?r" ev]] in1
    by simp
  show ?thesis
    unfolding ensureValidToken_refresh[OF assms(1,2,3)]
    using in1 in2 by (cases ?r) (auto split: sum.splits)
qed

lemma refresh_persists:
  assumes "truthy (integration.access_token i)" "expiresAt i - clock w \<le> 300000"
    "truthy (integration.refresh_token i)"
    and r: "refreshAccessToken ev cfg (integration.refresh_token i) (client_id i)
              (client_secret i) w = (Inr newTokens, w1)"
    and t: "token_json.access_token newTokens = Some t"
    and e: "token_json.expires_in newTokens = Some seconds"
    and v: "valid_date (clock w1 + seconds * 1000)"
    and db: "db_error ev (UpdateIntegrationTokens (integration.uid i) (refreshed_tokens i newTokens)) = None"
  shows "fst (ensureValidToken ev cfg i w) = Inr (Some t)"
    and "integrations (snd (ensureValidToken ev cfg i w)) =
           map (\<lambda>r. if integration.uid r = integration.uid i
                     then r\<lparr>integration.access_token := Some t,
                            integration.refresh_token :=
                              js_or (token_json.refresh_token newTokens) (integration.refresh_token i),
                            token_expires_at := Some (clock w1 + seconds * 1000),
                            integration.updated_at := clock w1\<rparr>
                     else r) (integrations w)"
proof -
  have w1: "integrations w1 = integrations w"
    using r by (auto simp: refreshAccessToken_def Let_def)
  have e': "tokens.expires_in (refreshed_tokens i newTokens) = Some seconds"
    using e by (simp add: refreshed_tokens_def)
  have rt: "js_or (tokens.refresh_token (refreshed_tokens i newTokens)) old =
            js_or (token_json.refresh_token newTokens) (integration.refresh_token i)" for old
    using assms(3) by (simp add: refreshed_tokens_def js_or_def)
  have at: "overwrite (tokens.access_token (refreshed_tokens i newTokens)) old = Some t" for old
    using t by (simp add: refreshed_tokens_def overwrite_def)
  show "fst (ensureValidToken ev cfg i w) = Inr (Some t)"
    unfolding ensureValidToken_refresh[OF assms(1,2,3)] r using t by simp
  show "integrations (snd (ensureValidToken ev cfg i w)) =
           map (\<lambda>r. if integration.uid r = integration.uid i
                     then r\<lparr>integration.access_token := Some t,
                            integration.refresh_token :=
                              js_or (token_json.refresh_token newTokens) (integration.refresh_token i),
                            token_expires_at := Some (clock w1 + seconds * 1000),
                            integration.updated_at := clock w1\<rparr>
                     else r) (integrations w)"
    unfolding ensureValidToken_refresh[OF assms(1,2,3)] r
    by (simp add: integrations_updateIntegrationTokens[OF e' v db] rt at w1)
qed

lemma refresh_not_persisted:
  assumes "truthy (integration.access_token i)" "expiresAt i - clock w \<le> 300000"
    "truthy (integration.refresh_token i)"
    and r: "refreshAccessToken ev cfg (integration.refresh_token i) (client_id i)
              (client_secret i) w = (Inr newTokens, w1)"
    and e: "\<forall>seconds. token_json.expires_in newTokens = Some seconds \<longrightarrow>
              \<not> valid_date (clock w1 + seconds * 1000)"
  shows "fst (ensureValidToken ev cfg i w) = Inr (token_json.access_token newTokens)"
    and "integrations (snd (ensureValidToken ev cfg i w)) = integrations w"
proof -
  have w1: "integrations w1 = integrations w"
    using r by (auto simp: refreshAccessToken_def Let_def)
  have e': "\<forall>seconds. tokens.expires_in (refreshed_tokens i newTokens) = Some seconds \<longrightarrow>
              \<not> valid_date (clock w1 + seconds * 1000)"
    using e by (simp add: refreshed_tokens_def)
  show "fst (ensureValidToken ev cfg i w) = Inr (token_json.access_token newTokens)"
    unfolding ensureValidToken_refresh[OF assms(1,2,3)] r by simp
  show "integrations (snd (ensureValidToken ev cfg i w)) = integrations w"
    unfolding ensureValidToken_refresh[OF assms(1,2,3)] r
    by (simp add: updateIntegrationTokens_invalid_date[OF e'] w1 record_call_def)
qed

text \<open>
  Claim C6. For an integration that holds an access token: when the expiry lies more than
  five minutes after the current time, \<^verbatim>\<open>ensureValidToken\<close> returns the stored access
  token, makes no call and writes nothing. When the expiry minus the current time is at most
  five minutes and there is no refresh token, it throws an error, again without any call.
  When there is a refresh token, the refresh grant is requested (through \<^verbatim>\<open>withRetry\<close>);
  and when the grant answers with an access token and a lifetime that ends within the range
  of \<^verbatim>\<open>Date\<close>, and the store accepts the update, the new access token is returned and the
  row of the integration receives the new access token, the rotated refresh token (or the old
  one when none came back) and the expiry \<open>now + expires_in * 1000\<close>, while no other row
  changes. When the grant answers without a lifetime, or with one that ends beyond the range
  of \<^verbatim>\<open>Date\<close>, the new access token is returned all the same and no row changes.
\<close>

theorem token_refresh_boundary:
  assumes "truthy (integration.access_token i)"
  shows "(\<not> expiresAt i - clock w \<le> 300000 \<longrightarrow>
            ensureValidToken ev cfg i w = (Inr (integration.access_token i), w)) \<and>
         (expiresAt i - clock w \<le> 300000 \<and> \<not> truthy (integration.refresh_token i) \<longrightarrow>
            ensureValidToken ev cfg i w =
              (Inl (Error (Some ''No refresh token available'')), w)) \<and>
         (expiresAt i - clock w \<le> 300000 \<and> truthy (integration.refresh_token i) \<and>
          0 < retryAttempts cfg \<longrightarrow>
            RefreshGrant (integration.refresh_token i) (client_id i) (client_secret i) 0 \<in>
              set (calls_between w (snd (ensureValidToken ev cfg i w)))) \<and>
         (\<forall>newTokens w1 t seconds.
            expiresAt i - clock w \<le> 300000 \<and> truthy (integration.refresh_token i) \<and>
            refreshAccessToken ev cfg (integration.refresh_token i) (client_id i)
              (client_secret i) w = (Inr newTokens, w1) \<and>
            token_json.access_token newTokens = Some t \<and>
            token_json.expires_in newTokens = Some seconds \<and>
            valid_date (clock w1 + seconds * 1000) \<and>
            db_error ev (UpdateIntegrationTokens (integration.uid i)
                           (refreshed_tokens i newTokens)) = None \<longrightarrow>
            fst (ensureValidToken ev cfg i w) = Inr (Some t) \<and>
            integrations (snd (ensureValidToken ev cfg i w)) =
              map (\<lambda>r. if integration.uid r = integration.uid i
                        then r\<lparr>integration.access_token := Some t,
                               integration.refresh_token :=
                                 js_or (token_json.refresh_token newTokens)
                                       (integration.refresh_token i),
                               token_expires_at := Some (clock w1 + seconds * 1000),
                               integration.updated_at := clock w1\<rparr>
                        else r) (integrations w)) \<and>
         (\<forall>newTokens w1.
            expiresAt i - clock w \<le> 300000 \<and> truthy (integration.refresh_token i) \<and>
            refreshAccessToken ev cfg (integration.refresh_token i) (client_id i)
              (client_secret i) w = (Inr newTokens, w1) \<and>
            (\<forall>seconds. token_json.expires_in newTokens = Some seconds \<longrightarrow>
                       \<not> valid_date (clock w1 + seconds * 1000)) \<longrightarrow>
            fst (ensureValidToken ev cfg i w) = Inr (token_json.access_token newTokens) \<and>
            integrations (snd (ensureValidToken ev cfg i w)) = integrations w)"
proof -
  have c4: "\<forall>newTokens w1 t seconds.
            expiresAt i - clock w \<le> 300000 \<and> truthy (integration.refresh_token i) \<and>
            refreshAccessToken ev cfg (integration.refresh_token i) (client_id i)
              (client_secret i) w = (Inr newTokens, w1) \<and>
            token_json.access_token newTokens = Some t \<and>
            token_json.expires_in newTokens = Some seconds \<and>
            valid_date (clock w1 + seconds * 1000) \<and>
            db_error ev (UpdateIntegrationTokens (integration.uid i)
                           (refreshed_tokens i newTokens)) = None \<longrightarrow>
            fst (ensureValidToken ev cfg i w) = Inr (Some t) \<and>
            integrations (snd (ensureValidToken ev cfg i w)) =
              map (\<lambda>r. if integration.uid r = integration.uid i
                        then r\<lparr>integration.access_token := Some t,
                               integration.refresh_token :=
                                 js_or (token_json.refresh_token newTokens)
                                       (integration.refresh_token i),
                               token_expires_at := Some (clock w1 + seconds * 1000),
                               integration.updated_at := clock w1\<rparr>
                        else r) (integrations w)"
    using refresh_persists[OF assms] by (intro allI impI; (elim conjE)?) blast
  have c5: "\<forall>newTokens w1.
            expiresAt i - clock w \<le> 300000 \<and> truthy (integration.refresh_token i) \<and>
            refreshAccessToken ev cfg (integration.refresh_token i) (client_id i)
              (client_secret i) w = (Inr newTokens, w1) \<and>
            (\<forall>seconds. token_json.expires_in newTokens = Some seconds \<longrightarrow>
                       \<not> valid_date (clock w1 + seconds * 1000)) \<longrightarrow>
            fst (ensureValidToken ev cfg i w) = Inr (token_json.access_token newTokens) \<and>
            integrations (snd (ensureValidToken ev cfg i w)) = integrations w"
    using refresh_not_persisted[OF assms] by (intro allI impI; (elim conjE)?) blast
  show ?thesis
    using ensureValidToken_fresh[OF assms] ensureValidToken_no_refresh_token[OF assms]
      refresh_is_called[OF assms]
    by (intro conjI c4 c5 impI; (elim conjE)?) blast+
qed

lemma example_integration_fields:
  "integration.uid example_integration = ''i1''"
  "integration.company_id example_integration = ''c1''"
  "integration.access_token example_integration = Some ''token''"
  "integration.refresh_token example_integration = Some ''refresh''"
  "client_id example_integration = ''client''"
  "client_secret example_integration = ''secret''"
  "calendar_id example_integration = ''primary''"
  "sync_token example_integration = None"
  by (simp_all add: example_integration_def)

lemma expiring_fields:
  "truthy (integration.access_token expiring_integration)"
  "truthy (integration.refresh_token expiring_integration)"
  "expiresAt expiring_integration = 1240000"
  "integration.uid expiring_integration = ''i1''"
  "integration.refresh_token expiring_integration = Some ''refresh''"
  "client_id expiring_integration = ''client''"
  "client_secret expiring_integration = ''secret''"
  by (simp_all add: expiring_integration_def example_integration_fields truthy_def expiresAt_def)

lemma lasting_fields:
  "truthy (integration.access_token lasting_integration)"
  "expiresAt lasting_integration = 1360000"
  "integration.access_token lasting_integration = Some ''token''"
  by (simp_all add: lasting_integration_def example_integration_fields truthy_def expiresAt_def)

lemma example_world_fields:
  "clock example_world = 1000000"
  "appointments example_world = [example_appointment]"
  "integrations example_world = [example_integration]"
  "trace example_world = []"
  by (simp_all add: example_world_def)

lemma refreshing_env_fields:
  "db_error refreshing_env c = None"
  "fetch_token refreshing_env c =
     Inr \<lparr>response.status = 200, body_text = '''', body_json = Inr fresh_tokens\<rparr>"
  by (simp_all add: refreshing_env_def quiet_env_def)

lemma fresh_grant:
  "refreshAccessToken refreshing_env example_config (Some ''refresh'') ''client'' ''secret'' w =
     (Inr fresh_tokens,
      w\<lparr>trace := trace w @ [RefreshGrant (Some ''refresh'') ''client'' ''secret'' 0]\<rparr>)"
  by (simp add: refreshAccessToken_def refreshAccessToken_attempt_def refreshing_env_fields
        ok_def example_config_def withRetry_def withRetry_loop.simps after_retry_def)

lemma endless_grant:
  "refreshAccessToken endless_env example_config (Some ''refresh'') ''client'' ''secret'' w =
     (Inr endless_tokens,
      w\<lparr>trace := trace w @ [RefreshGrant (Some ''refresh'') ''client'' ''secret'' 0]\<rparr>)"
  by (simp add: refreshAccessToken_def refreshAccessToken_attempt_def endless_env_def quiet_env_def
        ok_def example_config_def withRetry_def withRetry_loop.simps after_retry_def)

theorem token_refresh_boundary_witness:
  "truthy (integration.access_token lasting_integration) \<and>
   expiresAt lasting_integration - clock example_world = 6 * 60 * 1000 \<and>
   ensureValidToken refreshing_env example_config lasting_integration example_world =
     (Inr (Some ''token''), example_world) \<and>
   truthy (integration.access_token expiring_integration) \<and>
   expiresAt expiring_integration - clock example_world = 4 * 60 * 1000 \<and>
   RefreshGrant (Some ''refresh'') ''client'' ''secret'' 0 \<in>
     set (calls_between example_world
            (snd (ensureValidToken refreshing_env example_config expiring_integration example_world))) \<and>
   fst (ensureValidToken refreshing_env example_config expiring_integration example_world) =
     Inr (Some ''fresh'') \<and>
   map integration.access_token (integrations
      (snd (ensureValidToken refreshing_env example_config expiring_integration example_world))) =
     [Some ''fresh''] \<and>
   map integration.refresh_token (integrations
      (snd (ensureValidToken refreshing_env example_config expiring_integration example_world))) =
     [Some ''refresh''] \<and>
   map token_expires_at (integrations
      (snd (ensureValidToken refreshing_env example_config expiring_integration example_world))) =
     [Some 4600000] \<and>
   valid_date (clock example_world + 3600 * 1000) \<and>
   \<not> valid_date (clock example_world + 9000000000000 * 1000) \<and>
   fst (ensureValidToken endless_env example_config expiring_integration example_world) =
     Inr (Some ''fresh'') \<and>
   integrations
      (snd (ensureValidToken endless_env example_config expiring_integration example_world)) =
     [example_integration]"
proof -
  note L = token_refresh_boundary [OF lasting_fields(1), where w = example_world
      and ev = refreshing_env and cfg = example_config]
  note E = token_refresh_boundary [OF expiring_fields(1), where w = example_world
      and ev = refreshing_env and cfg = example_config]
  have l1: "expiresAt lasting_integration - clock example_world = 6 * 60 * 1000"
    by (simp add: lasting_fields example_world_fields)
  have e1: "expiresAt expiring_integration - clock example_world = 4 * 60 * 1000"
    by (simp add: expiring_fields example_world_fields)
  have l2: "ensureValidToken refreshing_env example_config lasting_integration example_world =
     (Inr (Some ''token''), example_world)"
    using L [THEN conjunct1] l1 by (simp add: lasting_fields)
  have cfg: "0 < retryAttempts example_config" by (simp add: example_config_def)
  have e2: "RefreshGrant (Some ''refresh'') ''client'' ''secret'' 0 \<in>
     set (calls_between example_world
            (snd (ensureValidToken refreshing_env example_config expiring_integration example_world)))"
    using E [THEN conjunct2, THEN conjunct2, THEN conjunct1] e1 cfg
    by (simp add: expiring_fields truthy_def)
  let ?w1 = "example_world\<lparr>trace := trace example_world @
                [RefreshGrant (Some ''refresh'') ''client'' ''secret'' 0]\<rparr>"
  have pre: "expiresAt expiring_integration - clock example_world \<le> 300000 \<and>
      truthy (integration.refresh_token expiring_integration) \<and>
      refreshAccessToken refreshing_env example_config (integration.refresh_token expiring_integration)
        (client_id expiring_integration) (client_secret expiring_integration) example_world =
        (Inr fresh_tokens, ?w1) \<and>
      token_json.access_token fresh_tokens = Some ''fresh'' \<and>
      token_json.expires_in fresh_tokens = Some 3600 \<and>
      valid_date (clock ?w1 + 3600 * 1000) \<and>
      db_error refreshing_env (UpdateIntegrationTokens (integration.uid expiring_integration)
          (refreshed_tokens expiring_integration fresh_tokens)) = None"
    using e1
    by (simp add: expiring_fields fresh_grant refreshing_env_fields fresh_tokens_def truthy_def
          valid_date_def example_world_fields)
  from E [THEN conjunct2, THEN conjunct2, THEN conjunct2, THEN conjunct1] pre
  have e3: "fst (ensureValidToken refreshing_env example_config expiring_integration example_world) =
              Inr (Some ''fresh'') \<and>
            integrations (snd (ensureValidToken refreshing_env example_config expiring_integration
                                example_world)) =
              map (\<lambda>r. if integration.uid r = integration.uid expiring_integration
                        then r\<lparr>integration.access_token := Some ''fresh'',
                               integration.refresh_token :=
                                 js_or (token_json.refresh_token fresh_tokens)
                                       (integration.refresh_token expiring_integration),
                               token_expires_at := Some (clock ?w1 + 3600 * 1000),
                               integration.updated_at := clock ?w1\<rparr>
                        else r) (integrations example_world)"
    by blast
  have rt: "js_or (token_json.refresh_token fresh_tokens) (Some ''refresh'') = Some ''refresh''"
    by (simp add: js_or_def truthy_def fresh_tokens_def)
  have rows: "integrations (snd (ensureValidToken refreshing_env example_config expiring_integration
                                example_world)) =
      [example_integration\<lparr>integration.access_token := Some ''fresh'',
                            integration.refresh_token := Some ''refresh'',
                            token_expires_at := Some 4600000,
                            integration.updated_at := 1000000\<rparr>]"
    using e3 by (simp add: rt example_world_fields example_integration_fields expiring_fields)
  have v1: "valid_date (clock example_world + 3600 * 1000)"
    by (simp add: valid_date_def example_world_fields)
  have v2: "\<not> valid_date (clock example_world + 9000000000000 * 1000)"
    by (simp add: valid_date_def example_world_fields)
  note N = token_refresh_boundary [OF expiring_fields(1), where w = example_world
      and ev = endless_env and cfg = example_config]
  have pre': "expiresAt expiring_integration - clock example_world \<le> 300000 \<and>
      truthy (integration.refresh_token expiring_integration) \<and>
      refreshAccessToken endless_env example_config (integration.refresh_token expiring_integration)
        (client_id expiring_integration) (client_secret expiring_integration) example_world =
        (Inr endless_tokens, ?w1) \<and>
      (\<forall>seconds. token_json.expires_in endless_tokens = Some seconds \<longrightarrow>
                 \<not> valid_date (clock ?w1 + seconds * 1000))"
    using e1 v2
    by (simp add: expiring_fields endless_grant endless_tokens_def truthy_def)
  from N [THEN conjunct2, THEN conjunct2, THEN conjunct2, THEN conjunct2] pre'
  have n3: "fst (ensureValidToken endless_env example_config expiring_integration example_world) =
              Inr (token_json.access_token endless_tokens) \<and>
            integrations (snd (ensureValidToken endless_env example_config expiring_integration
                                example_world)) = integrations example_world"
    by blast
  have n1: "fst (ensureValidToken endless_env example_config expiring_integration example_world) =
              Inr (Some ''fresh'')"
    using n3 [THEN conjunct1] by (simp add: endless_tokens_def fresh_tokens_def)
  have n2: "integrations
      (snd (ensureValidToken endless_env example_config expiring_integration example_world)) =
     [example_integration]"
    using n3 [THEN conjunct2] by (simp add: example_world_fields)
  show ?thesis
    using lasting_fields(1) l1 l2 expiring_fields(1) e1 e2 e3 [THEN conjunct1] v1 v2 n1 n2
    by (simp add: rows)
qed

subsection \<open>Phase B: the pass and the cursor\<close>

lemma getAppointmentByGoogleEventId_world:
  "snd (getAppointmentByGoogleEventId ev cid g w) = record_call (GetAppointmentByGoogleEventId cid g) w"
  by (simp add: getAppointmentByGoogleEventId_def Let_def split: option.splits list.splits)

lemma getCompanyAdminUser_world:
  "snd (getCompanyAdminUser ev cid w) = record_call (GetCompanyAdminUser cid) w"
  by (simp add: getCompanyAdminUser_def Let_def split: option.splits list.splits)

lemma integrations_cancelAppointment [simp]:
  "integrations (snd (cancelAppointment ev x w)) = integrations w"
  by (simp add: cancelAppointment_def Let_def split: option.splits)

lemma calls_getAppointmentByGoogleEventId:
  "calls_only pull_call w (snd (getAppointmentByGoogleEventId ev cid g w))"
  unfolding getAppointmentByGoogleEventId_world
  by (rule calls_only_record) (simp add: pull_call_def)

lemma getCompanyAdminUser_frame [simp]:
  "trace (snd (getCompanyAdminUser ev cid w)) = trace w @ [GetCompanyAdminUser cid]"
  "integrations (snd (getCompanyAdminUser ev cid w)) = integrations w"
  "appointments (snd (getCompanyAdminUser ev cid w)) = appointments w"
  by (simp_all add: getCompanyAdminUser_world)

lemma upsertAppointment_trace:
  "trace (snd (upsertAppointment ev d w)) =
     trace w @ (if truthy (appointmentData.created_by d) then [UpsertAppointment d]
                else [UpsertAppointment d, GetCompanyAdminUser (appointmentData.company_id d)])"
proof (cases "truthy (appointmentData.created_by d)")
  case True
  then show ?thesis
    by (simp add: upsertAppointment_def Let_def split: option.splits list.splits)
next
  case False
  let ?g = "getCompanyAdminUser ev (appointmentData.company_id d) (record_call (UpsertAppointment d) w)"
  have "trace (snd ?g) = trace w @ [UpsertAppointment d, GetCompanyAdminUser (appointmentData.company_id d)]"
    by simp
  then show ?thesis
    using False
    by (cases ?g; cases "fst ?g")
       (simp_all add: upsertAppointment_def Let_def split: option.splits list.splits)
qed

lemma upsertAppointment_integrations:
  "integrations (snd (upsertAppointment ev d w)) = integrations w"
proof (cases "truthy (appointmentData.created_by d)")
  case True
  then show ?thesis
    by (simp add: upsertAppointment_def Let_def split: option.splits list.splits)
next
  case False
  let ?g = "getCompanyAdminUser ev (appointmentData.company_id d) (record_call (UpsertAppointment d) w)"
  have "integrations (snd ?g) = integrations w" by simp
  then show ?thesis
    using False
    by (cases ?g; cases "fst ?g")
       (simp_all add: upsertAppointment_def Let_def split: option.splits list.splits)
qed

lemma calls_upsertAppointment:
  "calls_only pull_call w (snd (upsertAppointment ev d w))"
  by (rule calls_onlyI[OF upsertAppointment_trace]) (simp add: pull_call_def)

lemma upsertAppointment_throws_Error:
  "fst (upsertAppointment ev d w) \<noteq> Inl Undefined"
  by (simp add: upsertAppointment_def Let_def split: option.splits list.splits prod.splits)

lemma through_sum [simp]:
  "snd (case r of (Inl e, w) \<Rightarrow> (f e, w) | (Inr v, w) \<Rightarrow> (g v, w)) = snd r"
  "fst (case r of (Inl e, w) \<Rightarrow> (f e, w) | (Inr v, w) \<Rightarrow> (g v, w)) =
     (case fst r of Inl e \<Rightarrow> f e | Inr v \<Rightarrow> g v)"
  by (cases r; cases "fst r"; simp)+

lemma through_pair [simp]:
  "snd (case r of (a, w) \<Rightarrow> (c, w)) = snd r"
  "fst (case r of (a, w) \<Rightarrow> (c, w)) = c"
  by (cases r; simp)+

lemma upsertFromEvent_frame:
  "calls_only pull_call w (snd (upsertAppointmentFromGoogleEvent ev cid e w))"
  "integrations (snd (upsertAppointmentFromGoogleEvent ev cid e w)) = integrations w"
  "fst (upsertAppointmentFromGoogleEvent ev cid e w) \<noteq> Inl Undefined"
proof -
  let ?w1 = "record_call (GetAppointmentByGoogleEventId cid (google_event.uid e)) w"
  obtain x where g: "getAppointmentByGoogleEventId ev cid (google_event.uid e) w = (x, ?w1)"
    using getAppointmentByGoogleEventId_world[of ev cid "google_event.uid e" w]
    by (cases "getAppointmentByGoogleEventId ev cid (google_event.uid e) w") simp
  have 1: "calls_only pull_call w ?w1"
    by (rule calls_only_record) (simp add: pull_call_def)
  have 2: "calls_only pull_call w (snd (upsertAppointment ev d ?w1))" for d
    by (rule calls_only_trans[OF 1 calls_upsertAppointment])
  have 3: "integrations (snd (upsertAppointment ev d ?w1)) = integrations w" for d
    by (simp add: upsertAppointment_integrations)
  have 4: "(case fst (upsertAppointment ev d ?w1) of Inl err \<Rightarrow> Inl err | Inr row \<Rightarrow> Inr ())
             \<noteq> Inl Undefined" for d
    using upsertAppointment_throws_Error[of ev d ?w1]
    by (cases "fst (upsertAppointment ev d ?w1)") auto
  show "calls_only pull_call w (snd (upsertAppointmentFromGoogleEvent ev cid e w))"
    unfolding upsertAppointmentFromGoogleEvent_def g
    by (simp add: Let_def 1 2 split: option.splits)
  show "integrations (snd (upsertAppointmentFromGoogleEvent ev cid e w)) = integrations w"
    unfolding upsertAppointmentFromGoogleEvent_def g
    by (simp add: Let_def 3 split: option.splits)
  show "fst (upsertAppointmentFromGoogleEvent ev cid e w) \<noteq> Inl Undefined"
    unfolding upsertAppointmentFromGoogleEvent_def g
    by (simp add: Let_def 4 TypeError_dateTime_def split: option.splits)
qed

lemma processGoogleEvent_frame:
  "fst (processGoogleEvent ev cid e w) = Inr ()"
  "calls_only pull_call w (snd (processGoogleEvent ev cid e w))"
  "integrations (snd (processGoogleEvent ev cid e w)) = integrations w"
proof -
  let ?w1 = "record_call (GetAppointmentByGoogleEventId cid (google_event.uid e)) w"
  obtain x where g: "getAppointmentByGoogleEventId ev cid (google_event.uid e) w = (x, ?w1)"
    using getAppointmentByGoogleEventId_world[of ev cid "google_event.uid e" w]
    by (cases "getAppointmentByGoogleEventId ev cid (google_event.uid e) w") simp
  have 1: "calls_only pull_call w ?w1"
    by (rule calls_only_record) (simp add: pull_call_def)
  have 2: "calls_only pull_call w (snd (cancelAppointment ev y ?w1))" for y
    by (rule calls_only_trans[OF 1 calls_only_mono[OF calls_cancelAppointment]])
       (simp add: pull_call_def)
  have u: "(case fst (upsertAppointmentFromGoogleEvent ev cid e w) of
              Inl err \<Rightarrow> catch_log err | Inr u \<Rightarrow> Inr ()) = Inr ()"
    using upsertFromEvent_frame(3)[of ev cid e w]
    by (cases "fst (upsertAppointmentFromGoogleEvent ev cid e w)")
       (auto simp: catch_log_def split: thrown.splits)
  show "fst (processGoogleEvent ev cid e w) = Inr ()"
    unfolding processGoogleEvent_def g
    by (cases x) (simp_all add: u)
  show "calls_only pull_call w (snd (processGoogleEvent ev cid e w))"
    unfolding processGoogleEvent_def g
    by (cases x) (simp_all add: 1 2 upsertFromEvent_frame(1))
  show "integrations (snd (processGoogleEvent ev cid e w)) = integrations w"
    unfolding processGoogleEvent_def g
    by (cases x) (simp_all add: upsertFromEvent_frame(2))
qed

lemma process_events_result:
  "fst (process_events ev cid es n w) = Inr (n + length es)"
proof (induction es arbitrary: n w)
  case Nil
  show ?case by simp
next
  case (Cons e es)
  obtain w1 where p: "processGoogleEvent ev cid e w = (Inr (), w1)"
    using processGoogleEvent_frame(1)[of ev cid e w]
    by (cases "processGoogleEvent ev cid e w") simp
  show ?case using p Cons.IH[of "n + 1" w1] by simp
qed

lemma process_events_calls:
  "calls_only pull_call w (snd (process_events ev cid es n w))"
proof (induction es arbitrary: n w)
  case Nil
  show ?case by (simp add: calls_only_refl)
next
  case (Cons e es)
  obtain w1 where p: "processGoogleEvent ev cid e w = (Inr (), w1)"
    using processGoogleEvent_frame(1)[of ev cid e w]
    by (cases "processGoogleEvent ev cid e w") simp
  have "calls_only pull_call w w1"
    using processGoogleEvent_frame(2)[of w ev cid e] p by simp
  then show ?case using p calls_only_trans[OF _ Cons.IH[of w1 "n + 1"]] by simp
qed

lemma process_events_integrations:
  "integrations (snd (process_events ev cid es n w)) = integrations w"
proof (induction es arbitrary: n w)
  case Nil
  show ?case by simp
next
  case (Cons e es)
  obtain w1 where p: "processGoogleEvent ev cid e w = (Inr (), w1)"
    using processGoogleEvent_frame(1)[of ev cid e w]
    by (cases "processGoogleEvent ev cid e w") simp
  have "integrations w1 = integrations w"
    using processGoogleEvent_frame(3)[of ev cid e w] p by simp
  then show ?case using p Cons.IH[of "n + 1" w1] by simp
qed

lemma calls_fetchGoogleCalendarEvents:
  "calls_only (\<lambda>c. \<exists>n. c = ListEvents tok cal ps n) w
     (snd (fetchGoogleCalendarEvents ev cfg tok cal ps w))"
  unfolding fetchGoogleCalendarEvents_def Let_def snd_conv
  by (rule calls_only_after_retry) blast

lemma integrations_fetchGoogleCalendarEvents [simp]:
  "integrations (snd (fetchGoogleCalendarEvents ev cfg tok cal ps w)) = integrations w"
  by (simp add: fetchGoogleCalendarEvents_def Let_def)

lemma updateIntegrationSyncData_frame:
  "trace (snd (updateIntegrationSyncData ev x t w)) = trace w @ [UpdateIntegrationSyncData x t]"
  "db_error ev (UpdateIntegrationSyncData x t) = None \<Longrightarrow>
   integrations (snd (updateIntegrationSyncData ev x t w)) =
     map (\<lambda>r. if integration.uid r = x
               then r\<lparr>sync_token := Some t, last_sync_at := Some (clock w),
                      integration.updated_at := clock w\<rparr>
               else r) (integrations w)"
  by (simp_all add: updateIntegrationSyncData_def Let_def split: option.splits)

lemma no_cursor_persist:
  assumes "calls_only P w w'" "\<And>c. P c \<Longrightarrow> \<not> cursor_persist c"
  shows "filter cursor_persist (calls_between w w') = []"
  using calls_only_all[OF assms(1)] assms(2) by (auto simp: list_all_iff filter_empty_conv)

lemma pull_pass:
  assumes f: "fetchGoogleCalendarEvents ev cfg tok (calendar_id i) (buildSyncParams i w) w =
               (Inr eventsData, w1)"
  defines "w2 \<equiv> snd (process_events ev (integration.company_id i) (events_of eventsData) 0 w1)"
  shows "syncGoogleEventsToLocal ev cfg i tok w =
           (Inr (length (events_of eventsData)),
            if truthy (nextSyncToken eventsData)
            then snd (updateIntegrationSyncData ev (integration.uid i)
                        (template (nextSyncToken eventsData)) w2)
            else w2)"
    and "filter cursor_persist (calls_between w w2) = []"
    and "calls_only (\<lambda>c. True) w w2"
    and "integrations w2 = integrations w"
proof -
  let ?p = "process_events ev (integration.company_id i) (events_of eventsData) 0 w1"
  have p: "?p = (Inr (length (events_of eventsData)), w2)"
    using process_events_result[of ev "integration.company_id i" "events_of eventsData" 0 w1]
    unfolding w2_def by (cases ?p) simp
  show "syncGoogleEventsToLocal ev cfg i tok w =
           (Inr (length (events_of eventsData)),
            if truthy (nextSyncToken eventsData)
            then snd (updateIntegrationSyncData ev (integration.uid i)
                        (template (nextSyncToken eventsData)) w2)
            else w2)"
    using f p
    by (simp add: syncGoogleEventsToLocal_def Let_def events_of_def split: prod.splits)
  have c1: "calls_only (\<lambda>c. \<exists>n. c = ListEvents tok (calendar_id i) (buildSyncParams i w) n) w w1"
    using calls_fetchGoogleCalendarEvents[of tok "calendar_id i" "buildSyncParams i w" w ev cfg] f
    by simp
  have c2: "calls_only pull_call w1 w2"
    unfolding w2_def by (rule process_events_calls)
  have n1: "filter cursor_persist (calls_between w w1) = []"
    by (rule no_cursor_persist[OF c1]) (auto simp: cursor_persist_def)
  have n2: "filter cursor_persist (calls_between w1 w2) = []"
    by (rule no_cursor_persist[OF c2]) (auto simp: cursor_persist_def pull_call_def split: call.splits)
  show "filter cursor_persist (calls_between w w2) = []"
    unfolding calls_between_trans[OF c1 c2] using n1 n2 by simp
  show "calls_only (\<lambda>c. True) w w2"
    by (rule calls_only_trans[OF calls_only_mono[OF c1] calls_only_mono[OF c2]]) simp_all
  have "integrations w1 = integrations w"
    using integrations_fetchGoogleCalendarEvents[of ev cfg tok "calendar_id i" "buildSyncParams i w" w] f
    by simp
  then show "integrations w2 = integrations w"
    unfolding w2_def by (simp add: process_events_integrations)
qed

text \<open>
  Claim C2. Let the listing of a Phase B pass return a response. The loop over its items never
  throws, whatever happens to the individual upserts, and the pass returns the number of
  items. If the response carries a \<^verbatim>\<open>nextSyncToken\<close>, then the pass ends with
  \<^verbatim>\<open>updateIntegrationSyncData\<close>, called on the state the loop left: it is the last call of
  the pass and the only cursor write in it, and when the store accepts it the integration's
  \<^verbatim>\<open>sync_token\<close> is the new token. If the response carries none, the pass makes no cursor
  write and leaves the integrations as they were.
\<close>

theorem cursor_persisted_once:
  assumes "fetchGoogleCalendarEvents ev cfg tok (calendar_id i) (buildSyncParams i w) w =
             (Inr eventsData, w1)"
  shows "fst (syncGoogleEventsToLocal ev cfg i tok w) = Inr (length (events_of eventsData)) \<and>
         (truthy (nextSyncToken eventsData) \<longrightarrow>
            snd (syncGoogleEventsToLocal ev cfg i tok w) =
              snd (updateIntegrationSyncData ev (integration.uid i)
                     (template (nextSyncToken eventsData)) (after_events ev i eventsData w1)) \<and>
            trace (snd (syncGoogleEventsToLocal ev cfg i tok w)) =
              trace (after_events ev i eventsData w1) @
              [UpdateIntegrationSyncData (integration.uid i) (template (nextSyncToken eventsData))] \<and>
            filter cursor_persist (calls_between w (snd (syncGoogleEventsToLocal ev cfg i tok w))) =
              [UpdateIntegrationSyncData (integration.uid i) (template (nextSyncToken eventsData))] \<and>
            (db_error ev (UpdateIntegrationSyncData (integration.uid i)
                            (template (nextSyncToken eventsData))) = None \<longrightarrow>
               (\<forall>r\<in>set (integrations (snd (syncGoogleEventsToLocal ev cfg i tok w))).
                  integration.uid r = integration.uid i \<longrightarrow>
                  sync_token r = nextSyncToken eventsData))) \<and>
         (\<not> truthy (nextSyncToken eventsData) \<longrightarrow>
            snd (syncGoogleEventsToLocal ev cfg i tok w) = after_events ev i eventsData w1 \<and>
            filter cursor_persist (calls_between w (snd (syncGoogleEventsToLocal ev cfg i tok w))) = [] \<and>
            integrations (snd (syncGoogleEventsToLocal ev cfg i tok w)) = integrations w)"
proof -
  let ?w2 = "after_events ev i eventsData w1"
  let ?t = "template (nextSyncToken eventsData)"
  let ?u = "UpdateIntegrationSyncData (integration.uid i) ?t"
  let ?w3 = "snd (updateIntegrationSyncData ev (integration.uid i) ?t ?w2)"
  note P = pull_pass[OF assms, folded after_events_def]
  have r: "fst (syncGoogleEventsToLocal ev cfg i tok w) = Inr (length (events_of eventsData))"
    by (simp add: P(1))
  have yes: "snd (syncGoogleEventsToLocal ev cfg i tok w) = ?w3 \<and>
      trace (snd (syncGoogleEventsToLocal ev cfg i tok w)) = trace ?w2 @ [?u] \<and>
      filter cursor_persist (calls_between w (snd (syncGoogleEventsToLocal ev cfg i tok w))) = [?u] \<and>
      (db_error ev ?u = None \<longrightarrow>
         (\<forall>r\<in>set (integrations (snd (syncGoogleEventsToLocal ev cfg i tok w))).
            integration.uid r = integration.uid i \<longrightarrow> sync_token r = nextSyncToken eventsData))"
    if t: "truthy (nextSyncToken eventsData)"
  proof -
    have s: "snd (syncGoogleEventsToLocal ev cfg i tok w) = ?w3" using t by (simp add: P(1))
    have tr: "trace ?w3 = trace ?w2 @ [?u]" by (rule updateIntegrationSyncData_frame(1))
    have c3: "calls_only (\<lambda>c. True) ?w2 ?w3"
      by (rule calls_onlyI[OF tr]) simp
    have "calls_between ?w2 ?w3 = [?u]" using tr by (simp add: calls_between_def)
    then have f: "filter cursor_persist (calls_between w ?w3) = [?u]"
      unfolding calls_between_trans[OF P(3) c3] using P(2) by (simp add: cursor_persist_def)
    have tok: "Some ?t = nextSyncToken eventsData"
      using t by (cases "nextSyncToken eventsData") (simp_all add: truthy_def template_def)
    have d: "\<forall>r\<in>set (integrations ?w3).
            integration.uid r = integration.uid i \<longrightarrow> sync_token r = nextSyncToken eventsData"
      if "db_error ev ?u = None"
      unfolding updateIntegrationSyncData_frame(2)[OF that] using tok by auto
    show ?thesis unfolding s using tr f d by blast
  qed
  have no: "snd (syncGoogleEventsToLocal ev cfg i tok w) = ?w2 \<and>
      filter cursor_persist (calls_between w (snd (syncGoogleEventsToLocal ev cfg i tok w))) = [] \<and>
      integrations (snd (syncGoogleEventsToLocal ev cfg i tok w)) = integrations w"
    if "\<not> truthy (nextSyncToken eventsData)"
    using that P(2,4) by (simp add: P(1))
  show ?thesis using r yes no by blast
qed

lemma pulling_env_fields:
  "db_error pulling_env (UpsertAppointment d) = Some ''database unavailable''"
  "db_error pulling_env (UpdateIntegrationSyncData x t) = None"
  "fetch_list pulling_env c =
     Inr \<lparr>response.status = 200, body_text = '''', body_json = Inr pulled_page\<rparr>"
  by (simp_all add: pulling_env_def quiet_env_def)

lemma pulled_page_fields:
  "events_of pulled_page = [active_event, active_event]"
  "nextSyncToken pulled_page = Some ''next''"
  "truthy (nextSyncToken pulled_page)"
  "template (nextSyncToken pulled_page) = ''next''"
  by (simp_all add: pulled_page_def events_of_def truthy_def template_def)

lemma pulling_fetch:
  "fetchGoogleCalendarEvents pulling_env example_config tok cal ps w =
     (Inr pulled_page, w\<lparr>trace := trace w @ [ListEvents tok cal ps 0]\<rparr>)"
  by (simp add: fetchGoogleCalendarEvents_def fetchGoogleCalendarEvents_attempt_def
        pulling_env_fields ok_def example_config_def withRetry_def withRetry_loop.simps
        after_retry_def)

theorem cursor_persisted_once_witness:
  "fetchGoogleCalendarEvents pulling_env example_config (Some ''token'')
     (calendar_id example_integration) (buildSyncParams example_integration example_world)
     example_world =
     (Inr pulled_page,
      example_world\<lparr>trace := trace example_world @
         [ListEvents (Some ''token'') (calendar_id example_integration)
            (buildSyncParams example_integration example_world) 0]\<rparr>) \<and>
   db_error pulling_env (UpsertAppointment
      (existing_data ''c1'' active_event
         \<lparr>dateTime = Some ''2025-01-11T10:00:00Z'', date = None\<rparr>
         \<lparr>dateTime = Some ''2025-01-11T11:00:00Z'', date = None\<rparr> example_appointment)) =
     Some ''database unavailable'' \<and>
   fst (syncGoogleEventsToLocal pulling_env example_config example_integration (Some ''token'')
          example_world) = Inr 2 \<and>
   filter cursor_persist (calls_between example_world
      (snd (syncGoogleEventsToLocal pulling_env example_config example_integration (Some ''token'')
              example_world))) = [UpdateIntegrationSyncData ''i1'' ''next''] \<and>
   list_all (\<lambda>r. integration.uid r = ''i1'' \<longrightarrow> sync_token r = Some ''next'')
     (integrations
        (snd (syncGoogleEventsToLocal pulling_env example_config example_integration
                (Some ''token'') example_world)))"
proof -
  note T = cursor_persisted_once [OF pulling_fetch, where i = example_integration
      and w = example_world and tok = "Some ''token''"]
  have r1: "fst (syncGoogleEventsToLocal pulling_env example_config example_integration
                   (Some ''token'') example_world) = Inr 2"
    using T [THEN conjunct1] by (simp add: pulled_page_fields)
  note Y = T [THEN conjunct2, THEN conjunct1, rule_format, OF pulled_page_fields(3)]
  have r2: "filter cursor_persist (calls_between example_world
      (snd (syncGoogleEventsToLocal pulling_env example_config example_integration (Some ''token'')
              example_world))) = [UpdateIntegrationSyncData ''i1'' ''next'']"
    using Y [THEN conjunct2, THEN conjunct2, THEN conjunct1]
    by (simp add: pulled_page_fields example_integration_fields template_def)
  have r3: "\<forall>r\<in>set (integrations
      (snd (syncGoogleEventsToLocal pulling_env example_config example_integration (Some ''token'')
              example_world))). integration.uid r = ''i1'' \<longrightarrow> sync_token r = Some ''next''"
    using Y [THEN conjunct2, THEN conjunct2, THEN conjunct2]
    by (simp add: pulled_page_fields example_integration_fields pulling_env_fields template_def)
  note r3' = r3 [folded list_all_iff]
  show ?thesis
    by (intro conjI pulling_fetch pulling_env_fields(1) r1 r2 r3')
qed

subsection \<open>One integration: the order of the phases\<close>

lemma catch_log_cases: "catch_log err = Inr () \<or> catch_log err = Inl TypeError_message"
  by (cases err) (simp_all add: catch_log_def)

lemma catch_log_TypeError [simp]: "catch_log TypeError_message = Inr ()"
  by (simp add: catch_log_def TypeError_message_def)

lemma catch_log_Error [simp]: "catch_log (Error m) = Inr ()"
  by (simp add: catch_log_def)

lemma push_appointment_result:
  "fst (push_appointment ev cfg i tok a w) = Inr () \<or>
   fst (push_appointment ev cfg i tok a w) = Inl TypeError_message"
proof (cases "createGoogleEvent ev cfg a i tok w")
  case (Pair r w1)
  show ?thesis
  proof (cases r)
    case (Inl err)
    then show ?thesis using Pair catch_log_cases[of err] by (simp add: push_appointment_def)
  next
    case (Inr g)
    let ?u = "updateAppointmentWithGoogleEventId ev (appointment.uid a) (google_event.uid g)
                (entryPoint_uri g) w1"
    have "fst ?u = Inr () \<or> (\<exists>m. fst ?u = Inl (Error m))"
      by (simp add: updateAppointmentWithGoogleEventId_def Let_def split: option.splits)
    then show ?thesis using Pair Inr
      by (cases ?u; cases "fst ?u") (auto simp: push_appointment_def)
  qed
qed

lemma push_appointments_result:
  "fst (push_appointments ev cfg i tok as w) = Inr () \<or>
   fst (push_appointments ev cfg i tok as w) = Inl TypeError_message"
proof (induction as arbitrary: w)
  case Nil
  show ?case by simp
next
  case (Cons a as)
  show ?case
    using push_appointment_result[of ev cfg i tok a w]
          Cons.IH[of "snd (push_appointment ev cfg i tok a w)"]
    by (cases "push_appointment ev cfg i tok a w"; cases "fst (push_appointment ev cfg i tok a w)")
       auto
qed

lemma syncLocalAppointmentsToGoogle_completes:
  "fst (syncLocalAppointmentsToGoogle ev cfg i tok w) = Inr ()"
proof -
  let ?q = "getUnsyncedLocalAppointments ev (integration.company_id i) (calendar_id i) w"
  have q: "(\<exists>rows. fst ?q = Inr rows) \<or> (\<exists>m. fst ?q = Inl (Error m))"
    by (simp add: getUnsyncedLocalAppointments_def Let_def split: option.splits)
  show ?thesis
  proof (cases ?q)
    case (Pair r w1)
    show ?thesis
    proof (cases r)
      case (Inl err)
      then obtain m where "err = Error m" using q Pair by auto
      then show ?thesis using Pair Inl by (simp add: syncLocalAppointmentsToGoogle_def)
    next
      case (Inr rows)
      show ?thesis
        using Pair Inr push_appointments_result[of ev cfg i tok rows w1]
        by (cases "push_appointments ev cfg i tok rows w1")
           (auto simp: syncLocalAppointmentsToGoogle_def)
    qed
  qed
qed

lemma sweep_appointment_result:
  "fst (sweep_appointment ev cfg i tok a w) = Inr () \<or>
   fst (sweep_appointment ev cfg i tok a w) = Inl TypeError_message"
proof (cases "checkGoogleEventExists ev cfg (probed_id a) (calendar_id i) tok w")
  case (Pair r w1)
  show ?thesis
  proof (cases r)
    case (Inl err)
    then show ?thesis using Pair catch_log_cases[of err] by (simp add: sweep_appointment_cases)
  next
    case (Inr b)
    then show ?thesis using Pair by (simp add: sweep_appointment_cases)
  qed
qed

lemma sweep_appointments_result:
  "fst (sweep_appointments ev cfg i tok as w) = Inr () \<or>
   fst (sweep_appointments ev cfg i tok as w) = Inl TypeError_message"
proof (induction as arbitrary: w)
  case Nil
  show ?case by simp
next
  case (Cons a as)
  show ?case
    using sweep_appointment_result[of ev cfg i tok a w]
          Cons.IH[of "snd (sweep_appointment ev cfg i tok a w)"]
    by (cases "sweep_appointment ev cfg i tok a w"; cases "fst (sweep_appointment ev cfg i tok a w)")
       auto
qed

lemma cleanupOrphanedAppointments_completes:
  "fst (cleanupOrphanedAppointments ev cfg i tok w) = Inr ()"
proof (cases "math_random ev (integration.uid i) < 0.1")
  case False
  then show ?thesis by (simp add: cleanupOrphanedAppointments_def Let_def)
next
  case True
  let ?w0 = "record_call (MathRandom (integration.uid i)) w"
  let ?q = "getSyncedAppointments ev (integration.company_id i) (calendar_id i) ?w0"
  have q: "(\<exists>rows. fst ?q = Inr rows) \<or> (\<exists>m. fst ?q = Inl (Error m))"
    by (simp add: getSyncedAppointments_def Let_def split: option.splits)
  show ?thesis
  proof (cases ?q)
    case (Pair r w1)
    show ?thesis
    proof (cases r)
      case (Inl err)
      then obtain m where "err = Error m" using q Pair by auto
      then show ?thesis using True Pair Inl by (simp add: cleanupOrphanedAppointments_def Let_def)
    next
      case (Inr rows)
      show ?thesis
        using True Pair Inr sweep_appointments_result[of ev cfg i tok rows w1]
        by (cases "sweep_appointments ev cfg i tok rows w1")
           (auto simp: cleanupOrphanedAppointments_def Let_def)
    qed
  qed
qed

lemma single_integration_phases:
  assumes "ensureValidToken ev cfg i w = (Inr tok, w1)"
  shows "syncSingleIntegration ev cfg i w =
           (case syncGoogleEventsToLocal ev cfg i tok
                   (record_call (Info ''[2/3]'')
                      (snd (syncLocalAppointmentsToGoogle ev cfg i tok
                              (record_call (Info ''[1/3]'') w1)))) of
              (Inl err, wB) \<Rightarrow> (Inl (rethrow_logged err), wB)
            | (Inr eventsProcessed, wB) \<Rightarrow>
                (Inr eventsProcessed,
                 snd (cleanupOrphanedAppointments ev cfg i tok (record_call (Info ''[3/3]'') wB))))"
proof -
  let ?A = "syncLocalAppointmentsToGoogle ev cfg i tok (record_call (Info ''[1/3]'') w1)"
  obtain wA where a: "?A = (Inr (), wA)"
    using syncLocalAppointmentsToGoogle_completes[of ev cfg i tok "record_call (Info ''[1/3]'') w1"]
    by (cases ?A) simp
  have c: "cleanupOrphanedAppointments ev cfg i tok x =
             (Inr (), snd (cleanupOrphanedAppointments ev cfg i tok x))" for x
    using cleanupOrphanedAppointments_completes[of ev cfg i tok x]
    by (cases "cleanupOrphanedAppointments ev cfg i tok x") simp
  let ?B = "syncGoogleEventsToLocal ev cfg i tok (record_call (Info ''[2/3]'') wA)"
  have wA: "snd ?A = wA" using a by simp
  show ?thesis
  proof (cases ?B)
    case (Pair r wB)
    show ?thesis
    proof (cases r)
      case (Inl err)
      then show ?thesis
        unfolding wA using Pair by (simp add: syncSingleIntegration_def assms a)
    next
      case (Inr n)
      obtain wC where "cleanupOrphanedAppointments ev cfg i tok (record_call (Info ''[3/3]'') wB) =
                         (Inr (), wC)"
        using c[of "record_call (Info ''[3/3]'') wB"] by simp
      then show ?thesis
        unfolding wA using Pair Inr by (simp add: syncSingleIntegration_def assms a)
    qed
  qed
qed

lemma broken_env_fields:
  "db_error broken_env c = None"
  "fetch_list broken_env c =
     Inr \<lparr>response.status = 500, body_text = ''Internal'', body_json = Inl ''Unexpected token''\<rparr>"
  by (simp_all add: broken_env_def quiet_env_def)

lemma broken_fetch:
  "fetchGoogleCalendarEvents broken_env example_config tok cal ps w =
     (Inl (Error (Some ''Google Calendar API error: 500 - Internal'')),
      w\<lparr>trace := trace w @ [ListEvents tok cal ps 0, ListEvents tok cal ps 1, ListEvents tok cal ps 2],
        clock := clock w + 3000\<rparr>)"
proof -
  have a: "fetchGoogleCalendarEvents_attempt broken_env tok cal ps n =
             Inl (Error (Some ''Google Calendar API error: 500 - Internal''))" for n
    by (simp add: broken_env_fields fetchGoogleCalendarEvents_attempt_def ok_def api_error_500)
  have u: "[0..<3] = [0, 1, 2]" by (simp add: upt_conv_Cons)
  show ?thesis
    by (simp add: fetchGoogleCalendarEvents_def example_config_def withRetry_def
          withRetry_loop.simps a isPersistentError_500 after_retry_def setTimeout_delay_def
          eval_nat_numeral u)
qed

lemma example_token_fresh:
  "ensureValidToken ev cfg example_integration example_world = (Inr (Some ''token''), example_world)"
proof -
  have "truthy (integration.access_token example_integration)"
    "\<not> expiresAt example_integration - clock example_world \<le> 300000"
    by (simp_all add: example_integration_def truthy_def expiresAt_def example_world_fields)
  then show ?thesis
    using ensureValidToken_fresh[of example_integration example_world ev cfg]
    by (simp add: example_integration_fields)
qed

lemma example_phase_A:
  assumes "db_error ev (GetUnsyncedLocalAppointments ''c1'' ''primary'') = None"
    and "appointments w = [example_appointment]"
  shows "syncLocalAppointmentsToGoogle ev cfg example_integration tok w =
           (Inr (), record_call (GetUnsyncedLocalAppointments ''c1'' ''primary'') w)"
  using assms
  by (simp add: syncLocalAppointmentsToGoogle_def getUnsyncedLocalAppointments_def Let_def
        example_integration_fields local_fields)

lemma example_params:
  "clock w = 1000000 \<Longrightarrow> buildSyncParams example_integration w = first_sync_params"
  by (simp add: buildSyncParams_def example_integration_fields truthy_def first_sync_params_def)

lemma broken_single:
  "syncSingleIntegration broken_env example_config example_integration example_world =
     (Inl (Error (Some ''Google Calendar API error: 500 - Internal'')),
      example_world\<lparr>trace :=
         [Info ''[1/3]'', GetUnsyncedLocalAppointments ''c1'' ''primary'', Info ''[2/3]'',
          ListEvents (Some ''token'') ''primary'' first_sync_params 0,
          ListEvents (Some ''token'') ''primary'' first_sync_params 1,
          ListEvents (Some ''token'') ''primary'' first_sync_params 2],
        clock := 1003000\<rparr>)"
proof -
  let ?wA = "record_call (GetUnsyncedLocalAppointments ''c1'' ''primary'')
               (record_call (Info ''[1/3]'') example_world)"
  have A: "syncLocalAppointmentsToGoogle broken_env example_config example_integration
             (Some ''token'') (record_call (Info ''[1/3]'') example_world) = (Inr (), ?wA)"
    by (rule example_phase_A) (simp_all add: broken_env_fields example_world_fields)
  have ps: "buildSyncParams example_integration (record_call (Info ''[2/3]'') ?wA) =
              first_sync_params"
    by (rule example_params) (simp add: example_world_fields)
  have B: "syncGoogleEventsToLocal broken_env example_config example_integration (Some ''token'')
             (record_call (Info ''[2/3]'') ?wA) =
           (Inl (Error (Some ''Google Calendar API error: 500 - Internal'')),
            (record_call (Info ''[2/3]'') ?wA)
              \<lparr>trace := trace (record_call (Info ''[2/3]'') ?wA) @
                  [ListEvents (Some ''token'') ''primary'' first_sync_params 0,
                   ListEvents (Some ''token'') ''primary'' first_sync_params 1,
                   ListEvents (Some ''token'') ''primary'' first_sync_params 2],
                clock := clock (record_call (Info ''[2/3]'') ?wA) + 3000\<rparr>)"
    by (simp add: syncGoogleEventsToLocal_def Let_def ps broken_fetch example_integration_fields)
  show ?thesis
    unfolding single_integration_phases[OF example_token_fresh] A snd_conv B
    by (simp add: rethrow_logged_def record_call_def example_world_def)
qed

text \<open>
  A listing that answers 500 on each of its three attempts makes Phase B throw; the run of
  the integration then ends with that error, and its trace shows neither the announcement of
  Phase C nor its random draw: claim C1 fails for a failure of Phase B.
\<close>

theorem phase_B_failure_skips_phase_C_counterexample:
  "fst (syncGoogleEventsToLocal broken_env example_config example_integration (Some ''token'')
          (record_call (Info ''[2/3]'')
             (record_call (GetUnsyncedLocalAppointments ''c1'' ''primary'')
                (record_call (Info ''[1/3]'') example_world)))) =
     Inl (Error (Some ''Google Calendar API error: 500 - Internal'')) \<and>
   fst (syncSingleIntegration broken_env example_config example_integration example_world) =
     Inl (Error (Some ''Google Calendar API error: 500 - Internal'')) \<and>
   trace (snd (syncSingleIntegration broken_env example_config example_integration example_world)) =
     [Info ''[1/3]'', GetUnsyncedLocalAppointments ''c1'' ''primary'', Info ''[2/3]'',
      ListEvents (Some ''token'') ''primary'' first_sync_params 0,
      ListEvents (Some ''token'') ''primary'' first_sync_params 1,
      ListEvents (Some ''token'') ''primary'' first_sync_params 2] \<and>
   Info ''[3/3]'' \<notin>
     set (trace (snd (syncSingleIntegration broken_env example_config example_integration
                       example_world))) \<and>
   MathRandom ''i1'' \<notin>
     set (trace (snd (syncSingleIntegration broken_env example_config example_integration
                       example_world)))"
proof -
  have ps: "buildSyncParams example_integration w = first_sync_params" if "clock w = 1000000" for w
    using that by (rule example_params)
  have B: "fst (syncGoogleEventsToLocal broken_env example_config example_integration (Some ''token'')
          (record_call (Info ''[2/3]'')
             (record_call (GetUnsyncedLocalAppointments ''c1'' ''primary'')
                (record_call (Info ''[1/3]'') example_world)))) =
     Inl (Error (Some ''Google Calendar API error: 500 - Internal''))"
    by (simp add: syncGoogleEventsToLocal_def Let_def broken_fetch)
  show ?thesis
    using B by (simp add: broken_single)
qed

text \<open>
  Claim C1, as the code has it. Once the token is valid, \<^verbatim>\<open>syncSingleIntegration\<close> runs
  Phase A, then Phase B on the state Phase A left, then Phase C on the state Phase B left.
  Phase A and Phase C catch every failure themselves and never throw, so a failure inside
  Phase A does not keep Phase B from running. Phase B has no such guard: when
  \<^verbatim>\<open>syncGoogleEventsToLocal\<close> throws, \<^verbatim>\<open>syncSingleIntegration\<close> rethrows that error and
  ends in the state Phase B left, without running Phase C.
\<close>

theorem phases_run_in_order:
  assumes "ensureValidToken ev cfg i w = (Inr tok, w1)"
  shows "fst (syncLocalAppointmentsToGoogle ev cfg i tok (record_call (Info ''[1/3]'') w1)) = Inr () \<and>
         (\<forall>n wB. syncGoogleEventsToLocal ev cfg i tok
                    (record_call (Info ''[2/3]'')
                       (snd (syncLocalAppointmentsToGoogle ev cfg i tok
                               (record_call (Info ''[1/3]'') w1)))) = (Inr n, wB) \<longrightarrow>
            fst (cleanupOrphanedAppointments ev cfg i tok (record_call (Info ''[3/3]'') wB)) = Inr () \<and>
            syncSingleIntegration ev cfg i w =
              (Inr n, snd (cleanupOrphanedAppointments ev cfg i tok
                             (record_call (Info ''[3/3]'') wB)))) \<and>
         (\<forall>err wB. syncGoogleEventsToLocal ev cfg i tok
                    (record_call (Info ''[2/3]'')
                       (snd (syncLocalAppointmentsToGoogle ev cfg i tok
                               (record_call (Info ''[1/3]'') w1)))) = (Inl err, wB) \<longrightarrow>
            syncSingleIntegration ev cfg i w = (Inl (rethrow_logged err), wB))"
  using syncLocalAppointmentsToGoogle_completes cleanupOrphanedAppointments_completes
  by (simp add: single_integration_phases[OF assms])

lemma quiet_fetch:
  "fetchGoogleCalendarEvents quiet_env example_config tok cal ps w =
     (Inr \<lparr>items = None, nextSyncToken = None\<rparr>,
      w\<lparr>trace := trace w @ [ListEvents tok cal ps 0]\<rparr>)"
  by (simp add: fetchGoogleCalendarEvents_def fetchGoogleCalendarEvents_attempt_def
        quiet_env_def ok_def example_config_def withRetry_def withRetry_loop.simps
        after_retry_def)

theorem phases_run_in_order_witness:
  "ensureValidToken quiet_env example_config example_integration example_world =
     (Inr (Some ''token''), example_world) \<and>
   fst (syncSingleIntegration quiet_env example_config example_integration example_world) = Inr 0 \<and>
   snd (syncSingleIntegration quiet_env example_config example_integration example_world) =
     snd (cleanupOrphanedAppointments quiet_env example_config example_integration (Some ''token'')
            (record_call (Info ''[3/3]'')
               (example_world\<lparr>trace :=
                  [Info ''[1/3]'', GetUnsyncedLocalAppointments ''c1'' ''primary'', Info ''[2/3]'',
                   ListEvents (Some ''token'') ''primary'' first_sync_params 0]\<rparr>))) \<and>
   ensureValidToken broken_env example_config example_integration example_world =
     (Inr (Some ''token''), example_world) \<and>
   syncSingleIntegration broken_env example_config example_integration example_world =
     (Inl (Error (Some ''Google Calendar API error: 500 - Internal'')),
      example_world\<lparr>trace :=
         [Info ''[1/3]'', GetUnsyncedLocalAppointments ''c1'' ''primary'', Info ''[2/3]'',
          ListEvents (Some ''token'') ''primary'' first_sync_params 0,
          ListEvents (Some ''token'') ''primary'' first_sync_params 1,
          ListEvents (Some ''token'') ''primary'' first_sync_params 2],
        clock := 1003000\<rparr>)"
proof -
  let ?wA = "record_call (GetUnsyncedLocalAppointments ''c1'' ''primary'')
               (record_call (Info ''[1/3]'') example_world)"
  let ?wB = "example_world\<lparr>trace :=
                  [Info ''[1/3]'', GetUnsyncedLocalAppointments ''c1'' ''primary'', Info ''[2/3]'',
                   ListEvents (Some ''token'') ''primary'' first_sync_params 0]\<rparr>"
  have db: "db_error quiet_env c = None" for c by (simp add: quiet_env_def)
  have A: "syncLocalAppointmentsToGoogle ev example_config example_integration
             (Some ''token'') (record_call (Info ''[1/3]'') example_world) = (Inr (), ?wA)"
    if "\<And>c. db_error ev c = None" for ev
    by (rule example_phase_A) (simp_all add: that example_world_fields)
  have ps: "buildSyncParams example_integration (record_call (Info ''[2/3]'') ?wA) =
              first_sync_params"
    by (rule example_params) (simp add: example_world_fields)
  have B: "syncGoogleEventsToLocal quiet_env example_config example_integration (Some ''token'')
             (record_call (Info ''[2/3]'') (snd (syncLocalAppointmentsToGoogle quiet_env
                example_config example_integration (Some ''token'')
                (record_call (Info ''[1/3]'') example_world)))) = (Inr 0, ?wB)"
    unfolding A[OF db] snd_conv
    by (simp add: syncGoogleEventsToLocal_def Let_def ps quiet_fetch example_integration_fields
          truthy_def)
       (simp add: record_call_def example_world_def)
  note Q = phases_run_in_order [OF example_token_fresh, where ev = quiet_env
      and cfg = example_config]
  have q: "syncSingleIntegration quiet_env example_config example_integration example_world =
             (Inr 0, snd (cleanupOrphanedAppointments quiet_env example_config example_integration
                            (Some ''token'') (record_call (Info ''[3/3]'') ?wB)))"
    using Q [THEN conjunct2, THEN conjunct1] B by blast
  let ?wB' = "(record_call (Info ''[2/3]'') ?wA)
              \<lparr>trace := trace (record_call (Info ''[2/3]'') ?wA) @
                  [ListEvents (Some ''token'') ''primary'' first_sync_params 0,
                   ListEvents (Some ''token'') ''primary'' first_sync_params 1,
                   ListEvents (Some ''token'') ''primary'' first_sync_params 2],
                clock := clock (record_call (Info ''[2/3]'') ?wA) + 3000\<rparr>"
  have B': "syncGoogleEventsToLocal broken_env example_config example_integration (Some ''token'')
             (record_call (Info ''[2/3]'') (snd (syncLocalAppointmentsToGoogle broken_env
                example_config example_integration (Some ''token'')
                (record_call (Info ''[1/3]'') example_world)))) =
           (Inl (Error (Some ''Google Calendar API error: 500 - Internal'')), ?wB')"
    unfolding A[OF broken_env_fields(1)] snd_conv
    by (simp add: syncGoogleEventsToLocal_def Let_def ps broken_fetch example_integration_fields)
  note R = phases_run_in_order [OF example_token_fresh, where ev = broken_env
      and cfg = example_config]
  have "syncSingleIntegration broken_env example_config example_integration example_world =
          (Inl (rethrow_logged (Error (Some ''Google Calendar API error: 500 - Internal''))), ?wB')"
    using R [THEN conjunct2, THEN conjunct2] B' by blast
  then have r: "syncSingleIntegration broken_env example_config example_integration example_world =
     (Inl (Error (Some ''Google Calendar API error: 500 - Internal'')),
      example_world\<lparr>trace :=
         [Info ''[1/3]'', GetUnsyncedLocalAppointments ''c1'' ''primary'', Info ''[2/3]'',
          ListEvents (Some ''token'') ''primary'' first_sync_params 0,
          ListEvents (Some ''token'') ''primary'' first_sync_params 1,
          ListEvents (Some ''token'') ''primary'' first_sync_params 2],
        clock := 1003000\<rparr>)"
    by (simp add: rethrow_logged_def record_call_def example_world_def)
  show ?thesis
    using q r by (simp add: example_token_fresh)
qed

subsection \<open>The batch loop\<close>

lemma rethrow_logged_Error: "\<exists>m. rethrow_logged err = Error m"
  by (cases err) (simp_all add: rethrow_logged_def TypeError_message_def)

lemma syncSingleIntegration_throws_Error:
  assumes "syncSingleIntegration ev cfg i w = (Inl err, w1)"
  shows "\<exists>m. err = Error m"
proof -
  have "\<exists>x. err = rethrow_logged x"
    using assms unfolding syncSingleIntegration_def
    by (auto split: prod.splits sum.splits)
  then show ?thesis using rethrow_logged_Error by metis
qed

lemma handle_sync_error_Error:
  "handle_sync_error ev i (Error m) w =
     (Inr (), if isPersistentError (Error m) = Inr True
              then snd (markIntegrationAsError ev (integration.uid i) m w) else w)"
proof -
  obtain b where b: "isPersistentError (Error m) = Inr b"
    using isPersistentError_Error by blast
  show ?thesis
    by (cases b) (simp_all add: handle_sync_error_def b split: prod.splits)
qed

lemma markIntegrationAsError_marks:
  assumes "db_error ev (MarkIntegrationAsError x m) = None"
    and "r \<in> set (integrations (snd (markIntegrationAsError ev x m w)))" "integration.uid r = x"
  shows "integration.status r = ''error''"
proof -
  have "integrations (snd (markIntegrationAsError ev x m w)) =
          map (\<lambda>i. if integration.uid i = x
                    then i\<lparr>integration.status := ''error'', integration.updated_at := clock w\<rparr>
                    else i) (integrations w)"
    using assms(1) by (simp add: markIntegrationAsError_def Let_def)
  then obtain i where "i \<in> set (integrations w)"
    "r = (if integration.uid i = x
          then i\<lparr>integration.status := ''error'', integration.updated_at := clock w\<rparr> else i)"
    using assms(2) by auto
  then show ?thesis using assms(3) by (cases "integration.uid i = x") simp_all
qed

lemma batch_step:
  assumes "syncSingleIntegration ev cfg i w = (Inl err, w1)"
  shows "sync_integrations ev cfg (i # rest) (p, s, e) w =
           sync_integrations ev cfg rest (p + 1, s, e + 1)
             (if isPersistentError err = Inr True
              then snd (markIntegrationAsError ev (integration.uid i) (message err) w1) else w1)"
proof -
  obtain m where m: "err = Error m"
    using syncSingleIntegration_throws_Error[OF assms] by blast
  show ?thesis
    using assms by (simp add: m handle_sync_error_Error)
qed

text \<open>
  Claim C7, as the code has it. When \<^verbatim>\<open>syncSingleIntegration\<close> throws for an integration,
  the batch loop catches the error, which \<^verbatim>\<open>isPersistentError\<close> either accepts or rejects.
  If it accepts it (the message contains 401, 403, 404, 410, \<^verbatim>\<open>invalid_grant\<close> or
  \<^verbatim>\<open>token_revoked\<close>), the loop calls \<^verbatim>\<open>markIntegrationAsError\<close>, which sets the status of
  that integration to \<^verbatim>\<open>error\<close> when the store accepts the update. If it rejects it (a
  transient error whose retries were exhausted), the loop writes nothing: the integration is
  left as it was. In both cases the loop counts the failure and goes on with the remaining
  integrations of the cycle.
\<close>

theorem batch_marks_terminal_errors:
  assumes "syncSingleIntegration ev cfg i w = (Inl err, w1)"
  shows "(isPersistentError err = Inr True \<or> isPersistentError err = Inr False) \<and>
         (isPersistentError err = Inr True \<longrightarrow>
            sync_integrations ev cfg (i # rest) (p, s, e) w =
              sync_integrations ev cfg rest (p + 1, s, e + 1)
                (snd (markIntegrationAsError ev (integration.uid i) (message err) w1)) \<and>
            (db_error ev (MarkIntegrationAsError (integration.uid i) (message err)) = None \<longrightarrow>
               (\<forall>r\<in>set (integrations
                           (snd (markIntegrationAsError ev (integration.uid i) (message err) w1))).
                  integration.uid r = integration.uid i \<longrightarrow> integration.status r = ''error''))) \<and>
         (isPersistentError err = Inr False \<longrightarrow>
            sync_integrations ev cfg (i # rest) (p, s, e) w =
              sync_integrations ev cfg rest (p + 1, s, e + 1) w1)"
proof -
  obtain m where m: "err = Error m"
    using syncSingleIntegration_throws_Error[OF assms] by blast
  obtain b where b: "isPersistentError err = Inr b"
    using isPersistentError_Error m by blast
  show ?thesis
    using batch_step[OF assms, of rest p s e] b markIntegrationAsError_marks
    by (cases b) auto
qed

lemma revoked_env_fields:
  "db_error revoked_env c = None"
  "fetch_list revoked_env c =
     Inr \<lparr>response.status = 401, body_text = ''Unauthorized'', body_json = Inl ''Unexpected token''\<rparr>"
  by (simp_all add: revoked_env_def quiet_env_def)

lemma api_error_401:
  "api_error \<lparr>response.status = 401, body_text = ''Unauthorized'', body_json = j\<rparr> =
     Error (Some ''Google Calendar API error: 401 - Unauthorized'')"
  by (simp add: api_error_def show_nat.simps)

lemma isPersistentError_401:
  "isPersistentError (Error (Some ''Google Calendar API error: 401 - Unauthorized'')) = Inr True"
  by (simp add: isPersistentError_def lowered_message_def toLowerCase_def lower_char_def)

lemma revoked_fetch:
  "fetchGoogleCalendarEvents revoked_env example_config tok cal ps w =
     (Inl (Error (Some ''Google Calendar API error: 401 - Unauthorized'')),
      w\<lparr>trace := trace w @ [ListEvents tok cal ps 0]\<rparr>)"
proof -
  have a: "fetchGoogleCalendarEvents_attempt revoked_env tok cal ps n =
             Inl (Error (Some ''Google Calendar API error: 401 - Unauthorized''))" for n
    by (simp add: revoked_env_fields fetchGoogleCalendarEvents_attempt_def ok_def api_error_401)
  show ?thesis
    by (simp add: fetchGoogleCalendarEvents_def example_config_def withRetry_def
          withRetry_loop.simps a isPersistentError_401 after_retry_def)
qed

lemma buildSyncParams_record_call [simp]:
  "buildSyncParams i (record_call c w) = buildSyncParams i w"
  by (simp add: buildSyncParams_def Let_def)

lemma failing_single:
  assumes fetch: "\<And>ps w. fetchGoogleCalendarEvents ev example_config (Some ''token'') ''primary'' ps w =
                     (Inl (Error m), F ps w)"
    and db: "db_error ev (GetUnsyncedLocalAppointments ''c1'' ''primary'') = None"
    and rows: "appointments w = [example_appointment]" and clk: "clock w \<le> 3000000"
  shows "syncSingleIntegration ev example_config example_integration w =
           (Inl (Error m),
            F (buildSyncParams example_integration w)
              (record_call (Info ''[2/3]'')
                 (record_call (GetUnsyncedLocalAppointments ''c1'' ''primary'')
                    (record_call (Info ''[1/3]'') w))))"
proof -
  have "truthy (integration.access_token example_integration)"
    "\<not> expiresAt example_integration - clock w \<le> 300000"
    using clk by (simp_all add: example_integration_def truthy_def expiresAt_def)
  then have tok: "ensureValidToken ev example_config example_integration w = (Inr (Some ''token''), w)"
    using ensureValidToken_fresh[of example_integration w ev example_config]
    by (simp add: example_integration_fields)
  have A: "syncLocalAppointmentsToGoogle ev example_config example_integration
             (Some ''token'') (record_call (Info ''[1/3]'') w) =
           (Inr (), record_call (GetUnsyncedLocalAppointments ''c1'' ''primary'')
                      (record_call (Info ''[1/3]'') w))"
    by (rule example_phase_A) (simp_all add: db rows)
  show ?thesis
    unfolding single_integration_phases[OF tok] A snd_conv
    by (simp add: syncGoogleEventsToLocal_def Let_def fetch example_integration_fields
          rethrow_logged_def)
qed

lemmas broken_single_any = failing_single [where ev = broken_env, OF broken_fetch broken_env_fields(1)]
lemmas revoked_single_any = failing_single [where ev = revoked_env, OF revoked_fetch revoked_env_fields(1)]

lemma example_active:
  "getActiveGoogleCalendarIntegrations ev example_world =
     (if db_error ev GetActiveGoogleCalendarIntegrations = None then [example_integration] else [],
      record_call GetActiveGoogleCalendarIntegrations example_world)"
proof -
  have "is_active example_integration \<and> integration.status example_integration = ''connected'' \<and>
        sync_enabled example_integration \<and> integration.access_token example_integration \<noteq> None"
    by (simp add: example_integration_def)
  then show ?thesis
    by (simp add: getActiveGoogleCalendarIntegrations_def Let_def example_world_fields
             split: option.splits)
qed

text \<open>
  A listing that answers 500 on all three attempts fails the integration with a transient
  error whose retries are exhausted; the batch cycle ends with the integration still
  \<^verbatim>\<open>connected\<close> and without any call of \<^verbatim>\<open>markIntegrationAsError\<close>: claim C7 fails for
  transient errors.
\<close>

theorem transient_failure_not_marked_counterexample:
  "isPersistentError (Error (Some ''Google Calendar API error: 500 - Internal'')) = Inr False \<and>
   fst (syncSingleIntegration broken_env example_config example_integration
          (record_call GetActiveGoogleCalendarIntegrations example_world)) =
     Inl (Error (Some ''Google Calendar API error: 500 - Internal'')) \<and>
   fst (syncAllIntegrations broken_env example_config example_world) = Inr (Some (1, 0, 1)) \<and>
   map integration.status (integrations example_world) = [''connected''] \<and>
   map integration.status
     (integrations (snd (syncAllIntegrations broken_env example_config example_world))) =
     [''connected''] \<and>
   trace (snd (syncAllIntegrations broken_env example_config example_world)) =
     [GetActiveGoogleCalendarIntegrations,
      Info ''[1/3]'', GetUnsyncedLocalAppointments ''c1'' ''primary'', Info ''[2/3]'',
      ListEvents (Some ''token'') ''primary'' first_sync_params 0,
      ListEvents (Some ''token'') ''primary'' first_sync_params 1,
      ListEvents (Some ''token'') ''primary'' first_sync_params 2]"
proof -
  let ?w1 = "record_call GetActiveGoogleCalendarIntegrations example_world"
  have s: "syncSingleIntegration broken_env example_config example_integration ?w1 =
     (Inl (Error (Some ''Google Calendar API error: 500 - Internal'')),
      (record_call (Info ''[2/3]'')
         (record_call (GetUnsyncedLocalAppointments ''c1'' ''primary'')
            (record_call (Info ''[1/3]'') ?w1)))
      \<lparr>trace := trace (record_call (Info ''[2/3]'')
         (record_call (GetUnsyncedLocalAppointments ''c1'' ''primary'')
            (record_call (Info ''[1/3]'') ?w1))) @
          [ListEvents (Some ''token'') ''primary'' (buildSyncParams example_integration ?w1) 0,
           ListEvents (Some ''token'') ''primary'' (buildSyncParams example_integration ?w1) 1,
           ListEvents (Some ''token'') ''primary'' (buildSyncParams example_integration ?w1) 2],
        clock := clock (record_call (Info ''[2/3]'')
         (record_call (GetUnsyncedLocalAppointments ''c1'' ''primary'')
            (record_call (Info ''[1/3]'') ?w1))) + 3000\<rparr>)"
    by (rule broken_single_any) (simp_all add: example_world_fields)
  have ps: "buildSyncParams example_integration example_world = first_sync_params"
    by (rule example_params) (simp add: example_world_fields)
  have h: "handle_sync_error broken_env example_integration
             (Error (Some ''Google Calendar API error: 500 - Internal'')) w = (Inr (), w)" for w
    by (simp add: handle_sync_error_Error isPersistentError_500)
  have all: "syncAllIntegrations broken_env example_config example_world =
     (Inr (Some (1, 0, 1)), snd (syncSingleIntegration broken_env example_config example_integration ?w1))"
    by (simp add: syncAllIntegrations_def example_active broken_env_fields slice0_def
          example_config_def[THEN arg_cong, of maxCompaniesPerBatch] s h)
  have st: "integration.status example_integration = ''connected''"
    by (simp add: example_integration_def)
  show ?thesis
    unfolding all
    by (simp add: isPersistentError_500 s ps example_world_fields st)
qed

lemma integrations_markIntegrationAsError:
  "db_error ev (MarkIntegrationAsError x m) = None \<Longrightarrow>
   integrations (snd (markIntegrationAsError ev x m w)) =
     map (\<lambda>i. if integration.uid i = x
               then i\<lparr>integration.status := ''error'', integration.updated_at := clock w\<rparr>
               else i) (integrations w)"
  by (simp add: markIntegrationAsError_def Let_def)

theorem batch_marks_terminal_errors_witness:
  "fst (syncSingleIntegration revoked_env example_config example_integration example_world) =
     Inl (Error (Some ''Google Calendar API error: 401 - Unauthorized'')) \<and>
   isPersistentError (Error (Some ''Google Calendar API error: 401 - Unauthorized'')) = Inr True \<and>
   fst (sync_integrations revoked_env example_config [example_integration] (0, 0, 0)
          example_world) = Inr (1, 0, 1) \<and>
   map integration.status
     (integrations (snd (sync_integrations revoked_env example_config [example_integration]
                           (0, 0, 0) example_world))) = [''error''] \<and>
   fst (syncSingleIntegration broken_env example_config example_integration example_world) =
     Inl (Error (Some ''Google Calendar API error: 500 - Internal'')) \<and>
   isPersistentError (Error (Some ''Google Calendar API error: 500 - Internal'')) = Inr False \<and>
   fst (sync_integrations broken_env example_config [example_integration, example_integration]
          (0, 0, 0) example_world) = Inr (2, 0, 2) \<and>
   map integration.status
     (integrations (snd (sync_integrations broken_env example_config
                           [example_integration, example_integration] (0, 0, 0) example_world))) =
     [''connected'']"
proof -
  let ?e401 = "Error (Some ''Google Calendar API error: 401 - Unauthorized'')"
  let ?e500 = "Error (Some ''Google Calendar API error: 500 - Internal'')"
  have st: "integration.status example_integration = ''connected''"
    by (simp add: example_integration_def)
  obtain wr where r: "syncSingleIntegration revoked_env example_config example_integration
                        example_world = (Inl ?e401, wr)"
    and wr: "integrations wr = [example_integration]"
    using revoked_single_any[of example_world] by (simp add: example_world_fields)
  note R = batch_marks_terminal_errors [OF r, where rest = "[]" and p = 0 and s = 0 and e = 0]
  have r1: "sync_integrations revoked_env example_config [example_integration] (0, 0, 0)
              example_world =
            (Inr (1, 0, 1), snd (markIntegrationAsError revoked_env
                                   (integration.uid example_integration)
              (Some ''Google Calendar API error: 401 - Unauthorized'') wr))"
    using R [THEN conjunct2, THEN conjunct1] isPersistentError_401 by simp
  have r2: "map integration.status (integrations (snd (markIntegrationAsError revoked_env
              (integration.uid example_integration)
              (Some ''Google Calendar API error: 401 - Unauthorized'') wr))) = [''error'']"
    by (simp add: integrations_markIntegrationAsError revoked_env_fields wr)
  obtain w1 where b1: "syncSingleIntegration broken_env example_config example_integration
                         example_world = (Inl ?e500, w1)"
    and w1: "integrations w1 = [example_integration]" "appointments w1 = [example_appointment]"
      "clock w1 = 1003000"
    using broken_single_any[of example_world] by (simp add: example_world_fields)
  obtain w2 where b2: "syncSingleIntegration broken_env example_config example_integration w1 =
                         (Inl ?e500, w2)"
    and w2: "integrations w2 = [example_integration]"
    using broken_single_any[of w1] w1 by simp
  note B1 = batch_marks_terminal_errors [OF b1, where rest = "[example_integration]"
      and p = 0 and s = 0 and e = 0]
  note B2 = batch_marks_terminal_errors [OF b2, where rest = "[]" and p = 1 and s = 0 and e = 1]
  have b: "sync_integrations broken_env example_config [example_integration, example_integration]
             (0, 0, 0) example_world = (Inr (2, 0, 2), w2)"
    using B1 [THEN conjunct2, THEN conjunct2] B2 [THEN conjunct2, THEN conjunct2]
      isPersistentError_500 by simp
  show ?thesis
    unfolding r1 b
    by (simp add: r r2 b1 w2 st isPersistentError_401 isPersistentError_500)
qed

end
